(* ===== verification/Py_Prelude.thy ===== *)
theory Py_Prelude
  imports Complex_Main "HOL-Library.List_Lexorder" "HOL-Library.Code_Target_Nat"
begin

section \<open>Python values, exceptions and dictionaries\<close>

text \<open>
  Shared ground of the development.  A Python \<open>str\<close> is the list of its code
  points, \<open>bytes\<close> the list of its byte values, and what \<open>json.loads\<close> returns
  is a \<open>json\<close> value.  A Python \<open>dict\<close> is the association list of its items in
  insertion order.  A function that may raise returns \<open>exn + 'a\<close>; an uncaught
  exception is \<open>Inl\<close>.  The collections \<open>py_simps\<close> and \<open>grow_intros\<close> are
  filled by this and the component theories.
\<close>

named_theorems py_simps \<open>evaluation of the Python helpers on constructors and literals\<close>
named_theorems grow_intros \<open>an operation of the verifier only ever adds failure codes\<close>

subsection \<open>Strings and bytes\<close>

type_synonym ustr = "nat list"
type_synonym bytes = "nat list"

text \<open>An ASCII literal of the source as a list of code points.\<close>

definition lit :: "string \<Rightarrow> ustr" where
  "lit s = map of_char s"

lemma lit_eq_iff [simp]: "lit s = lit t \<longleftrightarrow> s = t"
proof -
  have "inj (of_char :: char \<Rightarrow> nat)" by (rule inj_of_char)
  then show ?thesis by (simp add: lit_def inj_map_eq_map)
qed

lemma lit_Nil [simp]: "lit [] = []"
  by (simp add: lit_def)

lemma lit_eq_Nil [simp]: "lit s = [] \<longleftrightarrow> s = []" "[] = lit s \<longleftrightarrow> s = []"
  by (auto simp: lit_def)

lemma length_lit [simp]: "length (lit s) = length s"
  by (simp add: lit_def)

lemma set_lit_less: "c \<in> set (lit s) \<Longrightarrow> c < 256"
  by (auto simp: lit_def)

definition starts_with :: "ustr \<Rightarrow> ustr \<Rightarrow> bool" where
  "starts_with p s \<longleftrightarrow> take (length p) s = p"

definition ends_with :: "ustr \<Rightarrow> ustr \<Rightarrow> bool" where
  "ends_with p s \<longleftrightarrow> length p \<le> length s \<and> drop (length s - length p) s = p"

text \<open>A byte string holds byte values only; a text string holds code points only.\<close>

definition bytes_ok :: "bytes \<Rightarrow> bool" where
  "bytes_ok bs \<longleftrightarrow> (\<forall>b \<in> set bs. b < 256)"

lemma bytes_ok_append [simp]: "bytes_ok (a @ b) \<longleftrightarrow> bytes_ok a \<and> bytes_ok b"
  by (auto simp: bytes_ok_def)

lemma bytes_ok_Cons [simp]: "bytes_ok (a # b) \<longleftrightarrow> a < 256 \<and> bytes_ok b"
  by (auto simp: bytes_ok_def)

lemma bytes_ok_Nil [simp]: "bytes_ok []"
  by (simp add: bytes_ok_def)

subsection \<open>Exceptions and the result monad\<close>

text \<open>
  \<open>IntegerTooLong\<close> is the \<open>ValueError\<close> of \<open>int\<close> on a literal over the interpreter's digit
  limit: a handler of \<open>ValueError\<close> catches it, one of \<open>JSONDecodeError\<close> does not.
\<close>

datatype exn =
    TypeError
  | ValueError
  | IntegerTooLong
  | UnicodeEncodeError
  | UnicodeDecodeError
  | OSError
  | OverflowError
  | BindingError
  | BadKey
  | RegradeRefused
  | KeyError
  | IndexError
  | AttributeError
  | DecimalInvalidOperation
  | JcsError
  | IJsonError ustr
  | StringNotScalarError
  | SystemExit

type_synonym 'a res = "exn + 'a"

fun rbind :: "'a res \<Rightarrow> ('a \<Rightarrow> 'b res) \<Rightarrow> 'b res" where
  "rbind (Inl e) f = Inl e"
| "rbind (Inr x) f = f x"

lemma rbind_eq_Inr: "rbind m f = Inr y \<longleftrightarrow> (\<exists>x. m = Inr x \<and> f x = Inr y)"
  by (cases m) auto

lemma rbind_InrE: "rbind m f = Inr y \<Longrightarrow> (\<And>x. m = Inr x \<Longrightarrow> f x = Inr y \<Longrightarrow> P) \<Longrightarrow> P"
  by (cases m) auto

lemma rbind_cong [fundef_cong]:
  "m = m' \<Longrightarrow> (\<And>x. m' = Inr x \<Longrightarrow> f x = f' x) \<Longrightarrow> rbind m f = rbind m' f'"
  by (cases m') auto

text \<open>Raise when a condition holds, as \<open>if c: raise e\<close> does.\<close>

definition raise_if :: "bool \<Rightarrow> exn \<Rightarrow> unit res" where
  "raise_if c e = (if c then Inl e else Inr ())"

lemma raise_if_eq_Inr [simp]: "raise_if c e = Inr u \<longleftrightarrow> \<not> c"
  by (auto simp: raise_if_def)

fun rmap :: "('a \<Rightarrow> 'b res) \<Rightarrow> 'a list \<Rightarrow> 'b list res" where
  "rmap f [] = Inr []"
| "rmap f (x # xs) = rbind (f x) (\<lambda>y. rbind (rmap f xs) (\<lambda>ys. Inr (y # ys)))"

lemma rmap_cong [fundef_cong]:
  "xs = ys \<Longrightarrow> (\<And>x. x \<in> set ys \<Longrightarrow> f x = g x) \<Longrightarrow> rmap f xs = rmap g ys"
  by (induction ys arbitrary: xs) (auto intro!: rbind_cong)

lemma rmap_eq_Inr: "rmap f xs = Inr ys \<longleftrightarrow> list_all2 (\<lambda>x y. f x = Inr y) xs ys"
proof (induction xs arbitrary: ys)
  case Nil
  then show ?case by auto
next
  case (Cons x xs)
  then show ?case by (cases ys) (auto simp: rbind_eq_Inr)
qed

lemma rmap_results: "rmap f xs = Inr ys \<Longrightarrow> y \<in> set ys \<Longrightarrow> \<exists>x \<in> set xs. f x = Inr y"
  by (induction xs arbitrary: ys) (auto elim!: rbind_InrE)

lemma rmap_total: "(\<And>x. x \<in> set xs \<Longrightarrow> f x = Inr (g x)) \<Longrightarrow> rmap f xs = Inr (map g xs)"
  by (induction xs) auto

text \<open>A \<open>for\<close> loop whose body updates a state and may raise.\<close>

fun rfold :: "('s \<Rightarrow> 'a \<Rightarrow> 's res) \<Rightarrow> 's \<Rightarrow> 'a list \<Rightarrow> 's res" where
  "rfold f s [] = Inr s"
| "rfold f s (x # xs) = rbind (f s x) (\<lambda>s'. rfold f s' xs)"

lemma rfold_invariant:
  assumes "rfold f s xs = Inr t" and "P s"
    and "\<And>s x s'. x \<in> set xs \<Longrightarrow> P s \<Longrightarrow> f s x = Inr s' \<Longrightarrow> P s'"
  shows "P t"
  using assms
proof (induction xs arbitrary: s)
  case Nil
  then show ?case by simp
next
  case (Cons x xs)
  from Cons.prems(1) obtain s' where "f s x = Inr s'" "rfold f s' xs = Inr t"
    by (auto simp: rbind_eq_Inr)
  then show ?case using Cons by (metis list.set_intros)
qed

subsection \<open>Decoded JSON values\<close>

text \<open>
  A finite Python float is its value; \<open>json.loads\<close> also accepts the three
  non-finite constants.
\<close>

datatype pyfloat = Finite rat | PosInf | NegInf | NaN

datatype json =
    JNull
  | JBool bool
  | JInt int
  | JFloat pyfloat
  | JStr ustr
  | JArr "json list"
  | JObj "(ustr \<times> json) list"

type_synonym dict = "(ustr \<times> json) list"

text \<open>\<open>d.get(k)\<close>, which cannot tell an absent member from a carried null, and \<open>k in d\<close>.\<close>

definition dget :: "dict \<Rightarrow> ustr \<Rightarrow> json" where
  "dget d k = (case map_of d k of None \<Rightarrow> JNull | Some v \<Rightarrow> v)"

definition dmem :: "dict \<Rightarrow> ustr \<Rightarrow> bool" where
  "dmem d k \<longleftrightarrow> k \<in> fst ` set d"

lemma dget_Cons [simp]: "dget ((k', v) # d) k = (if k = k' then v else dget d k)"
  by (simp add: dget_def)

lemma dget_Nil [simp]: "dget [] k = JNull"
  by (simp add: dget_def)

lemma dmem_Cons [simp]: "dmem ((k', v) # d) k \<longleftrightarrow> k = k' \<or> dmem d k"
  by (auto simp: dmem_def)

lemma dmem_Nil [simp]: "\<not> dmem [] k"
  by (simp add: dmem_def)

lemma not_dmem_dget: "\<not> dmem d k \<Longrightarrow> dget d k = JNull"
  by (force simp: dmem_def dget_def split: option.splits dest: map_of_SomeD)

text \<open>\<open>d[k] = v\<close> keeps the position of a key that is already there.\<close>

fun dset :: "dict \<Rightarrow> ustr \<Rightarrow> json \<Rightarrow> dict" where
  "dset [] k v = [(k, v)]"
| "dset ((k', v') # d) k v = (if k' = k then (k, v) # d else (k', v') # dset d k v)"

lemma map_of_dset: "map_of (dset d k v) = (map_of d)(k \<mapsto> v)"
  by (induction d k v rule: dset.induct) (auto simp: fun_eq_iff)

lemma keys_dset: "fst ` set (dset d k v) = insert k (fst ` set d)"
  by (induction d k v rule: dset.induct) auto

lemma distinct_dset: "distinct (map fst d) \<Longrightarrow> distinct (map fst (dset d k v))"
proof (induction d k v rule: dset.induct)
  case (2 k' v' d k v)
  then show ?case using keys_dset [of d k v] by auto
qed simp

lemma dset_fresh: "k \<notin> fst ` set d \<Longrightarrow> dset d k v = d @ [(k, v)]"
  by (induction d k v rule: dset.induct) auto

text \<open>\<open>dict(pairs)\<close>.\<close>

definition dict_of_pairs :: "dict \<Rightarrow> dict" where
  "dict_of_pairs ps = foldl (\<lambda>d (k, v). dset d k v) [] ps"

lemma dict_of_pairs_distinct:
  assumes "distinct (map fst ps)"
  shows "dict_of_pairs ps = ps"
proof -
  have "foldl (\<lambda>d (k, v). dset d k v) d ps = d @ ps" if "distinct (map fst (d @ ps))" for d
    using that
  proof (induction ps arbitrary: d)
    case (Cons p ps)
    then show ?case by (cases p) (auto simp: dset_fresh)
  qed simp
  from this [of "[]"] assms show ?thesis by (simp add: dict_of_pairs_def)
qed

text \<open>The type tests the code makes: \<open>isinstance(v, dict)\<close>, \<open>list\<close> and \<open>str\<close>.\<close>

fun is_obj :: "json \<Rightarrow> bool" where
  "is_obj (JObj d) = True"
| "is_obj _ = False"

fun is_arr :: "json \<Rightarrow> bool" where
  "is_arr (JArr xs) = True"
| "is_arr _ = False"

fun is_str :: "json \<Rightarrow> bool" where
  "is_str (JStr s) = True"
| "is_str _ = False"

fun the_obj :: "json \<Rightarrow> dict" where
  "the_obj (JObj d) = d"
| "the_obj _ = []"

fun the_arr :: "json \<Rightarrow> json list" where
  "the_arr (JArr xs) = xs"
| "the_arr _ = []"

fun the_str :: "json \<Rightarrow> ustr" where
  "the_str (JStr s) = s"
| "the_str _ = []"

lemma is_obj_iff: "is_obj v \<longleftrightarrow> (\<exists>d. v = JObj d)"
  by (cases v) auto

lemma is_arr_iff: "is_arr v \<longleftrightarrow> (\<exists>xs. v = JArr xs)"
  by (cases v) auto

lemma is_str_iff: "is_str v \<longleftrightarrow> (\<exists>s. v = JStr s)"
  by (cases v) auto

text \<open>\<open>isinstance(v, int) and not isinstance(v, bool)\<close> is the constructor test on \<open>JInt\<close>.\<close>

fun as_int :: "json \<Rightarrow> int option" where
  "as_int (JInt i) = Some i"
| "as_int _ = None"

lemma as_int_eq_Some [simp]: "as_int v = Some i \<longleftrightarrow> v = JInt i"
  by (cases v) auto

text \<open>Truth value of an object, and whether it can be hashed (a set element, a dict key).\<close>

fun truthy :: "json \<Rightarrow> bool" where
  "truthy JNull = False"
| "truthy (JBool b) = b"
| "truthy (JInt i) = (i \<noteq> 0)"
| "truthy (JFloat f) = (f \<noteq> Finite 0)"
| "truthy (JStr s) = (s \<noteq> [])"
| "truthy (JArr xs) = (xs \<noteq> [])"
| "truthy (JObj d) = (d \<noteq> [])"

fun hashable :: "json \<Rightarrow> bool" where
  "hashable (JArr xs) = False"
| "hashable (JObj d) = False"
| "hashable _ = True"

subsection \<open>Python equality\<close>

text \<open>
  Booleans, integers and floats compare by value across the three types, and a NaN
  equals nothing.  Containers and \<open>in\<close> compare elements by identity first, and
  \<open>json.loads\<close> hands out one NaN object, so two NaNs inside containers match.
\<close>

fun num_of :: "json \<Rightarrow> pyfloat option" where
  "num_of (JBool b) = Some (Finite (if b then 1 else 0))"
| "num_of (JInt i) = Some (Finite (of_int i))"
| "num_of (JFloat f) = Some f"
| "num_of _ = None"

definition both_nan :: "json \<Rightarrow> json \<Rightarrow> bool" where
  "both_nan v w \<longleftrightarrow> v = JFloat NaN \<and> w = JFloat NaN"

fun py_eq :: "json \<Rightarrow> json \<Rightarrow> bool"
  and py_eqs :: "json list \<Rightarrow> json list \<Rightarrow> bool"
  and py_eqm :: "dict \<Rightarrow> dict \<Rightarrow> bool" where
  "py_eq JNull w = (w = JNull)"
| "py_eq (JStr s) w = (w = JStr s)"
| "py_eq (JArr xs) w = (case w of JArr ys \<Rightarrow> py_eqs xs ys | _ \<Rightarrow> False)"
| "py_eq (JObj d) w = (case w of JObj e \<Rightarrow> length d = length e \<and> py_eqm d e | _ \<Rightarrow> False)"
| "py_eq v w = (num_of v = num_of w \<and> num_of v \<noteq> Some NaN)"
| "py_eqs [] ys = (ys = [])"
| "py_eqs (x # xs) ys =
     (case ys of [] \<Rightarrow> False | y # ys' \<Rightarrow> (py_eq x y \<or> both_nan x y) \<and> py_eqs xs ys')"
| "py_eqm [] e = True"
| "py_eqm ((k, v) # d) e =
     (case map_of e k of None \<Rightarrow> False
      | Some w \<Rightarrow> (py_eq v w \<or> both_nan v w) \<and> py_eqm d e)"

definition py_same :: "json \<Rightarrow> json \<Rightarrow> bool" where
  "py_same v w \<longleftrightarrow> py_eq v w \<or> both_nan v w"

text \<open>\<open>x in xs\<close> for a list, a tuple or a set of values.\<close>

definition jin :: "json \<Rightarrow> json list \<Rightarrow> bool" where
  "jin x xs \<longleftrightarrow> list_ex (py_same x) xs"

lemma py_eq_JStr [simp]: "py_eq v (JStr s) \<longleftrightarrow> v = JStr s"
  by (cases v) auto

lemma py_eq_JNull [simp]: "py_eq v JNull \<longleftrightarrow> v = JNull"
  by (cases v) auto

lemma py_same_JStr [simp]: "py_same v (JStr s) \<longleftrightarrow> v = JStr s" "py_same (JStr s) v \<longleftrightarrow> v = JStr s"
  by (auto simp: py_same_def both_nan_def)

lemma jin_Nil [simp]: "\<not> jin x []"
  by (simp add: jin_def)

lemma jin_Cons [simp]: "jin x (y # ys) \<longleftrightarrow> py_same x y \<or> jin x ys"
  by (simp add: jin_def)

lemma jin_JStr: "jin (JStr s) xs \<longleftrightarrow> JStr s \<in> set xs"
  by (auto simp: jin_def list_ex_iff)

lemma jin_strs: "jin v (map JStr ss) \<longleftrightarrow> (\<exists>s \<in> set ss. v = JStr s)"
  by (auto simp: jin_def list_ex_iff)

text \<open>The list of strings an array carries when every entry is one.\<close>

definition all_strs :: "json list \<Rightarrow> bool" where
  "all_strs xs \<longleftrightarrow> list_all is_str xs"

lemma all_strs_map: "all_strs xs \<Longrightarrow> xs = map JStr (map the_str xs)"
  by (induction xs) (auto simp: all_strs_def is_str_iff)

lemma all_strs_JStr [simp]: "all_strs (map JStr ss)"
  by (simp add: all_strs_def list_all_iff)

end
