(* ===== verification/Py_Text.thy ===== *)
theory Py_Text
  imports Py_Prelude
begin

section \<open>Text encodings of the Python standard library\<close>

text \<open>
  What the code uses of \<open>str.encode\<close>, \<open>bytes.decode\<close>, \<open>bytes.hex\<close>,
  \<open>str(int)\<close> and the \<open>base64\<close> module, with \<open>strict_b64decode\<close> and the UTF-16
  sort key of \<open>packaging/run_vectors.py\<close>.  Each encoder has its round trip.
\<close>

subsection \<open>UTF-8\<close>

definition is_surrogate :: "nat \<Rightarrow> bool" where
  "is_surrogate c \<longleftrightarrow> 0xD800 \<le> c \<and> c < 0xE000"

text \<open>Unicode scalar values: the code points UTF-8 and UTF-16 can carry.\<close>

definition scalar :: "nat \<Rightarrow> bool" where
  "scalar c \<longleftrightarrow> c < 0x110000 \<and> \<not> is_surrogate c"

definition scalars :: "ustr \<Rightarrow> bool" where
  "scalars s \<longleftrightarrow> list_all scalar s"

lemma scalars_simps [simp]:
  "scalars []" "scalars (c # s) \<longleftrightarrow> scalar c \<and> scalars s" "scalars (s @ t) \<longleftrightarrow> scalars s \<and> scalars t"
  by (auto simp: scalars_def)

definition utf8_char :: "nat \<Rightarrow> bytes" where
  "utf8_char c =
     (if c < 0x80 then [c]
      else if c < 0x800 then [0xC0 + c div 64, 0x80 + c mod 64]
      else if c < 0x10000 then [0xE0 + c div 4096, 0x80 + c div 64 mod 64, 0x80 + c mod 64]
      else [0xF0 + c div 262144, 0x80 + c div 4096 mod 64, 0x80 + c div 64 mod 64, 0x80 + c mod 64])"

definition utf8_bytes :: "ustr \<Rightarrow> bytes" where
  "utf8_bytes s = concat (map utf8_char s)"

definition utf8_encode :: "ustr \<Rightarrow> bytes res" where
  "utf8_encode s = (if list_ex is_surrogate s then Inl UnicodeEncodeError else Inr (utf8_bytes s))"

definition is_cont :: "nat \<Rightarrow> bool" where
  "is_cont b \<longleftrightarrow> 0x80 \<le> b \<and> b < 0xC0"

text \<open>One strict decoding step: shortest form only, no surrogate, nothing above U+10FFFF.\<close>

fun utf8_step :: "bytes \<Rightarrow> (nat \<times> bytes) option" where
  "utf8_step [] = None"
| "utf8_step (b # bs) =
     (if b < 0x80 then Some (b, bs)
      else if 0xC2 \<le> b \<and> b \<le> 0xDF then
        (case bs of
           b1 # r \<Rightarrow> if is_cont b1 then Some ((b - 0xC0) * 64 + (b1 - 0x80), r) else None
         | _ \<Rightarrow> None)
      else if 0xE0 \<le> b \<and> b \<le> 0xEF then
        (case bs of
           b1 # b2 # r \<Rightarrow>
             let c = (b - 0xE0) * 4096 + (b1 - 0x80) * 64 + (b2 - 0x80) in
             if is_cont b1 \<and> is_cont b2 \<and> 0x800 \<le> c \<and> \<not> is_surrogate c then Some (c, r) else None
         | _ \<Rightarrow> None)
      else if 0xF0 \<le> b \<and> b \<le> 0xF4 then
        (case bs of
           b1 # b2 # b3 # r \<Rightarrow>
             let c = (b - 0xF0) * 262144 + (b1 - 0x80) * 4096 + (b2 - 0x80) * 64 + (b3 - 0x80) in
             if is_cont b1 \<and> is_cont b2 \<and> is_cont b3 \<and> 0x10000 \<le> c \<and> c < 0x110000
             then Some (c, r) else None
         | _ \<Rightarrow> None)
      else None)"

lemma utf8_step_shorter: "utf8_step bs = Some (c, r) \<Longrightarrow> length r < length bs"
  by (cases bs) (auto simp: Let_def split: if_splits list.splits)

function utf8_decode :: "bytes \<Rightarrow> ustr option" where
  "utf8_decode bs =
     (if bs = [] then Some []
      else case utf8_step bs of
        None \<Rightarrow> None
      | Some (c, r) \<Rightarrow> map_option ((#) c) (utf8_decode r))"
  by pat_completeness auto
termination
  by (relation "measure length") (auto intro: utf8_step_shorter)

declare utf8_decode.simps [simp del]

lemma utf8_decode_Nil [simp]: "utf8_decode [] = Some []"
  by (simp add: utf8_decode.simps)

lemma utf8_char_bytes_ok: "c < 0x110000 \<Longrightarrow> bytes_ok (utf8_char c)"
  by (auto simp: utf8_char_def)

lemma utf8_bytes_ok: "scalars s \<Longrightarrow> bytes_ok (utf8_bytes s)"
  by (induction s) (auto simp: utf8_bytes_def scalar_def intro: utf8_char_bytes_ok)

lemma utf8_char_neq_Nil [simp]: "utf8_char c \<noteq> []"
  by (simp add: utf8_char_def)

lemma utf8_bytes_simps [simp]:
  "utf8_bytes [] = []" "utf8_bytes (c # s) = utf8_char c @ utf8_bytes s"
  "utf8_bytes (s @ t) = utf8_bytes s @ utf8_bytes t"
  by (auto simp: utf8_bytes_def)

lemma utf8_step_2:
  "\<lbrakk>a < 32; 2 \<le> a; d < 64; c = a * 64 + d\<rbrakk> \<Longrightarrow>
   utf8_step ((0xC0 + a) # (0x80 + d) # bs) = Some (c, bs)"
  by (simp add: is_cont_def)

lemma utf8_step_3:
  "\<lbrakk>a < 16; b < 64; d < 64; c = a * 4096 + b * 64 + d; 0x800 \<le> c; \<not> is_surrogate c\<rbrakk> \<Longrightarrow>
   utf8_step ((0xE0 + a) # (0x80 + b) # (0x80 + d) # bs) = Some (c, bs)"
  by (simp add: is_cont_def Let_def)

lemma utf8_step_4:
  "\<lbrakk>a < 5; b < 64; d < 64; e < 64; c = a * 262144 + b * 4096 + d * 64 + e; 0x10000 \<le> c; c < 0x110000\<rbrakk> \<Longrightarrow>
   utf8_step ((0xF0 + a) # (0x80 + b) # (0x80 + d) # (0x80 + e) # bs) = Some (c, bs)"
  by (simp add: is_cont_def Let_def)

lemma utf8_step_1: "b < 0x80 \<Longrightarrow> utf8_step (b # bs) = Some (b, bs)"
  by simp

declare utf8_step.simps(2) [simp del]

lemma utf8_step_char:
  assumes "scalar c"
  shows "utf8_step (utf8_char c @ bs) = Some (c, bs)"
proof -
  have c: "c < 0x110000" "\<not> is_surrogate c" using assms by (auto simp: scalar_def)
  have d64: "c div 64 * 64 + c mod 64 = c" by simp
  have d4096: "c div 4096 * 64 + c div 64 mod 64 = c div 64"
    using div_mult_mod_eq [of "c div 64" 64] by (simp flip: div_mult2_eq)
  have d262144: "c div 262144 * 64 + c div 4096 mod 64 = c div 4096"
    using div_mult_mod_eq [of "c div 4096" 64] by (simp flip: div_mult2_eq)
  consider "c < 0x80" | "0x80 \<le> c" "c < 0x800" | "0x800 \<le> c" "c < 0x10000" | "0x10000 \<le> c"
    by linarith
  then show ?thesis
  proof cases
    case 1
    then show ?thesis by (simp add: utf8_char_def utf8_step_1)
  next
    case 2
    then have "2 \<le> c div 64" "c div 64 < 32" by auto
    moreover from 2 have "utf8_char c = [0xC0 + c div 64, 0x80 + c mod 64]" by (simp add: utf8_char_def)
    ultimately show ?thesis using utf8_step_2 [of "c div 64" "c mod 64" c bs] d64 by simp
  next
    case 3
    then have "c div 4096 < 16" by auto
    moreover have "c = c div 4096 * 4096 + c div 64 mod 64 * 64 + c mod 64" using d64 d4096 by linarith
    ultimately show ?thesis
      using 3 c utf8_step_3 [of "c div 4096" "c div 64 mod 64" "c mod 64" c bs] by (simp add: utf8_char_def)
  next
    case 4
    then have "c div 262144 < 5" using c by auto
    moreover have "c = c div 262144 * 262144 + c div 4096 mod 64 * 4096 + c div 64 mod 64 * 64 + c mod 64"
      using d64 d4096 d262144 by linarith
    ultimately show ?thesis
      using 4 c utf8_step_4 [of "c div 262144" "c div 4096 mod 64" "c div 64 mod 64" "c mod 64" c bs]
      by (simp add: utf8_char_def)
  qed
qed

lemma utf8_decode_char: "scalar c \<Longrightarrow> utf8_decode (utf8_char c @ bs) = map_option ((#) c) (utf8_decode bs)"
  by (subst utf8_decode.simps) (simp add: utf8_step_char)

lemma utf8_decode_append:
  "scalars s \<Longrightarrow> utf8_decode (utf8_bytes s @ bs) = map_option ((@) s) (utf8_decode bs)"
  by (induction s; cases "utf8_decode bs") (auto simp: utf8_decode_char)

lemma utf8_decode_encode: "scalars s \<Longrightarrow> utf8_decode (utf8_bytes s) = Some s"
  using utf8_decode_append [of s "[]"] by simp


text \<open>The converse: a decoded string re-encodes to the bytes it came from.\<close>

lemma digits64: "d < 64 \<Longrightarrow> (q * 64 + d) div 64 = q \<and> (q * 64 + d) mod 64 = (d :: nat)"
  by auto

lemma digits64_3:
  assumes "d < 64" "e < 64" "c = a * 4096 + d * 64 + (e :: nat)"
  shows "c div 4096 = a \<and> c div 64 mod 64 = d \<and> c mod 64 = e"
proof -
  have c: "c = (a * 64 + d) * 64 + e" using assms by simp
  then have "c div 64 = a * 64 + d" "c mod 64 = e" using digits64 [OF assms(2)] by blast+
  moreover have "c div 4096 = c div 64 div 64" by (simp flip: div_mult2_eq)
  ultimately show ?thesis using digits64 [OF assms(1), of a] by simp
qed

lemma digits64_4:
  assumes "d < 64" "e < 64" "f < 64" "c = a * 262144 + d * 4096 + e * 64 + (f :: nat)"
  shows "c div 262144 = a \<and> c div 4096 mod 64 = d \<and> c div 64 mod 64 = e \<and> c mod 64 = f"
proof -
  have c: "c = (a * 4096 + d * 64 + e) * 64 + f" using assms by simp
  then have q: "c div 64 = a * 4096 + d * 64 + e" "c mod 64 = f" using digits64 [OF assms(3)] by blast+
  have "c div 64 div 4096 = c div 262144" "c div 64 div 64 = c div 4096" by (simp_all flip: div_mult2_eq)
  with q digits64_3 [OF assms(1,2) q(1)] show ?thesis by simp
qed

lemma utf8_step_sound:
  assumes "utf8_step bs = Some (c, r)"
  shows "scalar c \<and> bs = utf8_char c @ r"
proof -
  obtain b bs' where bs: "bs = b # bs'" using assms by (cases bs) auto
  consider "b < 0x80" | "0xC2 \<le> b" "b \<le> 0xDF" | "0xE0 \<le> b" "b \<le> 0xEF" | "0xF0 \<le> b" "b \<le> 0xF4"
    using assms bs by (auto simp: utf8_step.simps(2) split: if_splits)
  then show ?thesis
  proof cases
    case 1
    with assms bs show ?thesis by (auto simp: utf8_step.simps(2) utf8_char_def scalar_def is_surrogate_def)
  next
    case 2
    with assms bs obtain b1 where "bs' = b1 # r" "is_cont b1" "c = (b - 0xC0) * 64 + (b1 - 0x80)"
      by (auto simp: utf8_step.simps(2) split: list.splits if_splits)
    moreover from this 2 obtain a d where "b = 0xC0 + a" "2 \<le> a" "a < 32" "b1 = 0x80 + d" "d < 64"
      by (auto simp: is_cont_def nat_le_iff_add)
    ultimately show ?thesis using bs by (auto simp: utf8_char_def scalar_def is_surrogate_def)
  next
    case 3
    with assms bs obtain b1 b2 where h: "bs' = b1 # b2 # r" "is_cont b1" "is_cont b2"
      "c = (b - 0xE0) * 4096 + (b1 - 0x80) * 64 + (b2 - 0x80)" "0x800 \<le> c" "\<not> is_surrogate c"
      by (auto simp: utf8_step.simps(2) Let_def split: list.splits if_splits)
    from h 3 obtain a d e where g: "b = 0xE0 + a" "a < 16" "b1 = 0x80 + d" "d < 64" "b2 = 0x80 + e" "e < 64"
      by (auto simp: is_cont_def nat_le_iff_add)
    from h g have "c div 4096 = a \<and> c div 64 mod 64 = d \<and> c mod 64 = e"
      by (intro digits64_3) auto
    with h g bs show ?thesis by (auto simp: utf8_char_def scalar_def)
  next
    case 4
    with assms bs obtain b1 b2 b3 where h: "bs' = b1 # b2 # b3 # r" "is_cont b1" "is_cont b2" "is_cont b3"
      "c = (b - 0xF0) * 262144 + (b1 - 0x80) * 4096 + (b2 - 0x80) * 64 + (b3 - 0x80)"
      "0x10000 \<le> c" "c < 0x110000"
      by (auto simp: utf8_step.simps(2) Let_def split: list.splits if_splits)
    from h 4 obtain a d e f where g: "b = 0xF0 + a" "a < 5" "b1 = 0x80 + d" "d < 64"
      "b2 = 0x80 + e" "e < 64" "b3 = 0x80 + f" "f < 64"
      by (auto simp: is_cont_def nat_le_iff_add)
    from h g have "c div 262144 = a \<and> c div 4096 mod 64 = d \<and> c div 64 mod 64 = e \<and> c mod 64 = f"
      by (intro digits64_4) auto
    with h g bs show ?thesis by (auto simp: utf8_char_def scalar_def is_surrogate_def)
  qed
qed

lemma utf8_decode_sound: "utf8_decode bs = Some s \<Longrightarrow> scalars s \<and> utf8_bytes s = bs"
proof (induction bs arbitrary: s rule: utf8_decode.induct)
  case (1 bs)
  show ?case
  proof (cases "bs = []")
    case True
    with "1.prems" show ?thesis by simp
  next
    case False
    with "1.prems" obtain c r t where cr: "utf8_step bs = Some (c, r)"
      and t: "utf8_decode r = Some t" and s: "s = c # t"
      by (subst (asm) utf8_decode.simps) (auto split: option.splits)
    from "1.IH" [OF False cr refl t] utf8_step_sound [OF cr] s show ?thesis by simp
  qed
qed

lemma utf8_decode_iff: "utf8_decode bs = Some s \<longleftrightarrow> scalars s \<and> bs = utf8_bytes s"
  using utf8_decode_sound utf8_decode_encode by blast

lemma utf8_bytes_inj: "scalars s \<Longrightarrow> scalars t \<Longrightarrow> utf8_bytes s = utf8_bytes t \<Longrightarrow> s = t"
  by (metis utf8_decode_encode option.inject)

lemma utf8_ascii: "list_all (\<lambda>c. c < 0x80) s \<Longrightarrow> utf8_bytes s = s"
  by (induction s) (auto simp: utf8_char_def)

lemma utf8_encode_Inr: "utf8_encode s = Inr bs \<Longrightarrow> bs = utf8_bytes s"
  by (auto simp: utf8_encode_def split: if_splits)

lemma utf8_encode_scalars: "scalars s \<Longrightarrow> utf8_encode s = Inr (utf8_bytes s)"
  by (auto simp: utf8_encode_def scalars_def scalar_def list_ex_iff list_all_iff)

subsection \<open>UTF-16 and the RFC 8785 member order\<close>

definition utf16_units :: "nat \<Rightarrow> nat list" where
  "utf16_units c =
     (if c < 0x10000 then [c] else [0xD800 + (c - 0x10000) div 1024, 0xDC00 + (c - 0x10000) mod 1024])"

definition be16 :: "nat \<Rightarrow> bytes" where
  "be16 u = [u div 256, u mod 256]"

definition utf16_be :: "ustr \<Rightarrow> bytes" where
  "utf16_be s = concat (map (\<lambda>c. concat (map be16 (utf16_units c))) s)"

text \<open>\<open>_utf16_sort_key\<close>: encoding a lone surrogate raises.\<close>

definition utf16_sort_key :: "ustr \<Rightarrow> bytes res" where
  "utf16_sort_key s = (if list_ex is_surrogate s then Inl UnicodeEncodeError else Inr (utf16_be s))"

text \<open>\<open>_all_bmp\<close>.\<close>

definition bmp :: "ustr \<Rightarrow> bool" where
  "bmp s \<longleftrightarrow> list_all (\<lambda>c. c \<le> 0xFFFF) s"

definition all_bmp :: "ustr list \<Rightarrow> bool" where
  "all_bmp ss \<longleftrightarrow> list_all bmp ss"

lemma bmp_simps [simp]: "bmp []" "bmp (c # s) \<longleftrightarrow> c \<le> 0xFFFF \<and> bmp s"
  by (auto simp: bmp_def)

lemma utf16_be_simps [simp]:
  "utf16_be [] = []" "utf16_be (c # s) = concat (map be16 (utf16_units c)) @ utf16_be s"
  by (auto simp: utf16_be_def)

text \<open>
  On strings inside the basic multilingual plane the byte order of the big-endian
  UTF-16 form is the code-point order.
\<close>

lemma be16_less: "a < b \<Longrightarrow> be16 a @ x < be16 b @ (y :: bytes)"
proof -
  assume "a < b"
  then have "a div 256 \<le> b div 256" by (simp add: div_le_mono)
  moreover have "a mod 256 < b mod 256" if "a div 256 = b div 256"
    using \<open>a < b\<close> that by (metis div_mult_mod_eq nat_add_left_cancel_less)
  ultimately show ?thesis by (auto simp: be16_def Cons_less_Cons order_le_less)
qed

lemma utf16_be_less_bmp:
  assumes "bmp s" "bmp t"
  shows "utf16_be s < utf16_be t \<longleftrightarrow> s < t"
  using assms
proof (induction s arbitrary: t)
  case Nil
  then show ?case by (cases t) (auto simp: utf16_units_def be16_def)
next
  case (Cons a s)
  show ?case
  proof (cases t)
    case Nil
    then show ?thesis using Cons.prems by (simp add: utf16_units_def be16_def)
  next
    case t: (Cons b t')
    have units: "utf16_be (a # s) = be16 a @ utf16_be s" "utf16_be t = be16 b @ utf16_be t'"
      using Cons.prems t by (simp_all add: utf16_units_def)
    consider "a < b" | "a = b" | "b < a" by linarith
    then show ?thesis
    proof cases
      case 1
      then show ?thesis using be16_less [of a b "utf16_be s" "utf16_be t'"] units t by simp
    next
      case 2
      then show ?thesis using units t Cons by (simp add: be16_def)
    next
      case 3
      then have "utf16_be t < utf16_be (a # s)"
        using be16_less [of b a "utf16_be t'" "utf16_be s"] units by simp
      then show ?thesis using 3 t by auto
    qed
  qed
qed

lemma utf16_be_inj_bmp:
  assumes "bmp s" "bmp t" "utf16_be s = utf16_be t"
  shows "s = t"
  using assms utf16_be_less_bmp [of s t] utf16_be_less_bmp [of t s]
  by (metis less_irrefl linorder_neqE)

text \<open>Off the plane the two orders differ: U+10000 sorts before U+E000 by code unit.\<close>

lemma utf16_order_differs: "utf16_be [0x10000] < utf16_be [0xE000] \<and> \<not> [0x10000] < [0xE000 :: nat]"
  by (simp add: utf16_units_def be16_def)

end
