(* ===== verification/Py_Codec.thy ===== *)
theory Py_Codec
  imports Py_Text
begin

section \<open>Hexadecimal, decimal and base64\<close>

text \<open>
  \<open>bytes.hex\<close>, \<open>str(int)\<close> and the strict base64 decoder the record payloads and
  signatures go through, each with its round trip.
\<close>

subsection \<open>Lowercase hexadecimal\<close>

definition hex_digit :: "nat \<Rightarrow> nat" where
  "hex_digit n = (if n < 10 then 0x30 + n else 0x61 + (n - 10))"

definition hex_of_bytes :: "bytes \<Rightarrow> ustr" where
  "hex_of_bytes bs = concat (map (\<lambda>b. [hex_digit (b div 16), hex_digit (b mod 16)]) bs)"

definition is_hex_lower :: "nat \<Rightarrow> bool" where
  "is_hex_lower c \<longleftrightarrow> (0x30 \<le> c \<and> c \<le> 0x39) \<or> (0x61 \<le> c \<and> c \<le> 0x66)"

text \<open>\<open>_hex4\<close>: the value of the four hex digits of an escape, in either case.\<close>

definition hex_val :: "nat \<Rightarrow> nat option" where
  "hex_val c =
     (if 0x30 \<le> c \<and> c \<le> 0x39 then Some (c - 0x30)
      else if 0x61 \<le> c \<and> c \<le> 0x66 then Some (c - 0x61 + 10)
      else if 0x41 \<le> c \<and> c \<le> 0x46 then Some (c - 0x41 + 10)
      else None)"

definition hex4 :: "nat list \<Rightarrow> nat option" where
  "hex4 b =
     (if length b < 4 then None
      else foldl (\<lambda>acc c. case acc of None \<Rightarrow> None
                          | Some v \<Rightarrow> map_option (\<lambda>d. v * 16 + d) (hex_val c)) (Some 0) (take 4 b))"

lemma hex_val_digit: "n < 16 \<Longrightarrow> hex_val (hex_digit n) = Some n"
  by (auto simp: hex_val_def hex_digit_def)

lemma hex_val_less: "hex_val c = Some v \<Longrightarrow> v < 16"
  by (auto simp: hex_val_def split: if_splits)

lemma hex4_Cons [simp]:
  "hex4 (a # b # c # d # r) =
     (case (hex_val a, hex_val b, hex_val c, hex_val d) of
        (Some p, Some q, Some s, Some t) \<Rightarrow> Some (((p * 16 + q) * 16 + s) * 16 + t)
      | _ \<Rightarrow> None)"
  by (auto simp: hex4_def numeral_eq_Suc split: option.splits)

lemma hex4_less: "hex4 b = Some v \<Longrightarrow> v < 0x10000 \<and> 4 \<le> length b"
proof -
  assume h: "hex4 b = Some v"
  then have "4 \<le> length b" by (auto simp: hex4_def split: if_splits)
  then obtain p q r s t where b: "b = p # q # r # s # t"
    by (auto simp: numeral_eq_Suc Suc_le_length_iff)
  show ?thesis using h unfolding b by (auto split: option.splits dest!: hex_val_less)
qed

text \<open>
  \<open>HEX64_RE.match\<close>: the pattern ends in \<open>$\<close>, which also matches before a newline
  that ends the string.
\<close>

definition hex64_match :: "ustr \<Rightarrow> bool" where
  "hex64_match s \<longleftrightarrow> list_all is_hex_lower (take 64 s) \<and> (length s = 64 \<or> (length s = 65 \<and> s ! 64 = 10))"

definition hex64 :: "ustr \<Rightarrow> bool" where
  "hex64 s \<longleftrightarrow> length s = 64 \<and> list_all is_hex_lower s"

lemma hex64_match_iff: "hex64_match s \<longleftrightarrow> hex64 s \<or> (\<exists>t. hex64 t \<and> s = t @ [10])"
proof
  assume m: "hex64_match s"
  show "hex64 s \<or> (\<exists>t. hex64 t \<and> s = t @ [10])"
  proof (cases "length s = 64")
    case True
    with m show ?thesis by (simp add: hex64_match_def hex64_def)
  next
    case False
    with m have l: "length s = 65" and n: "s ! 64 = 10" by (auto simp: hex64_match_def)
    then have "s = take 64 s @ [10]" using take_Suc_conv_app_nth [of 64 s] by simp
    moreover have "hex64 (take 64 s)" using m l by (simp add: hex64_match_def hex64_def)
    ultimately show ?thesis by blast
  qed
qed (auto simp: hex64_match_def hex64_def nth_append)

lemma is_hex_lower_digit: "n < 16 \<Longrightarrow> is_hex_lower (hex_digit n)"
  by (auto simp: is_hex_lower_def hex_digit_def)

lemma hex_digit_inj: "m < 16 \<Longrightarrow> n < 16 \<Longrightarrow> hex_digit m = hex_digit n \<Longrightarrow> m = n"
  by (auto simp: hex_digit_def split: if_splits)

lemma hex_of_bytes_simps [simp]:
  "hex_of_bytes [] = []"
  "hex_of_bytes (b # bs) = hex_digit (b div 16) # hex_digit (b mod 16) # hex_of_bytes bs"
  by (auto simp: hex_of_bytes_def)

lemma length_hex_of_bytes [simp]: "length (hex_of_bytes bs) = 2 * length bs"
  by (induction bs) auto

lemma hex_of_bytes_lower: "bytes_ok bs \<Longrightarrow> list_all is_hex_lower (hex_of_bytes bs)"
  by (induction bs) (auto intro: is_hex_lower_digit)

lemma hex_of_bytes_inj:
  "bytes_ok as \<Longrightarrow> bytes_ok bs \<Longrightarrow> hex_of_bytes as = hex_of_bytes bs \<Longrightarrow> as = bs"
proof (induction as arbitrary: bs)
  case Nil
  then show ?case by (cases bs) auto
next
  case (Cons a as)
  then obtain b bs' where bs: "bs = b # bs'" by (cases bs) auto
  with Cons.prems have "a div 16 = b div 16" "a mod 16 = b mod 16"
    by (auto intro!: hex_digit_inj)
  then have "a = b" by (metis div_mult_mod_eq)
  with Cons bs show ?case by auto
qed

lemma hex64_of_bytes: "bytes_ok bs \<Longrightarrow> length bs = 32 \<Longrightarrow> hex64 (hex_of_bytes bs)"
  by (simp add: hex64_def hex_of_bytes_lower)

lemma hex_ascii: "bytes_ok bs \<Longrightarrow> list_all (\<lambda>c. c < 0x80) (hex_of_bytes bs)"
  using hex_of_bytes_lower by (fastforce simp: list_all_iff is_hex_lower_def)

subsection \<open>Decimal\<close>

fun dec_digits :: "nat \<Rightarrow> ustr" where
  "dec_digits n = (if n < 10 then [0x30 + n] else dec_digits (n div 10) @ [0x30 + n mod 10])"

declare dec_digits.simps [simp del]

definition str_of_int :: "int \<Rightarrow> ustr" where
  "str_of_int i = (if i < 0 then 0x2D # dec_digits (nat (- i)) else dec_digits (nat i))"

definition is_digit :: "nat \<Rightarrow> bool" where
  "is_digit c \<longleftrightarrow> 0x30 \<le> c \<and> c \<le> 0x39"

definition dec_value :: "ustr \<Rightarrow> nat" where
  "dec_value s = foldl (\<lambda>v c. 10 * v + (c - 0x30)) 0 s"

lemma dec_digits_digits: "list_all is_digit (dec_digits n)"
proof (induction n rule: dec_digits.induct)
  case (1 n)
  then show ?case by (subst dec_digits.simps) (auto simp: list_all_iff is_digit_def)
qed

lemma dec_digits_neq_Nil [simp]: "dec_digits n \<noteq> []"
  by (subst dec_digits.simps) auto

lemma dec_value_append: "dec_value (s @ [c]) = 10 * dec_value s + (c - 0x30)"
  by (simp add: dec_value_def)

lemma dec_value_digits: "dec_value (dec_digits n) = n"
proof (induction n rule: dec_digits.induct)
  case (1 n)
  show ?case
  proof (cases "n < 10")
    case True
    then show ?thesis by (simp add: dec_digits.simps dec_value_def)
  next
    case False
    with 1 show ?thesis by (subst dec_digits.simps) (simp add: dec_value_append)
  qed
qed

text \<open>No leading zero, except the digit zero itself.\<close>

lemma dec_digits_hd: "n \<noteq> 0 \<Longrightarrow> hd (dec_digits n) \<noteq> 0x30"
proof (induction n rule: dec_digits.induct)
  case (1 n)
  show ?case
  proof (cases "n < 10")
    case True
    with "1.prems" show ?thesis by (subst dec_digits.simps) simp
  next
    case False
    with 1 have "hd (dec_digits (n div 10)) \<noteq> 0x30" by simp
    with False show ?thesis by (subst dec_digits.simps) simp
  qed
qed

lemma dec_digits_zero [simp]: "dec_digits 0 = [0x30]"
  by (subst dec_digits.simps) simp

lemma length_dec_digits: "n < 10 ^ k \<Longrightarrow> 0 < k \<Longrightarrow> length (dec_digits n) \<le> k"
proof (induction k arbitrary: n)
  case (Suc k)
  show ?case
  proof (cases "n < 10")
    case True
    then show ?thesis by (subst dec_digits.simps) simp
  next
    case False
    with Suc.prems have "n div 10 < 10 ^ k" "0 < k" by (auto intro: gr0I)
    with Suc.IH False show ?thesis by (subst dec_digits.simps) simp
  qed
qed simp

subsection \<open>Base64\<close>

text \<open>\<open>base64.b64encode\<close> and \<open>base64.b64decode(s, validate=True)\<close> over the standard alphabet.\<close>

definition b64_char :: "nat \<Rightarrow> nat" where
  "b64_char n =
     (if n < 26 then 0x41 + n
      else if n < 52 then 0x61 + (n - 26)
      else if n < 62 then 0x30 + (n - 52)
      else if n = 62 then 0x2B else 0x2F)"

definition b64_val :: "nat \<Rightarrow> nat option" where
  "b64_val c =
     (if 0x41 \<le> c \<and> c \<le> 0x5A then Some (c - 0x41)
      else if 0x61 \<le> c \<and> c \<le> 0x7A then Some (c - 0x61 + 26)
      else if 0x30 \<le> c \<and> c \<le> 0x39 then Some (c - 0x30 + 52)
      else if c = 0x2B then Some 62
      else if c = 0x2F then Some 63
      else None)"

fun b64_encode :: "bytes \<Rightarrow> ustr" where
  "b64_encode [] = []"
| "b64_encode [a] = [b64_char (a div 4), b64_char (a mod 4 * 16), 0x3D, 0x3D]"
| "b64_encode [a, b] =
     [b64_char (a div 4), b64_char (a mod 4 * 16 + b div 16), b64_char (b mod 16 * 4), 0x3D]"
| "b64_encode (a # b # c # r) =
     [b64_char (a div 4), b64_char (a mod 4 * 16 + b div 16),
      b64_char (b mod 16 * 4 + c div 64), b64_char (c mod 64)] @ b64_encode r"

text \<open>
  One quantum of the decoder.  Padding is taken in the last quantum only, and the bits
  a padded quantum leaves over are dropped without a check.
\<close>

definition b64_quantum :: "nat \<Rightarrow> nat \<Rightarrow> nat \<Rightarrow> nat \<Rightarrow> bool \<Rightarrow> bytes option" where
  "b64_quantum c1 c2 c3 c4 final =
     (case (b64_val c1, b64_val c2) of
        (Some v1, Some v2) \<Rightarrow>
          if final \<and> c3 = 0x3D \<and> c4 = 0x3D then Some [v1 * 4 + v2 div 16]
          else (case b64_val c3 of
            None \<Rightarrow> None
          | Some v3 \<Rightarrow>
              if final \<and> c4 = 0x3D then Some [v1 * 4 + v2 div 16, v2 mod 16 * 16 + v3 div 4]
              else (case b64_val c4 of
                None \<Rightarrow> None
              | Some v4 \<Rightarrow> Some [v1 * 4 + v2 div 16, v2 mod 16 * 16 + v3 div 4, v3 mod 4 * 64 + v4]))
      | _ \<Rightarrow> None)"

fun b64_decode :: "ustr \<Rightarrow> bytes option" where
  "b64_decode [] = Some []"
| "b64_decode (c1 # c2 # c3 # c4 # r) =
     (case b64_quantum c1 c2 c3 c4 (r = []) of
        None \<Rightarrow> None
      | Some q \<Rightarrow> map_option ((@) q) (b64_decode r))"
| "b64_decode _ = None"

text \<open>
  \<open>strict_b64decode\<close>: decode, then require the re-encoding to be the input.  Every
  rejection is a \<open>ValueError\<close>, of which \<open>binascii.Error\<close> is a subclass.
\<close>

definition strict_b64decode :: "ustr \<Rightarrow> bytes res" where
  "strict_b64decode s =
     (case b64_decode s of
        None \<Rightarrow> Inl ValueError
      | Some raw \<Rightarrow> if b64_encode raw \<noteq> s then Inl ValueError else Inr raw)"

lemma b64_val_char [simp]: "n < 64 \<Longrightarrow> b64_val (b64_char n) = Some n"
  by (auto simp: b64_val_def b64_char_def)

lemma b64_char_not_pad: "n < 64 \<Longrightarrow> b64_char n \<noteq> 0x3D"
  by (auto simp: b64_char_def)

lemma b64_val_less: "b64_val c = Some v \<Longrightarrow> v < 64"
  by (auto simp: b64_val_def split: if_splits)

lemma b64_split_2: "a < 256 \<Longrightarrow> b < 256 \<Longrightarrow> a mod 4 * 16 + b div 16 < 64"
  for a b :: nat by linarith

lemma b64_split_3: "b < 256 \<Longrightarrow> c < 256 \<Longrightarrow> b mod 16 * 4 + c div 64 < 64"
  for b c :: nat by linarith

lemma b64_join_1: "b < 256 \<Longrightarrow> (a :: nat) div 4 * 4 + (a mod 4 * 16 + b div 16) div 16 = a"
  by simp

lemma b64_join_2: "b < 256 \<Longrightarrow> c < 256 \<Longrightarrow>
  (a mod 4 * 16 + b div 16) mod 16 * 16 + (b mod 16 * 4 + c div 64) div 4 = (b :: nat)"
  for a c :: nat by simp

lemma b64_join_3: "c < 256 \<Longrightarrow> (b mod 16 * 4 + c div 64) mod 4 * 64 + c mod 64 = (c :: nat)"
  for b :: nat by simp

lemma b64_decode_encode: "bytes_ok bs \<Longrightarrow> b64_decode (b64_encode bs) = Some bs"
proof (induction bs rule: b64_encode.induct)
  case (2 a)
  then show ?case by (simp add: b64_quantum_def)
next
  case (3 a b)
  then have "a < 256" "b < 256" by auto
  moreover from this have "a div 4 < 64" "b mod 16 * 4 < 64" by auto
  ultimately have "b64_quantum (b64_char (a div 4)) (b64_char (a mod 4 * 16 + b div 16))
      (b64_char (b mod 16 * 4)) 0x3D True = Some [a, b]"
    using b64_split_2 [of a b] b64_join_1 [of b a] b64_join_2 [of b 0 a] b64_char_not_pad [of "b mod 16 * 4"]
    by (simp add: b64_quantum_def)
  then show ?case by simp
next
  case (4 a b c r)
  then have "a < 256" "b < 256" "c < 256" by auto
  moreover from this have "a div 4 < 64" "c mod 64 < 64" by auto
  ultimately have "b64_quantum (b64_char (a div 4)) (b64_char (a mod 4 * 16 + b div 16))
      (b64_char (b mod 16 * 4 + c div 64)) (b64_char (c mod 64)) f = Some [a, b, c]" for f
    using b64_split_2 [of a b] b64_split_3 [of b c] b64_join_1 [of b a] b64_join_2 [of b c a]
      b64_join_3 [of c b] b64_char_not_pad [of "c mod 64"]
      b64_char_not_pad [of "b mod 16 * 4 + c div 64"]
    by (simp add: b64_quantum_def)
  with 4 show ?case by simp
qed simp

lemma b64_quantum_bytes_ok: "b64_quantum c1 c2 c3 c4 f = Some q \<Longrightarrow> bytes_ok q"
  by (auto simp: b64_quantum_def split: option.splits if_splits dest!: b64_val_less)

lemma b64_decode_bytes_ok: "b64_decode s = Some bs \<Longrightarrow> bytes_ok bs"
  by (induction s arbitrary: bs rule: b64_decode.induct)
    (auto split: option.splits dest: b64_quantum_bytes_ok)

text \<open>The strict decoder accepts exactly the canonical encodings.\<close>

lemma strict_b64decode_iff:
  "strict_b64decode s = Inr bs \<longleftrightarrow> bytes_ok bs \<and> s = b64_encode bs"
  using b64_decode_encode b64_decode_bytes_ok
  by (auto simp: strict_b64decode_def split: option.splits if_splits)

end
