(* ===== verification/Json_Text.thy ===== *)
theory Json_Text
  imports Py_Codec
begin

section \<open>\<open>json.loads\<close>\<close>

text \<open>
  The decoder of the Python standard library, as far as the code relies on it: RFC 8259
  syntax over a text string, the three non-finite constants, surrogate pairs joined and
  lone surrogates kept, control characters refused inside strings, the 4300-digit limit
  on integers, and the two hooks \<open>parse_float\<close> and \<open>object_pairs_hook\<close>, which run as
  soon as their literal or object has been read.  A syntax error is a \<open>ValueError\<close>.
  The recursion runs on fuel; \<open>json_loads\<close> gives it twice the length of the text and
  one more, and \<open>parse_fuel\<close> shows that a larger supply never changes the answer.
\<close>

definition is_ws :: "nat \<Rightarrow> bool" where
  "is_ws c \<longleftrightarrow> c = 0x20 \<or> c = 0x09 \<or> c = 0x0A \<or> c = 0x0D"

definition skip_ws :: "ustr \<Rightarrow> ustr" where
  "skip_ws s = dropWhile is_ws s"

lemma length_skip_ws: "length (skip_ws s) \<le> length s"
  by (simp add: skip_ws_def length_dropWhile_le)

lemma skip_ws_Cons [simp]: "\<not> is_ws c \<Longrightarrow> skip_ws (c # s) = c # s"
  by (simp add: skip_ws_def)

lemma skip_ws_Nil [simp]: "skip_ws [] = []"
  by (simp add: skip_ws_def)

subsection \<open>String bodies\<close>

definition simple_escape :: "nat \<Rightarrow> nat option" where
  "simple_escape e =
     (if e = 0x22 \<or> e = 0x5C \<or> e = 0x2F then Some e
      else if e = 0x62 then Some 0x08
      else if e = 0x66 then Some 0x0C
      else if e = 0x6E then Some 0x0A
      else if e = 0x72 then Some 0x0D
      else if e = 0x74 then Some 0x09
      else None)"

definition is_high :: "nat \<Rightarrow> bool" where
  "is_high u \<longleftrightarrow> 0xD800 \<le> u \<and> u < 0xDC00"

definition is_low :: "nat \<Rightarrow> bool" where
  "is_low u \<longleftrightarrow> 0xDC00 \<le> u \<and> u < 0xE000"

text \<open>The low half that completes a high one, when an escape for it follows.\<close>

definition low_half :: "ustr \<Rightarrow> nat option" where
  "low_half s =
     (if take 2 s = [0x5C, 0x75] then
        (case hex4 (drop 2 s) of Some lo \<Rightarrow> (if is_low lo then Some lo else None) | None \<Rightarrow> None)
      else None)"

text \<open>The code point an escape denotes and what follows it; the backslash is consumed.\<close>

definition read_escape :: "ustr \<Rightarrow> (nat \<times> ustr) option" where
  "read_escape s =
     (case s of
        [] \<Rightarrow> None
      | e # s1 \<Rightarrow>
          if e \<noteq> 0x75 then map_option (\<lambda>c. (c, s1)) (simple_escape e)
          else (case hex4 s1 of
            None \<Rightarrow> None
          | Some u \<Rightarrow>
              (case (if is_high u then low_half (drop 4 s1) else None) of
                 Some lo \<Rightarrow> Some (0x10000 + (u - 0xD800) * 1024 + (lo - 0xDC00), drop 10 s1)
               | None \<Rightarrow> Some (u, drop 4 s1))))"

lemma read_escape_shorter: "read_escape s = Some (c, r) \<Longrightarrow> length r < length s"
  by (auto simp: read_escape_def split: list.splits if_splits option.splits)

text \<open>The body of a string literal after its opening quote.\<close>

function read_string :: "ustr \<Rightarrow> (ustr \<times> ustr) option" where
  "read_string [] = None"
| "read_string (c # s) =
     (if c = 0x22 then Some ([], s)
      else if c = 0x5C then
        (case read_escape s of
           None \<Rightarrow> None
         | Some (u, r) \<Rightarrow> map_option (\<lambda>(t, r'). (u # t, r')) (read_string r))
      else if c < 0x20 then None
      else map_option (\<lambda>(t, r'). (c # t, r')) (read_string s))"
  by pat_completeness auto
termination
  by (relation "measure length") (auto dest: read_escape_shorter)

lemma read_string_shorter: "read_string s = Some (t, r) \<Longrightarrow> length r < length s"
proof (induction s arbitrary: t r rule: read_string.induct)
  case (2 c s)
  then show ?case
    by (force split: if_splits option.splits dest: read_escape_shorter)
qed simp

subsection \<open>Numbers\<close>

text \<open>The optional fraction and exponent; an incomplete one is left unread.\<close>

definition read_frac :: "ustr \<Rightarrow> ustr \<times> ustr" where
  "read_frac s =
     (case s of
        p # d # r \<Rightarrow> if p = 0x2E \<and> is_digit d
                    then (p # d # takeWhile is_digit r, dropWhile is_digit r) else ([], s)
      | _ \<Rightarrow> ([], s))"

definition read_exp :: "ustr \<Rightarrow> ustr \<times> ustr" where
  "read_exp s =
     (case s of
        e # r \<Rightarrow>
          if e = 0x65 \<or> e = 0x45 then
            (case r of
               sg # d # r' \<Rightarrow>
                 if (sg = 0x2B \<or> sg = 0x2D) \<and> is_digit d
                 then (e # sg # d # takeWhile is_digit r', dropWhile is_digit r')
                 else if is_digit sg then (e # takeWhile is_digit r, dropWhile is_digit r)
                 else ([], s)
             | [d] \<Rightarrow> if is_digit d then ([e, d], []) else ([], s)
             | [] \<Rightarrow> ([], s))
          else ([], s)
      | [] \<Rightarrow> ([], s))"

definition read_int :: "ustr \<Rightarrow> (ustr \<times> ustr) option" where
  "read_int s =
     (case s of
        [] \<Rightarrow> None
      | c # r \<Rightarrow>
          if c = 0x30 then Some ([c], r)
          else if is_digit c then Some (c # takeWhile is_digit r, dropWhile is_digit r)
          else None)"

definition max_int_digits :: nat where
  "max_int_digits = 4300"

text \<open>\<open>int(literal)\<close> under the interpreter's digit limit.\<close>

definition int_literal :: "bool \<Rightarrow> ustr \<Rightarrow> json res" where
  "int_literal neg ds =
     (if max_int_digits < length ds then Inl IntegerTooLong
      else Inr (JInt (if neg then - int (dec_value ds) else int (dec_value ds))))"

definition read_number :: "(ustr \<Rightarrow> json res) \<Rightarrow> ustr \<Rightarrow> (json \<times> ustr) res" where
  "read_number pf s =
     (let neg = (case s of c # _ \<Rightarrow> c = 0x2D | [] \<Rightarrow> False);
          sg = (if neg then [0x2D] else []) in
      case read_int (drop (length sg) s) of
        None \<Rightarrow> Inl ValueError
      | Some (ds, r) \<Rightarrow>
          (case read_frac r of (fr, r1) \<Rightarrow>
          (case read_exp r1 of (ex, r2) \<Rightarrow>
             if fr = [] \<and> ex = []
             then rbind (int_literal neg ds) (\<lambda>v. Inr (v, r2))
             else rbind (pf (sg @ ds @ fr @ ex)) (\<lambda>v. Inr (v, r2)))))"

lemma read_frac_le: "read_frac s = (f, r) \<Longrightarrow> length r \<le> length s"
  by (auto simp: read_frac_def length_dropWhile_le le_SucI split: list.splits if_splits)

lemma read_exp_le: "read_exp s = (f, r) \<Longrightarrow> length r \<le> length s"
proof -
  have "length (dropWhile is_digit t) \<le> Suc (Suc (Suc (length t)))" for t
    using length_dropWhile_le [of is_digit t] by simp
  moreover assume "read_exp s = (f, r)"
  ultimately show ?thesis
    by (auto simp: read_exp_def length_dropWhile_le le_SucI split: list.splits if_splits)
qed

lemma read_int_less: "read_int s = Some (f, r) \<Longrightarrow> length r < length s"
  by (auto simp: read_int_def length_dropWhile_le less_Suc_eq_le split: list.splits if_splits)

lemma read_number_less: "read_number pf s = Inr (v, r) \<Longrightarrow> length r < length s"
  by (auto simp: read_number_def Let_def rbind_eq_Inr split: option.splits prod.splits if_splits
      dest!: read_frac_le read_exp_le read_int_less)

subsection \<open>Values\<close>

text \<open>A keyword at the start of the text.\<close>

definition after :: "string \<Rightarrow> ustr \<Rightarrow> ustr option" where
  "after w s = (if starts_with (lit w) s then Some (drop (length w) s) else None)"

definition read_scalar :: "(ustr \<Rightarrow> json res) \<Rightarrow> ustr \<Rightarrow> (json \<times> ustr) res" where
  "read_scalar pf s =
     (case after ''null'' s of Some r \<Rightarrow> Inr (JNull, r) | None \<Rightarrow>
     (case after ''true'' s of Some r \<Rightarrow> Inr (JBool True, r) | None \<Rightarrow>
     (case after ''false'' s of Some r \<Rightarrow> Inr (JBool False, r) | None \<Rightarrow>
     (case after ''NaN'' s of Some r \<Rightarrow> Inr (JFloat NaN, r) | None \<Rightarrow>
     (case after ''Infinity'' s of Some r \<Rightarrow> Inr (JFloat PosInf, r) | None \<Rightarrow>
     (case after ''-Infinity'' s of Some r \<Rightarrow> Inr (JFloat NegInf, r) | None \<Rightarrow>
      read_number pf s))))))"

fun parse_value :: "(ustr \<Rightarrow> json res) \<Rightarrow> (dict \<Rightarrow> dict res) \<Rightarrow> nat \<Rightarrow> ustr \<Rightarrow> (json \<times> ustr) res"
  and parse_items :: "(ustr \<Rightarrow> json res) \<Rightarrow> (dict \<Rightarrow> dict res) \<Rightarrow> nat \<Rightarrow> ustr \<Rightarrow> (json list \<times> ustr) res"
  and parse_members :: "(ustr \<Rightarrow> json res) \<Rightarrow> (dict \<Rightarrow> dict res) \<Rightarrow> nat \<Rightarrow> ustr \<Rightarrow> (dict \<times> ustr) res"
where
  "parse_value pf ph 0 s = Inl ValueError"
| "parse_value pf ph (Suc n) s =
     (case s of
        [] \<Rightarrow> Inl ValueError
      | c # r \<Rightarrow>
          if c = 0x22 then
            (case read_string r of None \<Rightarrow> Inl ValueError | Some (t, r') \<Rightarrow> Inr (JStr t, r'))
          else if c = 0x5B then
            (case skip_ws r of
               c' # r' \<Rightarrow>
                 if c' = 0x5D then Inr (JArr [], r')
                 else rbind (parse_items pf ph n (skip_ws r)) (\<lambda>(xs, r''). Inr (JArr xs, r''))
             | [] \<Rightarrow> Inl ValueError)
          else if c = 0x7B then
            (case skip_ws r of
               c' # r' \<Rightarrow>
                 if c' = 0x7D then rbind (ph []) (\<lambda>d. Inr (JObj d, r'))
                 else rbind (parse_members pf ph n (skip_ws r))
                        (\<lambda>(ps, r''). rbind (ph ps) (\<lambda>d. Inr (JObj d, r'')))
             | [] \<Rightarrow> Inl ValueError)
          else read_scalar pf s)"
| "parse_items pf ph 0 s = Inl ValueError"
| "parse_items pf ph (Suc n) s =
     rbind (parse_value pf ph n s) (\<lambda>(v, r).
       (case skip_ws r of
          c # r' \<Rightarrow>
            if c = 0x5D then Inr ([v], r')
            else if c = 0x2C then
              rbind (parse_items pf ph n (skip_ws r')) (\<lambda>(vs, r''). Inr (v # vs, r''))
            else Inl ValueError
        | [] \<Rightarrow> Inl ValueError))"
| "parse_members pf ph 0 s = Inl ValueError"
| "parse_members pf ph (Suc n) s =
     (case s of
        [] \<Rightarrow> Inl ValueError
      | q # s' \<Rightarrow>
          if q \<noteq> 0x22 then Inl ValueError
          else (case read_string s' of
            None \<Rightarrow> Inl ValueError
          | Some (k, r) \<Rightarrow>
              (case skip_ws r of
                 c # r1 \<Rightarrow>
                   if c \<noteq> 0x3A then Inl ValueError
                   else rbind (parse_value pf ph n (skip_ws r1)) (\<lambda>(v, r2).
                     (case skip_ws r2 of
                        c' # r3 \<Rightarrow>
                          if c' = 0x7D then Inr ([(k, v)], r3)
                          else if c' = 0x2C then
                            rbind (parse_members pf ph n (skip_ws r3)) (\<lambda>(ms, r'').
                              Inr ((k, v) # ms, r''))
                          else Inl ValueError
                      | [] \<Rightarrow> Inl ValueError))
               | [] \<Rightarrow> Inl ValueError)))"

definition json_loads :: "(ustr \<Rightarrow> json res) \<Rightarrow> (dict \<Rightarrow> dict res) \<Rightarrow> ustr \<Rightarrow> json res" where
  "json_loads pf ph s =
     (if starts_with [0xFEFF] s then Inl ValueError
      else rbind (parse_value pf ph (2 * length s + 1) (skip_ws s)) (\<lambda>(v, r).
        if skip_ws r = [] then Inr v else Inl ValueError))"

subsection \<open>Enough fuel\<close>

lemma skip_ws_less: "skip_ws s = c # r \<Longrightarrow> length r < length s"
  using length_skip_ws [of s] by simp

lemma after_less: "after w s = Some r \<Longrightarrow> w \<noteq> [] \<Longrightarrow> length r < length s"
  by (cases s) (auto simp: after_def starts_with_def split: if_splits)

lemma read_scalar_less: "read_scalar pf s = Inr (v, r) \<Longrightarrow> length r < length s"
  by (auto simp: read_scalar_def split: option.splits dest: after_less read_number_less)

lemma parse_items_InrE:
  assumes "parse_items pf ph (Suc n) s = Inr (vs, r)"
  obtains v0 r0 c r1 where "parse_value pf ph n s = Inr (v0, r0)" "skip_ws r0 = c # r1"
    "c = 0x5D \<and> vs = [v0] \<and> r = r1 \<or>
     c = 0x2C \<and> (\<exists>us. parse_items pf ph n (skip_ws r1) = Inr (us, r) \<and> vs = v0 # us)"
proof -
  from assms obtain v0 r0 where pv: "parse_value pf ph n s = Inr (v0, r0)" by (auto simp: rbind_eq_Inr)
  with assms obtain c r1 where ws: "skip_ws r0 = c # r1" by (auto split: list.splits)
  from assms pv ws show ?thesis
    by (intro that [OF pv ws]) (auto simp: rbind_eq_Inr split: if_splits)
qed

lemma parse_members_InrE:
  assumes "parse_members pf ph (Suc n) s = Inr (ms, r)"
  obtains s' k r0 r1 v0 r2 c r3 where "s = 0x22 # s'" "read_string s' = Some (k, r0)"
    "skip_ws r0 = 0x3A # r1" "parse_value pf ph n (skip_ws r1) = Inr (v0, r2)" "skip_ws r2 = c # r3"
    "c = 0x7D \<and> ms = [(k, v0)] \<and> r = r3 \<or>
     c = 0x2C \<and> (\<exists>us. parse_members pf ph n (skip_ws r3) = Inr (us, r) \<and> ms = (k, v0) # us)"
proof -
  from assms obtain s' k r0 where s: "s = 0x22 # s'" and k: "read_string s' = Some (k, r0)"
    by (auto split: list.splits if_splits option.splits)
  with assms obtain r1 where ws: "skip_ws r0 = 0x3A # r1" by (auto split: list.splits if_splits)
  with assms s k obtain v0 r2 where pv: "parse_value pf ph n (skip_ws r1) = Inr (v0, r2)"
    by (auto simp: rbind_eq_Inr)
  with assms s k ws obtain c r3 where ws': "skip_ws r2 = c # r3" by (auto split: list.splits)
  from assms s k ws pv ws' show ?thesis
    by (intro that [OF s k ws pv ws']) (auto simp: rbind_eq_Inr split: if_splits)
qed

lemma parse_shorter:
  "parse_value pf ph n s = Inr (v, r) \<Longrightarrow> length r < length s"
  "parse_items pf ph n s = Inr (vs, r) \<Longrightarrow> length r < length s"
  "parse_members pf ph n s = Inr (ms, r) \<Longrightarrow> length r < length s"
proof (induction n arbitrary: s v r vs ms)
  case (Suc n)
  {
    case 1
    then show ?case
      by (fastforce simp: rbind_eq_Inr split: list.splits if_splits option.splits
          dest: Suc.IH(2,3) read_string_shorter skip_ws_less read_scalar_less)
  next
    case 2
    from this obtain v0 r0 c r1 where pv: "parse_value pf ph n s = Inr (v0, r0)" "skip_ws r0 = c # r1"
      "r = r1 \<or> (\<exists>us. parse_items pf ph n (skip_ws r1) = Inr (us, r))"
      by (rule parse_items_InrE) blast
    then show ?case
      using Suc.IH(1) [OF pv(1)] skip_ws_less [OF pv(2)] length_skip_ws [of r1] by (fastforce dest: Suc.IH(2))
  next
    case 3
    from this obtain s' k r0 r1 v0 r2 c r3 where pm: "s = 0x22 # s'" "read_string s' = Some (k, r0)"
      "skip_ws r0 = 0x3A # r1" "parse_value pf ph n (skip_ws r1) = Inr (v0, r2)" "skip_ws r2 = c # r3"
      "r = r3 \<or> (\<exists>us. parse_members pf ph n (skip_ws r3) = Inr (us, r))"
      by (rule parse_members_InrE) blast
    then have "length r3 < length s"
      using read_string_shorter [OF pm(2)] skip_ws_less [OF pm(3)] length_skip_ws [of r1]
        Suc.IH(1) [OF pm(4)] skip_ws_less [OF pm(5)] by simp
    then show ?case using pm(6) length_skip_ws [of r3] by (fastforce dest: Suc.IH(3))
  }
qed simp_all

declare parse_value.simps(2) [simp del] parse_items.simps(2) [simp del] parse_members.simps(2) [simp del]

lemma parse_fuel_mono:
  "2 * length s < n \<Longrightarrow> parse_value pf ph (Suc n) s = parse_value pf ph n s"
  "2 * length s + 1 < n \<Longrightarrow> parse_items pf ph (Suc n) s = parse_items pf ph n s"
  "2 * length s + 1 < n \<Longrightarrow> parse_members pf ph (Suc n) s = parse_members pf ph n s"
proof (induction n arbitrary: s)
  case (Suc n)
  {
    case 1
    have "parse_items pf ph (Suc n) (skip_ws r) = parse_items pf ph n (skip_ws r)"
      "parse_members pf ph (Suc n) (skip_ws r) = parse_members pf ph n (skip_ws r)" if "s = c # r" for c r
      using 1 that length_skip_ws [of r] by (auto intro!: Suc.IH(2,3))
    then show ?case by (subst (1 2) parse_value.simps(2)) (auto split: list.split)
  next
    case 2
    then have v: "parse_value pf ph (Suc n) s = parse_value pf ph n s" by (intro Suc.IH(1)) simp
    have i: "parse_items pf ph (Suc n) (skip_ws r1) = parse_items pf ph n (skip_ws r1)"
      if "parse_value pf ph n s = Inr (v0, r0)" "skip_ws r0 = c # r1" for v0 r0 c r1
      using 2 parse_shorter(1) [OF that(1)] skip_ws_less [OF that(2)] length_skip_ws [of r1]
      by (intro Suc.IH(2)) simp
    show ?case
      by (subst (1 2) parse_items.simps(2), unfold v) (auto split: list.split simp: i intro!: rbind_cong)
  next
    case 3
    have v: "parse_value pf ph (Suc n) (skip_ws r1) = parse_value pf ph n (skip_ws r1)"
      if "s = q # s'" "read_string s' = Some (k, r0)" "skip_ws r0 = c # r1" for q s' k r0 c r1
      using 3 that(1) read_string_shorter [OF that(2)] skip_ws_less [OF that(3)] length_skip_ws [of r1]
      by (intro Suc.IH(1)) simp
    have m: "parse_members pf ph (Suc n) (skip_ws r3) = parse_members pf ph n (skip_ws r3)"
      if "s = q # s'" "read_string s' = Some (k, r0)" "skip_ws r0 = c # r1"
        "parse_value pf ph n (skip_ws r1) = Inr (v0, r2)" "skip_ws r2 = c' # r3" for q s' k r0 c r1 v0 r2 c' r3
      using 3 that(1) read_string_shorter [OF that(2)] skip_ws_less [OF that(3)] length_skip_ws [of r1]
        parse_shorter(1) [OF that(4)] skip_ws_less [OF that(5)] length_skip_ws [of r3]
      by (intro Suc.IH(3)) simp
    show ?case
      by (subst (1 2) parse_members.simps(2)) (auto split: list.split option.split simp: v m intro!: rbind_cong)
  }
qed simp_all

lemma parse_fuel:
  assumes "2 * length s < n" "n \<le> m"
  shows "parse_value pf ph m s = parse_value pf ph n s"
  using assms(2,1) by (induction rule: dec_induct) (simp_all add: parse_fuel_mono(1))

end
