(* ===== verification/Jcs.thy ===== *)
theory Jcs
  imports Json_Text
begin

section \<open>RFC 8785 canonical JSON\<close>

text \<open>
  \<open>_jcs_string\<close>, \<open>_jcs_float\<close>, \<open>jcs_dumps\<close>, \<open>_member_names_bmp\<close> and \<open>sha256_hex\<close> of
  \<open>packaging/run_vectors.py\<close>.  The serializer is total on what \<open>json.loads\<close> can
  return; its failures are the \<open>JcsError\<close> of a number outside the integer profile and
  the \<open>UnicodeEncodeError\<close> of a lone surrogate.  The theorems relate the
  serializer to the decoder of \<open>Json_Text\<close>: canonical text decodes to the value it was
  made from, with the members of every object in canonical order.
\<close>

definition safe_int_limit :: int where
  "safe_int_limit = 2 ^ 53"

text \<open>\<open>_JCS_CTRL.get(o, ...)\<close> and the branches of the loop over the characters.\<close>

definition jcs_ctrl :: "nat \<Rightarrow> ustr" where
  "jcs_ctrl c =
     (if c = 0x08 then [0x5C, 0x62]
      else if c = 0x09 then [0x5C, 0x74]
      else if c = 0x0A then [0x5C, 0x6E]
      else if c = 0x0C then [0x5C, 0x66]
      else if c = 0x0D then [0x5C, 0x72]
      else [0x5C, 0x75, 0x30, 0x30, hex_digit (c div 16), hex_digit (c mod 16)])"

definition jcs_char :: "nat \<Rightarrow> ustr" where
  "jcs_char c =
     (if c = 0x22 then [0x5C, 0x22]
      else if c = 0x5C then [0x5C, 0x5C]
      else if c < 0x20 then jcs_ctrl c
      else [c])"

definition jcs_string :: "ustr \<Rightarrow> ustr" where
  "jcs_string s = 0x22 # concat (map jcs_char s) @ [0x22]"

fun jcs_float :: "pyfloat \<Rightarrow> ustr res" where
  "jcs_float (Finite q) =
     (if snd (quotient_of q) \<noteq> 1 then Inl JcsError
      else if \<bar>fst (quotient_of q)\<bar> \<ge> safe_int_limit then Inl JcsError
      else Inr (str_of_int (fst (quotient_of q))))"
| "jcs_float _ = Inl JcsError"

fun comma_join :: "ustr list \<Rightarrow> ustr" where
  "comma_join [] = []"
| "comma_join [t] = t"
| "comma_join (t # u # ts) = t @ 0x2C # comma_join (u # ts)"

text \<open>\<open>sorted(v.keys(), key=_utf16_sort_key)\<close>, on the items.\<close>

definition sort_members :: "(ustr \<times> 'a) list \<Rightarrow> (ustr \<times> 'a) list" where
  "sort_members d = sort_key (\<lambda>m. utf16_be (fst m)) d"

lemma set_sort_members [simp]: "set (sort_members d) = set d"
  by (simp add: sort_members_def)

lemma sort_members_cong [fundef_cong]: "d = e \<Longrightarrow> sort_members d = sort_members e"
  by simp

fun jcs_ser :: "json \<Rightarrow> ustr res" where
  "jcs_ser JNull = Inr (lit ''null'')"
| "jcs_ser (JBool b) = Inr (if b then lit ''true'' else lit ''false'')"
| "jcs_ser (JInt i) = Inr (str_of_int i)"
| "jcs_ser (JFloat f) = jcs_float f"
| "jcs_ser (JStr s) = Inr (jcs_string s)"
| "jcs_ser (JArr xs) = rbind (rmap jcs_ser xs) (\<lambda>ts. Inr (0x5B # comma_join ts @ [0x5D]))"
| "jcs_ser (JObj d) =
     (if list_ex (\<lambda>m. list_ex is_surrogate (fst m)) d then Inl UnicodeEncodeError
      else rbind (rmap (\<lambda>m. rbind (jcs_ser (snd m)) (\<lambda>t. Inr (jcs_string (fst m) @ 0x3A # t)))
                    (sort_members d))
             (\<lambda>ts. Inr (0x7B # comma_join ts @ [0x7D])))"

definition jcs_dumps :: "json \<Rightarrow> bytes res" where
  "jcs_dumps v = rbind (jcs_ser v) utf8_encode"

text \<open>\<open>_member_names_bmp\<close>.\<close>

fun member_names_bmp :: "json \<Rightarrow> bool" where
  "member_names_bmp (JObj d) = list_all (\<lambda>m. all_bmp [fst m] \<and> member_names_bmp (snd m)) d"
| "member_names_bmp (JArr xs) = list_all member_names_bmp xs"
| "member_names_bmp _ = True"

text \<open>\<open>sha256_hex\<close>, over the hash the caller runs with.\<close>

definition sha256_hex :: "(bytes \<Rightarrow> bytes) \<Rightarrow> bytes \<Rightarrow> ustr" where
  "sha256_hex H data = hex_of_bytes (H data)"

subsection \<open>Canonical member order\<close>

fun canon :: "json \<Rightarrow> json" where
  "canon (JArr xs) = JArr (map canon xs)"
| "canon (JObj d) = JObj (sort_members (map (\<lambda>m. (fst m, canon (snd m))) d))"
| "canon v = v"

text \<open>
  The values whose canonical text decodes back: integers only, members distinct and
  inside the basic plane, integers short enough for the decoder's digit limit.
\<close>

fun jcs_value :: "json \<Rightarrow> bool" where
  "jcs_value (JFloat f) = False"
| "jcs_value (JInt i) = (\<bar>i\<bar> < safe_int_limit)"
| "jcs_value (JArr xs) = list_all jcs_value xs"
| "jcs_value (JObj d) =
     (distinct (map fst d) \<and> list_all (\<lambda>m. scalars (fst m) \<and> bmp (fst m) \<and> jcs_value (snd m)) d)"
| "jcs_value v = True"

lemma insort_key_map_pair:
  "insort_key f (g x) (map g xs) = map g (insort_key (\<lambda>y. f (g y)) x xs)"
  by (induction xs) auto

lemma sort_key_map_pair: "sort_key f (map g xs) = map g (sort_key (\<lambda>y. f (g y)) xs)"
  by (induction xs) (simp_all add: insort_key_map_pair)

lemma sort_members_map:
  "sort_members (map (\<lambda>m. (fst m, f (snd m))) d) = map (\<lambda>m. (fst m, f (snd m))) (sort_members d)"
  by (simp add: sort_members_def sort_key_map_pair)

lemma map_fst_sort_members: "map fst (sort_members d) = sort_key utf16_be (map fst d)"
  by (simp add: sort_members_def sort_key_map_pair)

lemma distinct_sort_members: "distinct (map fst (sort_members d)) = distinct (map fst d)"
  by (simp add: map_fst_sort_members)

subsection \<open>Decoding what the serializer wrote\<close>

lemma read_string_char:
  "read_string (jcs_char c @ s) = map_option (\<lambda>(t, r). (c # t, r)) (read_string s)"
proof -
  consider "c = 0x22" | "c = 0x5C" | "c < 0x20" "c \<in> {0x08, 0x09, 0x0A, 0x0C, 0x0D}"
    | "c < 0x20" "c \<notin> {0x08, 0x09, 0x0A, 0x0C, 0x0D}" | "c \<ge> 0x20" "c \<noteq> 0x22" "c \<noteq> 0x5C"
    by fastforce
  then show ?thesis
  proof cases
    case 4
    have "\<not> is_high c" "hex_val 0x30 = Some 0" using 4 by (auto simp: is_high_def hex_val_def)
    then have "read_escape (0x75 # 0x30 # 0x30 # hex_digit (c div 16) # hex_digit (c mod 16) # s) = Some (c, s)"
      using 4 by (simp add: read_escape_def hex_val_digit)
    with 4 show ?thesis by (simp add: jcs_char_def jcs_ctrl_def)
  qed (auto simp: jcs_char_def jcs_ctrl_def read_escape_def simple_escape_def)
qed

lemma read_string_body: "read_string (concat (map jcs_char s) @ 0x22 # r) = Some (s, r)"
  by (induction s) (simp_all add: read_string_char)

text \<open>The text after a number must not continue it.\<close>

definition number_ends :: "ustr \<Rightarrow> bool" where
  "number_ends r \<longleftrightarrow> (case r of [] \<Rightarrow> True | c # _ \<Rightarrow> \<not> is_digit c \<and> c \<noteq> 0x2E \<and> c \<noteq> 0x65 \<and> c \<noteq> 0x45)"

lemma number_ends_takeWhile: "number_ends r \<Longrightarrow> list_all is_digit ds \<Longrightarrow>
  takeWhile is_digit (ds @ r) = ds \<and> dropWhile is_digit (ds @ r) = r"
  by (cases r) (auto simp: number_ends_def list_all_iff takeWhile_append dropWhile_append)

lemma read_int_digits: "number_ends r \<Longrightarrow> read_int (dec_digits n @ r) = Some (dec_digits n, r)"
proof -
  assume r: "number_ends r"
  obtain c ds where d: "dec_digits n = c # ds" by (cases "dec_digits n") auto
  have dig: "is_digit c" "list_all is_digit ds" using dec_digits_digits [of n] d by auto
  show ?thesis
  proof (cases "n = 0")
    case True
    then show ?thesis by (simp add: read_int_def)
  next
    case False
    then have "c \<noteq> 0x30" using dec_digits_hd [of n] d by simp
    with dig d number_ends_takeWhile [OF r dig(2)] show ?thesis by (simp add: read_int_def)
  qed
qed

lemma number_ends_frac: "number_ends r \<Longrightarrow> read_frac r = ([], r) \<and> read_exp r = ([], r)"
  by (auto simp: number_ends_def read_frac_def read_exp_def split: list.splits)

lemma safe_digits: "\<bar>i\<bar> < safe_int_limit \<Longrightarrow> length (dec_digits (nat \<bar>i\<bar>)) \<le> max_int_digits"
proof -
  assume "\<bar>i\<bar> < safe_int_limit"
  then have "nat \<bar>i\<bar> < 10 ^ 16" by (simp add: safe_int_limit_def nat_less_iff)
  then have "length (dec_digits (nat \<bar>i\<bar>)) \<le> 16" by (rule length_dec_digits) simp
  then show ?thesis by (simp add: max_int_digits_def)
qed

lemma read_number_int:
  assumes "\<bar>i\<bar> < safe_int_limit" "number_ends r"
  shows "read_number pf (str_of_int i @ r) = Inr (JInt i, r)"
proof -
  obtain c ds where d: "dec_digits (nat \<bar>i\<bar>) = c # ds" by (cases "dec_digits (nat \<bar>i\<bar>)") auto
  then have "c \<noteq> 0x2D" using dec_digits_digits [of "nat \<bar>i\<bar>"] by (auto simp: is_digit_def)
  moreover have "int (dec_value (dec_digits (nat \<bar>i\<bar>))) = \<bar>i\<bar>" by (simp add: dec_value_digits)
  ultimately show ?thesis
    using read_int_digits [OF assms(2), of "nat \<bar>i\<bar>"] number_ends_frac [OF assms(2)] safe_digits [OF assms(1)] d
    by (cases "i < 0") (simp_all add: read_number_def str_of_int_def int_literal_def abs_if)
qed

lemma after_Cons: "w \<noteq> [] \<Longrightarrow> of_char (hd w) \<noteq> c \<Longrightarrow> after w (c # s) = None"
  by (cases w) (auto simp: after_def starts_with_def lit_def)

lemma str_of_int_hd: "\<exists>c t. str_of_int i = c # t \<and> (is_digit c \<or> (c = 0x2D \<and> t \<noteq> [] \<and> is_digit (hd t)))"
proof -
  have h: "\<exists>c t. dec_digits n = c # t \<and> is_digit c" for n
    using dec_digits_digits [of n] by (cases "dec_digits n") auto
  from h [of "nat i"] h [of "nat (- i)"] show ?thesis by (auto simp: str_of_int_def)
qed

lemma read_scalar_int:
  assumes "\<bar>i\<bar> < safe_int_limit" "number_ends r"
  shows "read_scalar pf (str_of_int i @ r) = Inr (JInt i, r)"
proof -
  obtain c t where s: "str_of_int i = c # t"
    and c: "is_digit c \<or> (c = 0x2D \<and> t \<noteq> [] \<and> is_digit (hd t))" using str_of_int_hd [of i] by blast
  have "after w (str_of_int i @ r) = None" if "w \<in> {''null'', ''true'', ''false'', ''NaN'', ''Infinity''}" for w
    unfolding s using that c by (auto simp: is_digit_def intro!: after_Cons)
  moreover have "after ''-Infinity'' (str_of_int i @ r) = None"
    using c by (cases t) (auto simp: s is_digit_def after_def starts_with_def lit_def)
  ultimately show ?thesis by (simp add: read_scalar_def read_number_int [OF assms])
qed

text \<open>A text that reads as a value wherever it stands.\<close>

definition reads :: "(ustr \<Rightarrow> json res) \<Rightarrow> (dict \<Rightarrow> dict res) \<Rightarrow> ustr \<Rightarrow> json \<Rightarrow> bool" where
  "reads pf ph t v \<longleftrightarrow> t \<noteq> [] \<and> \<not> is_ws (hd t) \<and> hd t \<notin> {0x5D, 0xFEFF} \<and>
     (\<forall>r n. number_ends r \<longrightarrow> 2 * length (t @ r) < n \<longrightarrow> parse_value pf ph n (t @ r) = Inr (v, r))"

lemma readsD:
  "reads pf ph t v \<Longrightarrow> number_ends r \<Longrightarrow> 2 * length (t @ r) < n \<Longrightarrow> parse_value pf ph n (t @ r) = Inr (v, r)"
  by (simp add: reads_def)

lemma reads_skip_ws: "reads pf ph t v \<Longrightarrow> skip_ws (t @ r) = t @ r"
  by (cases t) (auto simp: reads_def)

lemma number_ends_close [simp]: "number_ends (0x5D # r)" "number_ends (0x7D # r)" "number_ends (0x2C # r)"
  by (auto simp: number_ends_def is_digit_def)

lemma is_ws_punct [simp]: "\<not> is_ws 0x5D" "\<not> is_ws 0x7D" "\<not> is_ws 0x2C" "\<not> is_ws 0x3A" "\<not> is_ws 0x22"
  "\<not> is_ws 0x5B" "\<not> is_ws 0x7B"
  by (auto simp: is_ws_def)

lemma parse_items_join:
  assumes "list_all2 (reads pf ph) ts vs" "ts \<noteq> []" "2 * length (comma_join ts @ 0x5D # r) + 1 < n"
  shows "parse_items pf ph n (comma_join ts @ 0x5D # r) = Inr (vs, r)"
  using assms
proof (induction ts arbitrary: vs n rule: comma_join.induct)
  case (2 t)
  then obtain v where v: "vs = [v]" "reads pf ph t v" by (auto simp: list_all2_Cons1)
  from "2.prems" obtain m where n: "n = Suc m" by (cases n) auto
  with "2.prems" v show ?case by (simp add: parse_items.simps(2) readsD)
next
  case (3 t u ts)
  then obtain v ws where v: "vs = v # ws" "reads pf ph t v" and ws: "list_all2 (reads pf ph) (u # ts) ws"
    by (auto simp: list_all2_Cons1)
  have hd: "skip_ws (comma_join (u # ts) @ 0x5D # r) = comma_join (u # ts) @ 0x5D # r"
    using ws reads_skip_ws [of pf ph u] by (cases ts) (auto simp: list_all2_Cons1)
  from "3.prems" obtain m where n: "n = Suc m" by (cases n) auto
  with "3.prems" ws have "parse_items pf ph m (comma_join (u # ts) @ 0x5D # r) = Inr (ws, r)"
    by (intro "3.IH") auto
  with "3.prems" v n hd show ?case by (simp add: parse_items.simps(2) readsD)
qed simp

definition member_text :: "ustr \<times> ustr \<Rightarrow> ustr" where
  "member_text m = jcs_string (fst m) @ 0x3A # snd m"

lemma parse_members_join:
  assumes "list_all2 (\<lambda>m p. fst m = fst p \<and> reads pf ph (snd m) (snd p)) ms ps" "ms \<noteq> []"
    "2 * length (comma_join (map member_text ms) @ 0x7D # r) + 1 < n"
  shows "parse_members pf ph n (comma_join (map member_text ms) @ 0x7D # r) = Inr (ps, r)"
  using assms
proof (induction "map member_text ms" arbitrary: ms ps n rule: comma_join.induct)
  case (2 t)
  then obtain k s v where v: "ms = [(k, s)]" "ps = [(k, v)]" "reads pf ph s v"
    by (auto simp: list_all2_Cons1)
  from "2.prems" obtain m where n: "n = Suc m" by (cases n) auto
  with "2.prems" v show ?case
    by (simp add: parse_members.simps(2) member_text_def jcs_string_def read_string_body reads_skip_ws readsD)
next
  case (3 t u ts)
  then obtain k s v ms' ps' where v: "ms = (k, s) # ms'" "ps = (k, v) # ps'" "reads pf ph s v"
    and l: "list_all2 (\<lambda>m p. fst m = fst p \<and> reads pf ph (snd m) (snd p)) ms' ps'"
    and ts: "u # ts = map member_text ms'" "t = member_text (k, s)"
    by (fastforce simp: list_all2_Cons1)
  have hd: "skip_ws (comma_join (map member_text ms') @ 0x7D # r) = comma_join (map member_text ms') @ 0x7D # r"
    using ts by (cases ts) (auto simp: member_text_def jcs_string_def)
  from "3.prems" obtain m where n: "n = Suc m" by (cases n) auto
  have j: "comma_join (map member_text ms) = member_text (k, s) @ 0x2C # comma_join (map member_text ms')"
    using v ts by (metis comma_join.simps(3) list.simps(9))
  from "3.prems" n ts l j have "parse_members pf ph m (comma_join (map member_text ms') @ 0x7D # r) = Inr (ps', r)"
    by (intro "3.hyps") auto
  with "3.prems" v n hd j show ?case
    by (simp add: parse_members.simps(2) member_text_def jcs_string_def read_string_body reads_skip_ws readsD)
qed simp

lemma reads_scalar:
  assumes "t \<noteq> []" "\<not> is_ws (hd t)" "hd t \<notin> {0x22, 0x5B, 0x7B, 0x5D, 0xFEFF}"
    "\<And>r. number_ends r \<Longrightarrow> read_scalar pf (t @ r) = Inr (v, r)"
  shows "reads pf ph t v"
  unfolding reads_def
proof (intro conjI allI impI)
  fix r n
  assume r: "number_ends r" and n: "2 * length (t @ r) < n"
  from n obtain m where "n = Suc m" by (cases n) auto
  with assms r show "parse_value pf ph n (t @ r) = Inr (v, r)"
    by (cases t) (auto simp: parse_value.simps(2))
qed (use assms in auto)

lemma read_scalar_keyword:
  "read_scalar pf (lit ''null'' @ r) = Inr (JNull, r)"
  "read_scalar pf (lit ''true'' @ r) = Inr (JBool True, r)"
  "read_scalar pf (lit ''false'' @ r) = Inr (JBool False, r)"
  by (simp_all add: read_scalar_def after_def starts_with_def lit_def)

lemma reads_string: "reads pf ph (jcs_string s) (JStr s)"
  unfolding reads_def
proof (intro conjI allI impI)
  fix r n
  assume n: "2 * length (jcs_string s @ r) < n"
  from n obtain m where "n = Suc m" by (cases n) auto
  then show "parse_value pf ph n (jcs_string s @ r) = Inr (JStr s, r)"
    by (simp add: parse_value.simps(2) jcs_string_def read_string_body)
qed (auto simp: jcs_string_def is_ws_def)

lemma reads_int: "\<bar>i\<bar> < safe_int_limit \<Longrightarrow> reads pf ph (str_of_int i) (JInt i)"
  using str_of_int_hd [of i] by (intro reads_scalar read_scalar_int) (auto simp: is_digit_def is_ws_def)

lemma reads_arr:
  assumes "list_all2 (reads pf ph) ts vs"
  shows "reads pf ph (0x5B # comma_join ts @ [0x5D]) (JArr vs)"
  unfolding reads_def
proof (intro conjI allI impI)
  fix r n
  assume n: "2 * length ((0x5B # comma_join ts @ [0x5D]) @ r) < n"
  from n obtain m where m: "n = Suc m" by (cases n) auto
  show "parse_value pf ph n ((0x5B # comma_join ts @ [0x5D]) @ r) = Inr (JArr vs, r)"
  proof (cases ts)
    case Nil
    then show ?thesis using assms m by (simp add: parse_value.simps(2))
  next
    case (Cons t ts')
    then obtain c u where c: "comma_join ts = c # u" "\<not> is_ws c" "c \<noteq> 0x5D"
      using assms by (cases ts'; cases t) (auto simp: list_all2_Cons1 reads_def)
    from n m have "parse_items pf ph m (comma_join ts @ 0x5D # r) = Inr (vs, r)"
      by (intro parse_items_join assms) (use Cons in auto)
    then show ?thesis using m c by (simp add: parse_value.simps(2))
  qed
qed (auto simp: is_ws_def)

lemma reads_obj:
  assumes "list_all2 (\<lambda>m p. fst m = fst p \<and> reads pf ph (snd m) (snd p)) ms ps" "ph ps = Inr ps"
  shows "reads pf ph (0x7B # comma_join (map member_text ms) @ [0x7D]) (JObj ps)"
  unfolding reads_def
proof (intro conjI allI impI)
  fix r n
  assume n: "2 * length ((0x7B # comma_join (map member_text ms) @ [0x7D]) @ r) < n"
  from n obtain m where m: "n = Suc m" by (cases n) auto
  show "parse_value pf ph n ((0x7B # comma_join (map member_text ms) @ [0x7D]) @ r) = Inr (JObj ps, r)"
  proof (cases ms)
    case Nil
    then show ?thesis using assms m by (simp add: parse_value.simps(2))
  next
    case (Cons t ms')
    then obtain u where c: "comma_join (map member_text ms) = 0x22 # u"
      by (cases ms') (auto simp: member_text_def jcs_string_def)
    from n m have "parse_members pf ph m (comma_join (map member_text ms) @ 0x7D # r) = Inr (ps, r)"
      by (intro parse_members_join assms) (use Cons in auto)
    then show ?thesis using m c assms(2) by (simp add: parse_value.simps(2))
  qed
qed (auto simp: is_ws_def)

text \<open>An object hook that keeps a list of distinct members, as every hook of the code does.\<close>

definition keeps_distinct :: "(dict \<Rightarrow> dict res) \<Rightarrow> bool" where
  "keeps_distinct ph \<longleftrightarrow> (\<forall>ps. distinct (map fst ps) \<longrightarrow> ph ps = Inr ps)"

lemma jcs_ser_reads:
  "jcs_value v \<Longrightarrow> keeps_distinct ph \<Longrightarrow> \<exists>t. jcs_ser v = Inr t \<and> reads pf ph t (canon v)"
proof (induction v rule: jcs_ser.induct)
  case 1
  show ?case using read_scalar_keyword(1) by (auto intro!: reads_scalar simp: is_ws_def lit_def)
next
  case (2 b)
  show ?case using read_scalar_keyword(2,3)
    by (cases b) (auto intro!: reads_scalar simp: is_ws_def lit_def)
next
  case (3 i)
  then show ?case by (auto intro: reads_int)
next
  case (5 s)
  show ?case by (auto intro: reads_string)
next
  case (6 xs)
  then have "\<forall>x \<in> set xs. \<exists>t. jcs_ser x = Inr t \<and> reads pf ph t (canon x)" by (auto simp: list_all_iff)
  then obtain f where f: "\<And>x. x \<in> set xs \<Longrightarrow> jcs_ser x = Inr (f x) \<and> reads pf ph (f x) (canon x)" by metis
  then have "rmap jcs_ser xs = Inr (map f xs)" by (intro rmap_total) auto
  moreover have "list_all2 (reads pf ph) (map f xs) (map canon xs)"
    using f by (auto simp: list_all2_conv_all_nth)
  ultimately show ?case by (auto intro: reads_arr)
next
  case (7 d)
  then have names: "\<And>m. m \<in> set d \<Longrightarrow> scalars (fst m)" and dist: "distinct (map fst d)"
    by (auto simp: list_all_iff)
  have "\<forall>m \<in> set (sort_members d). \<exists>t. jcs_ser (snd m) = Inr t \<and> reads pf ph t (canon (snd m))"
    using 7 names by (fastforce simp: list_all_iff list_ex_iff scalars_def scalar_def)
  then obtain f where f: "\<And>m. m \<in> set (sort_members d) \<Longrightarrow>
      jcs_ser (snd m) = Inr (f m) \<and> reads pf ph (f m) (canon (snd m))" by metis
  let ?ms = "map (\<lambda>m. (fst m, f m)) (sort_members d)"
  let ?ps = "sort_members (map (\<lambda>m. (fst m, canon (snd m))) d)"
  have "\<not> list_ex (\<lambda>m. list_ex is_surrogate (fst m)) d"
    using names by (auto simp: list_ex_iff scalars_def scalar_def list_all_iff)
  moreover have "rmap (\<lambda>m. rbind (jcs_ser (snd m)) (\<lambda>t. Inr (jcs_string (fst m) @ 0x3A # t))) (sort_members d)
      = Inr (map member_text ?ms)"
    using f by (subst rmap_total [where g = "\<lambda>m. member_text (fst m, f m)"]) (auto simp: member_text_def comp_def)
  moreover have "list_all2 (\<lambda>m p. fst m = fst p \<and> reads pf ph (snd m) (snd p)) ?ms ?ps"
    unfolding sort_members_map list_all2_map1 list_all2_map2 using f by (intro list.rel_refl_strong) simp
  moreover have "ph ?ps = Inr ?ps"
    using 7 dist by (simp add: keeps_distinct_def distinct_sort_members comp_def)
  ultimately show ?case using reads_obj [of pf ph ?ms ?ps] by simp
qed simp

theorem jcs_ser_parses:
  assumes "jcs_value v" "keeps_distinct ph" "jcs_ser v = Inr t"
  shows "json_loads pf ph t = Inr (canon v)"
proof -
  have r: "reads pf ph t (canon v)" using jcs_ser_reads [OF assms(1,2)] assms(3) by force
  then have "parse_value pf ph (2 * length t + 1) (t @ []) = Inr (canon v, [])"
    by (intro readsD) (auto simp: number_ends_def)
  moreover have "skip_ws t = t" using reads_skip_ws [OF r, of "[]"] by simp
  moreover have "\<not> starts_with [0xFEFF] t"
    using r by (cases t) (auto simp: starts_with_def reads_def)
  ultimately show ?thesis by (simp add: json_loads_def)
qed

subsection \<open>Canonical text stands for a value up to member order\<close>

lemma sort_members_idem: "sort_members (sort_members d) = sort_members d"
  by (simp add: sort_members_def sort_key_id_if_sorted)

lemma rmap_map: "rmap f (map g xs) = rmap (\<lambda>x. f (g x)) xs"
  by (induction xs) auto

lemma jcs_ser_canon: "jcs_ser (canon v) = jcs_ser v"
proof (induction v rule: jcs_ser.induct)
  case (6 xs)
  then have "rmap (\<lambda>x. jcs_ser (canon x)) xs = rmap jcs_ser xs" by (intro rmap_cong) auto
  then show ?case by (simp add: rmap_map)
next
  case (7 d)
  then show ?case
    by (auto simp: sort_members_idem sort_members_map rmap_map list_ex_iff intro!: rbind_cong rmap_cong)
qed auto

theorem jcs_ser_eq_iff:
  assumes "jcs_value v" "jcs_value w"
  shows "jcs_ser v = jcs_ser w \<longleftrightarrow> canon v = canon w"
proof
  assume "canon v = canon w"
  then show "jcs_ser v = jcs_ser w" by (metis jcs_ser_canon)
next
  have k: "keeps_distinct Inr" by (simp add: keeps_distinct_def)
  assume "jcs_ser v = jcs_ser w"
  moreover obtain t where "jcs_ser v = Inr t" using jcs_ser_reads [OF assms(1) k] by blast
  ultimately show "canon v = canon w"
    using jcs_ser_parses [OF assms(1) k] jcs_ser_parses [OF assms(2) k] by fastforce
qed

text \<open>The order in which a dict received its members does not reach the canonical text.\<close>

lemma sort_members_unique:
  assumes "set d = set e" "distinct (map fst d)" "distinct (map fst e)"
    "list_all (\<lambda>m. bmp (fst m) \<and> scalars (fst m)) d"
  shows "sort_members d = sort_members e"
proof -
  let ?f = "\<lambda>m. utf16_be (fst m)"
  have i: "inj_on ?f (set d)"
    using assms(2,4) by (auto simp: inj_on_def list_all_iff distinct_map dest!: utf16_be_inj_bmp)
  have d: "distinct (map ?f d)" "distinct (map ?f e)"
    using i assms(1,2,3) by (auto simp: distinct_map)
  show ?thesis unfolding sort_members_def
    by (rule map_sorted_distinct_set_unique [where f = ?f])
      (use i d assms(1) in \<open>auto simp: distinct_map\<close>)
qed

lemma jcs_dumps_member_order:
  assumes "jcs_value (JObj d)" "distinct (map fst e)" "set e = set d"
  shows "jcs_dumps (JObj e) = jcs_dumps (JObj d)"
proof -
  have "sort_members e = sort_members d"
    using assms by (intro sort_members_unique) (auto simp: list_all_iff)
  moreover have "list_ex (\<lambda>m. list_ex is_surrogate (fst m)) e = list_ex (\<lambda>m. list_ex is_surrogate (fst m)) d"
    using assms(3) by (simp add: list_ex_iff)
  ultimately show ?thesis by (simp add: jcs_dumps_def)
qed

end
