(* ===== verification/String_Scalars.thy ===== *)
theory String_Scalars
  imports Jcs
begin

section \<open>Unicode scalar values inside JSON string literals\<close>

text \<open>
  The byte scan \<open>_check_string_scalars\<close> of \<open>packaging/run_vectors.py\<close>, which runs over the
  raw text before it is decoded and refuses a literal that denotes a surrogate or a
  noncharacter.  Its index \<open>i\<close> is what is left of the text, \<open>b[i:]\<close>.  The theorem
  \<open>json_loads_passes\<close> ties the scan to the decoder: when the scan passes, every string the
  decoder returns, member names included, holds permitted scalar values only.
\<close>

unbundle bit_operations_syntax

text \<open>\<open>_is_noncharacter\<close>.\<close>

definition is_noncharacter :: "nat \<Rightarrow> bool" where
  "is_noncharacter cp \<longleftrightarrow> (cp AND 0xFFFE = 0xFFFE) \<or> (0xFDD0 \<le> cp \<and> cp \<le> 0xFDEF)"

definition check_surrogate_pair :: "bytes \<Rightarrow> nat \<Rightarrow> nat res" where
  "check_surrogate_pair b hi =
     (if length b < 12 \<or> take 2 (drop 6 b) \<noteq> [0x5C, 0x75] then Inl StringNotScalarError
      else (case hex4 (drop 8 b) of
        None \<Rightarrow> Inl StringNotScalarError
      | Some lo \<Rightarrow>
          if \<not> (0xDC00 \<le> lo \<and> lo < 0xE000) then Inl StringNotScalarError
          else if is_noncharacter (0x10000 + push_bit 10 (hi - 0xD800) + (lo - 0xDC00))
          then Inl StringNotScalarError
          else Inr 12))"

definition check_escape :: "bytes \<Rightarrow> nat res" where
  "check_escape b =
     (if length b < 2 then Inl StringNotScalarError
      else if take 1 (drop 1 b) \<noteq> [0x75] then Inr 2
      else (case hex4 (drop 2 b) of
        None \<Rightarrow> Inl StringNotScalarError
      | Some hi \<Rightarrow>
          if 0xD800 \<le> hi \<and> hi < 0xDC00 then check_surrogate_pair b hi
          else if 0xDC00 \<le> hi \<and> hi < 0xE000 then Inl StringNotScalarError
          else if is_noncharacter hi then Inl StringNotScalarError
          else Inr 6))"

definition utf8_seq_len :: "nat \<Rightarrow> nat" where
  "utf8_seq_len lead =
     (if 0xC2 \<le> lead \<and> lead \<le> 0xDF then 2
      else if 0xE0 \<le> lead \<and> lead \<le> 0xEF then 3
      else if 0xF0 \<le> lead \<and> lead \<le> 0xF4 then 4
      else 0)"

lemma check_escape_pos: "check_escape b = Inr k \<Longrightarrow> 0 < k"
  by (auto simp: check_escape_def check_surrogate_pair_def split: if_splits option.splits)

text \<open>
  The loop of \<open>_check_string_literal\<close> on what is left of the literal, \<open>b[i:]\<close>; it
  returns how much of that the literal spans.
\<close>

function literal_rest :: "bytes \<Rightarrow> nat res" where
  "literal_rest [] = Inl StringNotScalarError"
| "literal_rest (c # r) =
     (if c = 0x22 then Inr 1
      else if c = 0x5C then
        rbind (check_escape (c # r)) (\<lambda>k. rbind (literal_rest (drop k (c # r))) (\<lambda>n. Inr (k + n)))
      else if c < 0x20 then Inl StringNotScalarError
      else if c < 0x80 then rbind (literal_rest r) (\<lambda>n. Inr (1 + n))
      else
        let size = utf8_seq_len c in
        if size = 0 \<or> length (c # r) < size then Inl StringNotScalarError
        else (case utf8_decode (take size (c # r)) of
          None \<Rightarrow> Inl StringNotScalarError
        | Some [ch] \<Rightarrow>
            if is_noncharacter ch then Inl StringNotScalarError
            else rbind (literal_rest (drop size (c # r))) (\<lambda>n. Inr (size + n))
        | Some _ \<Rightarrow> Inl TypeError))"
  by pat_completeness auto
termination
  by (relation "measure length") (auto dest: check_escape_pos)

definition check_string_literal :: "bytes \<Rightarrow> nat res" where
  "check_string_literal b = rbind (literal_rest (drop 1 b)) (\<lambda>n. Inr (1 + n))"

lemma check_string_literal_pos: "check_string_literal b = Inr k \<Longrightarrow> 0 < k"
  by (auto simp: check_string_literal_def rbind_eq_Inr)

function check_string_scalars :: "bytes \<Rightarrow> unit res" where
  "check_string_scalars [] = Inr ()"
| "check_string_scalars (c # r) =
     (if c \<noteq> 0x22 then check_string_scalars r
      else rbind (check_string_literal (c # r)) (\<lambda>k. check_string_scalars (drop k (c # r))))"
  by pat_completeness auto
termination
  by (relation "measure length") (auto dest: check_string_literal_pos)

declare literal_rest.simps(2) [simp del] check_string_scalars.simps(2) [simp del]

subsection \<open>The scan on code points\<close>

text \<open>Scalar values other than the noncharacters: what I-JSON lets a string hold.\<close>

definition ijson_char :: "nat \<Rightarrow> bool" where
  "ijson_char c \<longleftrightarrow> scalar c \<and> \<not> is_noncharacter c"

definition ijson_string :: "ustr \<Rightarrow> bool" where
  "ijson_string s \<longleftrightarrow> list_all ijson_char s"

fun ijson_strings :: "json \<Rightarrow> bool" where
  "ijson_strings (JStr s) = ijson_string s"
| "ijson_strings (JArr xs) = list_all ijson_strings xs"
| "ijson_strings (JObj d) = list_all (\<lambda>m. ijson_string (fst m) \<and> ijson_strings (snd m)) d"
| "ijson_strings _ = True"

text \<open>The scan has passed everything up to \<open>s\<close>.\<close>

definition passes :: "ustr \<Rightarrow> bool" where
  "passes s \<longleftrightarrow> scalars s \<and> check_string_scalars (utf8_bytes s) = Inr ()"

lemma utf8_char_no_quote: "c \<noteq> 0x22 \<Longrightarrow> x \<in> set (utf8_char c) \<Longrightarrow> x \<noteq> 0x22"
  by (auto simp: utf8_char_def split: if_splits)

lemma check_string_scalars_skip:
  "\<forall>x \<in> set bs. x \<noteq> 0x22 \<Longrightarrow> check_string_scalars (bs @ r) = check_string_scalars r"
  by (induction bs) (auto simp: check_string_scalars.simps(2))

lemma passes_skip: "passes (c # s) \<Longrightarrow> c \<noteq> 0x22 \<Longrightarrow> passes s"
  using utf8_char_no_quote by (fastforce simp: passes_def check_string_scalars_skip)

lemma passes_drop: "passes (p @ s) \<Longrightarrow> 0x22 \<notin> set p \<Longrightarrow> passes s"
  by (induction p) (auto dest: passes_skip)

lemma utf8_seq_len_char:
  assumes "scalar c" "\<not> c < 0x80"
  shows "\<exists>b bs. utf8_char c = b # bs \<and> \<not> b < 0x80 \<and> utf8_seq_len b = Suc (length bs)"
proof -
  have "c < 0x110000" using assms by (simp add: scalar_def)
  then have "c div 262144 < 5" by auto
  moreover have "c < 2048 \<Longrightarrow> 2 \<le> c div 64 \<and> c div 64 < 32" using assms by auto
  moreover have "c < 65536 \<Longrightarrow> c div 4096 < 16" by auto
  ultimately show ?thesis using assms
    by (auto simp: utf8_char_def utf8_seq_len_def)
qed

lemma and_le_left: "(c :: nat) AND m \<le> c"
  by (metis AND_upper1 of_nat_0_le_iff of_nat_and_eq of_nat_le_iff)

lemma ascii_not_noncharacter: "c < 0x80 \<Longrightarrow> \<not> is_noncharacter c"
  using and_le_left [of c "0xFFFE"] by (auto simp: is_noncharacter_def)

lemma literal_rest_char:
  assumes "scalar c" "c \<noteq> 0x22" "c \<noteq> 0x5C" "literal_rest (utf8_char c @ b) = Inr n"
  shows "ijson_char c \<and> 0x20 \<le> c \<and> (\<exists>m. literal_rest b = Inr m \<and> n = length (utf8_char c) + m)"
proof (cases "c < 0x80")
  case True
  then show ?thesis using assms ascii_not_noncharacter [OF True]
    by (auto simp: utf8_char_def literal_rest.simps(2) rbind_eq_Inr ijson_char_def split: if_splits)
next
  case False
  obtain x bs where x: "utf8_char c = x # bs" "\<not> x < 0x80" "utf8_seq_len x = Suc (length bs)"
    using utf8_seq_len_char [OF assms(1) False] by blast
  have d: "utf8_decode (x # bs) = Some [c]" using utf8_decode_encode [of "[c]"] assms(1) x by simp
  show ?thesis using assms(4) x d False assms(1)
    by (auto simp: literal_rest.simps(2) rbind_eq_Inr Let_def ijson_char_def split: if_splits)
qed

text \<open>An ASCII byte at the front of an encoded text is its first character.\<close>

lemma utf8_bytes_ascii_Cons:
  assumes "utf8_bytes x = a # y" "a < 0x80"
  shows "\<exists>x'. x = a # x' \<and> y = utf8_bytes x'"
  using assms by (cases x) (auto simp: utf8_char_def split: if_splits)

lemma utf8_bytes_ascii_ConsE:
  assumes "utf8_bytes x = a # y" "a < 0x80"
  obtains x' where "x = a # x'" "y = utf8_bytes x'"
  using utf8_bytes_ascii_Cons [OF assms] by blast

lemma length_4E:
  assumes "4 \<le> length b"
  obtains p q r s t where "b = p # q # r # s # t"
  using assms by (auto simp: numeral_eq_Suc Suc_le_length_iff)

lemma hex4_utf8:
  assumes "hex4 (utf8_bytes x) = Some v"
  obtains p q r s x' where "x = p # q # r # s # x'" "utf8_bytes x = p # q # r # s # utf8_bytes x'"
    "hex4 x = Some v"
proof -
  obtain p q r s t where b: "utf8_bytes x = p # q # r # s # t"
    using length_4E hex4_less [OF assms] by blast
  have "hex_val c = Some d \<Longrightarrow> c < 0x80" for c d by (auto simp: hex_val_def split: if_splits)
  then have a: "p < 0x80" "q < 0x80" "r < 0x80" "s < 0x80"
    using assms unfolding b by (auto split: option.splits)
  obtain x1 where 1: "x = p # x1" "q # r # s # t = utf8_bytes x1"
    using utf8_bytes_ascii_ConsE [OF b a(1)] by blast
  obtain x2 where 2: "x1 = q # x2" "r # s # t = utf8_bytes x2"
    using utf8_bytes_ascii_ConsE [OF 1(2) [symmetric] a(2)] by blast
  obtain x3 where 3: "x2 = r # x3" "s # t = utf8_bytes x3"
    using utf8_bytes_ascii_ConsE [OF 2(2) [symmetric] a(3)] by blast
  obtain x4 where 4: "x3 = s # x4" "t = utf8_bytes x4"
    using utf8_bytes_ascii_ConsE [OF 3(2) [symmetric] a(4)] by blast
  have x: "x = p # q # r # s # x4" unfolding 1(1) 2(1) 3(1) 4(1) ..
  have x2: "utf8_bytes x = p # q # r # s # utf8_bytes x4" unfolding b 4(2) ..
  have "hex4 (p # q # r # s # utf8_bytes x4) = hex4 (p # q # r # s # x4)" by (simp only: hex4_Cons)
  then have "hex4 x = Some v" using assms unfolding x2 unfolding x by simp
  with x x2 show ?thesis by (rule that)
qed

lemma check_escape_plain:
  assumes "e \<noteq> 0x75" "simple_escape e = Some u" "check_escape (0x5C # utf8_bytes (e # s)) = Inr k"
  shows "ijson_char u \<and> drop k (0x5C # utf8_bytes (e # s)) = utf8_bytes s"
proof -
  from assms(2) have "e < 0x80" "u < 0x80" by (auto simp: simple_escape_def split: if_splits)
  moreover from this assms have "k = 2" by (auto simp: check_escape_def utf8_char_def split: if_splits)
  ultimately show ?thesis using ascii_not_noncharacter [of u]
    by (simp add: utf8_char_def ijson_char_def scalar_def is_surrogate_def)
qed

lemma check_escape_pair:
  assumes "is_high hi" "check_surrogate_pair (0x5C # 0x75 # p # q # r # s # utf8_bytes x) hi = Inr k"
  obtains lo x' where "low_half x = Some lo" "drop 6 x = x'" "k = 12"
    "drop 6 (utf8_bytes x) = utf8_bytes x'" "ijson_char (0x10000 + (hi - 0xD800) * 1024 + (lo - 0xDC00))"
proof -
  let ?b = "utf8_bytes x"
  from assms(2) have k: "k = 12" and pre: "take 2 ?b = [0x5C, 0x75]"
    by (auto simp: check_surrogate_pair_def split: if_splits option.splits)
  from pre obtain y where y: "?b = 0x5C # 0x75 # y" by (cases ?b; cases "tl ?b") auto
  then obtain x1 where "x = 0x5C # x1" "0x75 # y = utf8_bytes x1"
    using utf8_bytes_ascii_Cons [of x] by auto
  then obtain x2 where x: "x = 0x5C # 0x75 # x2" "y = utf8_bytes x2"
    using utf8_bytes_ascii_Cons [of x1 "0x75" y] by auto
  from assms(2) y obtain lo where lo: "hex4 y = Some lo" "is_low lo"
    and nc: "\<not> is_noncharacter (0x10000 + push_bit 10 (hi - 0xD800) + (lo - 0xDC00))"
    by (auto simp: check_surrogate_pair_def is_low_def split: if_splits option.splits)
  from lo(1) x obtain p q r s x' where x': "x2 = p # q # r # s # x'" "y = p # q # r # s # utf8_bytes x'"
    "hex4 x2 = Some lo" by (metis hex4_utf8)
  have c: "0x10000 + (hi - 0xD800) * 1024 + (lo - 0xDC00) < 0x110000"
    using assms(1) lo(2) by (auto simp: is_high_def is_low_def)
  show ?thesis
  proof (rule that [of lo x'])
    show "low_half x = Some lo" using x x' lo(2) by (simp add: low_half_def)
    show "drop 6 x = x'" using x x' by simp
    show "drop 6 ?b = utf8_bytes x'" using y x' by simp
    show "ijson_char (0x10000 + (hi - 0xD800) * 1024 + (lo - 0xDC00))"
      using c nc by (simp add: ijson_char_def scalar_def is_surrogate_def push_bit_eq_mult)
  qed (rule k)
qed

lemma check_escape_reads:
  assumes "check_escape (0x5C # utf8_bytes s) = Inr k" "read_escape s = Some (u, r)"
  shows "ijson_char u \<and> drop k (0x5C # utf8_bytes s) = utf8_bytes r"
proof -
  from assms(2) obtain e s1 where s: "s = e # s1" by (cases s) (auto simp: read_escape_def)
  show ?thesis
  proof (cases "e = 0x75")
    case False
    with assms s show ?thesis using check_escape_plain [of e u s1 k] by (auto simp: read_escape_def)
  next
    case True
    then have b: "utf8_bytes s = 0x75 # utf8_bytes s1" using s by (simp add: utf8_char_def)
    with assms(1) obtain hi where "hex4 (utf8_bytes s1) = Some hi"
      by (auto simp: check_escape_def split: if_splits option.splits)
    then obtain p q t d x where x: "s1 = p # q # t # d # x" "utf8_bytes s1 = p # q # t # d # utf8_bytes x"
      and h: "hex4 s1 = Some hi" "hex4 (utf8_bytes s1) = Some hi" by (metis hex4_utf8)
    have lt: "hi < 0x10000" using hex4_less [OF h(1)] by simp
    have A: "check_escape (0x5C # 0x75 # p # q # t # d # utf8_bytes x) = Inr k"
      using assms(1) unfolding b x(2) .
    have R: "read_escape (0x75 # p # q # t # d # x) = Some (u, r)"
      using assms(2) True unfolding s x(1) by simp
    have H: "hex4 (p # q # t # d # x) = Some hi" "hex4 (p # q # t # d # utf8_bytes x) = Some hi"
      using h(1) unfolding x(1) apply assumption
      using h(2) unfolding x(2) by assumption
    show ?thesis
    proof (cases "is_high hi")
      case False
      with R H have "u = hi" "r = x" by (auto simp: read_escape_def simp del: hex4_Cons)
      moreover from A H False have "k = 6" "\<not> is_low hi" "\<not> is_noncharacter hi"
        by (auto simp: check_escape_def is_high_def is_low_def simp del: hex4_Cons split: if_splits)
      ultimately show ?thesis using False lt unfolding b x(2)
        by (auto simp: ijson_char_def scalar_def is_surrogate_def is_high_def is_low_def)
    next
      case hi: True
      with A H have "check_surrogate_pair (0x5C # 0x75 # p # q # t # d # utf8_bytes x) hi = Inr k"
        by (auto simp: check_escape_def is_high_def simp del: hex4_Cons split: if_splits)
      from check_escape_pair [OF hi this] obtain lo x' where lo: "low_half x = Some lo" "drop 6 x = x'" "k = 12"
        "drop 6 (utf8_bytes x) = utf8_bytes x'" "ijson_char (0x10000 + (hi - 0xD800) * 1024 + (lo - 0xDC00))" .
      with R H hi have "u = 0x10000 + (hi - 0xD800) * 1024 + (lo - 0xDC00)" "r = x'"
        by (auto simp: read_escape_def simp del: hex4_Cons)
      with lo show ?thesis unfolding b x(2) by simp
    qed
  qed
qed

lemma literal_rest_reads:
  assumes "read_string s = Some (t, r)" "literal_rest (utf8_bytes s) = Inr n" "scalars s"
  shows "ijson_string t \<and> scalars r \<and> drop n (utf8_bytes s) = utf8_bytes r"
  using assms
proof (induction s arbitrary: t r n rule: read_string.induct)
  case (2 c s)
  show ?case
  proof (cases "c = 0x22 \<or> c = 0x5C")
    case False
    then obtain t' where t: "t = c # t'" "read_string s = Some (t', r)"
      using "2.prems"(1) by (auto split: if_splits)
    from False "2.prems"(2,3) obtain m where m: "literal_rest (utf8_bytes s) = Inr m"
      "n = length (utf8_char c) + m" "ijson_char c" "0x20 \<le> c"
      using literal_rest_char [of c "utf8_bytes s" n] by auto
    with "2.IH"(2) [OF _ _ _ t(2) m(1)] False "2.prems"(3) t show ?thesis by (auto simp: ijson_string_def)
  next
    case True
    then show ?thesis
    proof
      assume "c = 0x22"
      with "2.prems" show ?thesis by (auto simp: literal_rest.simps(2) utf8_char_def ijson_string_def)
    next
      assume c: "c = 0x5C"
      then obtain u r1 t' where e: "read_escape s = Some (u, r1)" "read_string r1 = Some (t', r)" "t = u # t'"
        using "2.prems"(1) by (auto split: option.splits)
      have b: "utf8_bytes (c # s) = 0x5C # utf8_bytes s" using c by (simp add: utf8_char_def)
      from "2.prems"(2) obtain k m where k: "check_escape (0x5C # utf8_bytes s) = Inr k"
        "literal_rest (drop k (0x5C # utf8_bytes s)) = Inr m" "n = k + m"
        unfolding b by (auto simp: literal_rest.simps(2) rbind_eq_Inr)
      from check_escape_reads [OF k(1) e(1)]
      have u: "ijson_char u" "drop k (0x5C # utf8_bytes s) = utf8_bytes r1" by auto
      have "scalars r1" using "2.prems"(3) e(1)
        by (auto simp: read_escape_def scalars_def list_all_iff split: list.splits if_splits option.splits dest: in_set_dropD)
      with "2.IH"(1) [OF _ c e(1) refl e(2), of m] k(2) u c
      have "ijson_string t' \<and> scalars r \<and> drop m (utf8_bytes r1) = utf8_bytes r" by auto
      with u k(3) e(3) show ?thesis unfolding b
        by (simp add: ijson_string_def add.commute [of k m] drop_drop [symmetric, of m k])
    qed
  qed
qed simp

lemma passes_string:
  assumes "passes (0x22 # s)" "read_string s = Some (t, r)"
  shows "ijson_string t \<and> passes r"
proof -
  from assms(1) have s: "scalars s" and "check_string_scalars (0x22 # utf8_bytes s) = Inr ()"
    by (auto simp: passes_def utf8_char_def)
  then obtain n where n: "literal_rest (utf8_bytes s) = Inr n"
    "check_string_scalars (drop n (utf8_bytes s)) = Inr ()"
    by (auto simp: check_string_scalars.simps(2) check_string_literal_def rbind_eq_Inr)
  with literal_rest_reads [OF assms(2) n(1) s] show ?thesis by (simp add: passes_def)
qed

lemma passes_skip_ws: "passes s \<Longrightarrow> passes (skip_ws s)"
proof -
  assume "passes s"
  moreover have "0x22 \<notin> set (takeWhile is_ws s)" by (auto simp: is_ws_def dest: set_takeWhileD)
  ultimately show ?thesis
    using passes_drop [of "takeWhile is_ws s" "skip_ws s"] by (simp add: skip_ws_def)
qed

lemma passes_skip_wsE: "passes s \<Longrightarrow> skip_ws s = c # r \<Longrightarrow> c \<noteq> 0x22 \<Longrightarrow> passes r"
  using passes_skip_ws passes_skip by metis

lemma passes_after: "after w s = Some r \<Longrightarrow> CHR 0x22 \<notin> set w \<Longrightarrow> passes s \<Longrightarrow> passes r"
proof -
  assume a: "after w s = Some r" "CHR 0x22 \<notin> set w" "passes s"
  then have "s = lit w @ r"
    by (auto simp: after_def starts_with_def split: if_splits) (metis append_take_drop_id length_lit)
  moreover have "0x22 \<notin> set (lit w)"
  proof
    assume "0x22 \<in> set (lit w)"
    then obtain x where "x \<in> set w" "of_char x = (of_char (CHR 0x22) :: nat)" by (auto simp: lit_def)
    then have "x = CHR 0x22" using inj_of_char [where ?'a = nat] by (blast dest: injD)
    with \<open>x \<in> set w\<close> show False using a(2) by simp
  qed
  ultimately show ?thesis using a(3) passes_drop by blast
qed

lemma is_digit_run: "0x22 \<notin> set (takeWhile is_digit s)" "takeWhile is_digit s @ dropWhile is_digit s = s"
  by (auto simp: is_digit_def dest: set_takeWhileD)

lemma read_int_prefix: "read_int s = Some (ds, r) \<Longrightarrow> s = ds @ r \<and> 0x22 \<notin> set ds"
  using is_digit_run by (auto simp: read_int_def is_digit_def split: list.splits if_splits)

lemma read_frac_prefix: "read_frac s = (ds, r) \<Longrightarrow> s = ds @ r \<and> 0x22 \<notin> set ds"
  using is_digit_run by (auto simp: read_frac_def is_digit_def split: list.splits if_splits)

lemma read_exp_prefix: "read_exp s = (ds, r) \<Longrightarrow> s = ds @ r \<and> 0x22 \<notin> set ds"
  using is_digit_run by (auto simp: read_exp_def is_digit_def split: list.splits if_splits)

text \<open>
  What the hooks must respect: a converted number holds no string, and an object is made
  of the members that were read.
\<close>

definition hooks_plain :: "(ustr \<Rightarrow> json res) \<Rightarrow> (dict \<Rightarrow> dict res) \<Rightarrow> bool" where
  "hooks_plain pf ph \<longleftrightarrow> (\<forall>s v. pf s = Inr v \<longrightarrow> ijson_strings v) \<and>
     (\<forall>ps d. ph ps = Inr d \<longrightarrow> set d \<subseteq> set ps)"

lemma read_number_passes:
  assumes "hooks_plain pf ph" "read_number pf s = Inr (v, r)" "passes s"
  shows "ijson_strings v \<and> passes r"
proof -
  define sg :: ustr where "sg = (if (case s of c # _ \<Rightarrow> c = 0x2D | [] \<Rightarrow> False) then [0x2D] else [])"
  have sg: "s = sg @ drop (length sg) s" "0x22 \<notin> set sg" by (auto simp: sg_def split: list.splits if_splits)
  from assms(2) obtain ds r0 fr r1 ex where p: "read_int (drop (length sg) s) = Some (ds, r0)"
    "read_frac r0 = (fr, r1)" "read_exp r1 = (ex, r)" and v: "ijson_strings v"
    using assms(1)
    by (auto simp: read_number_def sg_def hooks_plain_def rbind_eq_Inr int_literal_def Let_def
        split: option.splits prod.splits if_splits)
  then have "s = (sg @ ds @ fr @ ex) @ r" "0x22 \<notin> set (sg @ ds @ fr @ ex)"
    using sg read_int_prefix [OF p(1)] read_frac_prefix [OF p(2)] read_exp_prefix [OF p(3)] by auto
  then show ?thesis using v assms(3) passes_drop by metis
qed

lemma read_scalar_passes:
  assumes "hooks_plain pf ph" "read_scalar pf s = Inr (v, r)" "passes s"
  shows "ijson_strings v \<and> passes r"
  using assms(2,3) read_number_passes [OF assms(1)]
  by (auto simp: read_scalar_def split: option.splits dest: passes_after)

lemma parse_passes:
  assumes "hooks_plain pf ph"
  shows "parse_value pf ph n s = Inr (v, r) \<Longrightarrow> passes s \<Longrightarrow> ijson_strings v \<and> passes r"
    "parse_items pf ph n s = Inr (vs, r) \<Longrightarrow> passes s \<Longrightarrow> list_all ijson_strings vs \<and> passes r"
    "parse_members pf ph n s = Inr (ms, r) \<Longrightarrow> passes s \<Longrightarrow>
       list_all (\<lambda>m. ijson_string (fst m) \<and> ijson_strings (snd m)) ms \<and> passes r"
proof (induction n arbitrary: s v r vs ms)
  case (Suc n)
  {
    case 1
    from 1(1) obtain c s' where s: "s = c # s'" by (cases s) (auto simp: parse_value.simps(2))
    consider "c = 0x22" | "c = 0x5B" | "c = 0x7B" | "c \<notin> {0x22, 0x5B, 0x7B}" by blast
    then show ?case
    proof cases
      case 1
      with "1.prems" s show ?thesis
        by (auto simp: parse_value.simps(2) split: option.splits dest: passes_string)
    next
      case 2
      then have "passes s'" using "1.prems"(2) s passes_skip by simp
      then have p1: "passes (skip_ws s')" by (rule passes_skip_ws)
      obtain c' s1 where s1: "skip_ws s' = c' # s1" using "1.prems"(1) 2 s
        by (auto simp: parse_value.simps(2) split: list.splits)
      show ?thesis
      proof (cases "c' = 0x5D")
        case True
        then show ?thesis using "1.prems"(1) 2 s s1 p1 passes_skip [of c' s1]
          by (auto simp: parse_value.simps(2))
      next
        case False
        then obtain xs where d: "parse_items pf ph n (skip_ws s') = Inr (xs, r)" "v = JArr xs"
          using "1.prems"(1) 2 s s1 by (auto simp: parse_value.simps(2) rbind_eq_Inr)
        from Suc.IH(2) [OF d(1) p1] show ?thesis unfolding d(2) by simp
      qed
    next
      case 3
      then have p: "passes s'" using "1.prems"(2) s passes_skip by simp
      then obtain c' s1 where s1: "skip_ws s' = c' # s1" using "1.prems"(1) 3 s
        by (auto simp: parse_value.simps(2) split: list.splits)
      have p1: "passes (skip_ws s')" by (rule passes_skip_ws [OF p])
      show ?thesis
      proof (cases "c' = 0x7D")
        case True
        then obtain d where d: "ph [] = Inr d" "v = JObj d" "r = s1" using "1.prems"(1) 3 s s1
          by (auto simp: parse_value.simps(2) rbind_eq_Inr)
        from assms d(1) have "d = []" by (fastforce simp: hooks_plain_def)
        then show ?thesis using d p1 s1 True passes_skip [of c' s1] by simp
      next
        case False
        then obtain ps d where d: "parse_members pf ph n (skip_ws s') = Inr (ps, r)" "ph ps = Inr d" "v = JObj d"
          using "1.prems"(1) 3 s s1 by (auto simp: parse_value.simps(2) rbind_eq_Inr)
        from assms d(2) have "set d \<subseteq> set ps" by (simp add: hooks_plain_def)
        with Suc.IH(3) [OF d(1) p1] show ?thesis unfolding d(3)
          by (auto simp only: list_all_iff ijson_strings.simps)
      qed
    next
      case 4
      with "1.prems" s show ?thesis using read_scalar_passes [OF assms] by (auto simp: parse_value.simps(2))
    qed
  next
    case 2
    from 2(1) obtain v0 r0 c r1 where pv: "parse_value pf ph n s = Inr (v0, r0)" "skip_ws r0 = c # r1"
      and e: "c = 0x5D \<and> vs = [v0] \<and> r = r1 \<or>
        c = 0x2C \<and> (\<exists>us. parse_items pf ph n (skip_ws r1) = Inr (us, r) \<and> vs = v0 # us)"
      by (rule parse_items_InrE) blast
    from Suc.IH(1) [OF pv(1) 2(2)] have v: "ijson_strings v0" "passes r0" by auto
    from e passes_skip_wsE [OF v(2) pv(2)] have "passes r1" by auto
    with e v Suc.IH(2) [OF _ passes_skip_ws] show ?case by auto
  next
    case 3
    from 3(1) obtain s' k r0 r1 v0 r2 c r3 where pm: "s = 0x22 # s'" "read_string s' = Some (k, r0)"
      "skip_ws r0 = 0x3A # r1" "parse_value pf ph n (skip_ws r1) = Inr (v0, r2)" "skip_ws r2 = c # r3"
      and e: "c = 0x7D \<and> ms = [(k, v0)] \<and> r = r3 \<or>
        c = 0x2C \<and> (\<exists>us. parse_members pf ph n (skip_ws r3) = Inr (us, r) \<and> ms = (k, v0) # us)"
      by (rule parse_members_InrE) blast
    from passes_string [OF _ pm(2)] 3(2) pm(1) have k: "ijson_string k" "passes r0" by auto
    have "passes r1" by (rule passes_skip_wsE [OF k(2) pm(3)]) simp
    from Suc.IH(1) [OF pm(4) passes_skip_ws [OF this]] have v: "ijson_strings v0" "passes r2" by auto
    from e passes_skip_wsE [OF v(2) pm(5)] have "passes r3" by auto
    with e k v Suc.IH(3) [OF _ passes_skip_ws] show ?case by auto
  }
qed simp_all

theorem json_loads_passes:
  assumes "hooks_plain pf ph" "scalars s" "check_string_scalars (utf8_bytes s) = Inr ()"
    "json_loads pf ph s = Inr v"
  shows "ijson_strings v"
proof -
  have "passes (skip_ws s)" using assms(2,3) by (intro passes_skip_ws) (simp add: passes_def)
  then show ?thesis using assms(4) parse_passes(1) [OF assms(1)]
    by (auto simp: json_loads_def rbind_eq_Inr split: if_splits)
qed
end
