(* ===== verification/Ijson.thy ===== *)
theory Ijson
  imports String_Scalars
begin

section \<open>Strict parsing of payloads and statements\<close>

text \<open>
  The I-JSON profile of \<open>packaging/run_vectors.py\<close>: number literals, duplicate members,
  nesting and size bounds, \<open>parse_json_value\<close>, \<open>strict_payload_parse\<close> and the whole
  statement pass \<open>_statement_strict_fault\<close>.  The characterisation
  \<open>strict_payload_parse_iff\<close> says which byte strings are accepted and with what value:
  exactly the canonical serializations of the profile's values, within the bounds.
\<close>

subsection \<open>Number literals\<close>

text \<open>A literal as sign, decimal coefficient and decimal exponent.\<close>

definition signed_value :: "ustr \<Rightarrow> int" where
  "signed_value s =
     (if starts_with [0x2D] s then - int (dec_value (drop 1 s))
      else if starts_with [0x2B] s then int (dec_value (drop 1 s))
      else int (dec_value s))"

definition number_parts :: "ustr \<Rightarrow> bool \<times> nat \<times> int" where
  "number_parts s =
     (let neg = starts_with [0x2D] s;
          body = (if neg then drop 1 s else s);
          ip = takeWhile is_digit body;
          r = dropWhile is_digit body;
          fp = (if starts_with [0x2E] r then takeWhile is_digit (drop 1 r) else []);
          r' = (if starts_with [0x2E] r then dropWhile is_digit (drop 1 r) else r)
      in (neg, dec_value (ip @ fp), signed_value (drop 1 r') - int (length fp)))"

text \<open>
  \<open>decimal.Decimal(s)\<close> signals \<open>InvalidOperation\<close> when the exponent leaves the range of the
  C implementation, whose largest adjusted exponent is \<open>MAX_EMAX\<close> and whose smallest
  exponent is \<open>MIN_ETINY\<close>.
\<close>

definition max_emax :: int where
  "max_emax = 999999999999999999"

definition min_etiny :: int where
  "min_etiny = - 1999999999999999997"

definition decimal_in_range :: "nat \<Rightarrow> int \<Rightarrow> bool" where
  "decimal_in_range c e \<longleftrightarrow> min_etiny \<le> e \<and>
     (if c = 0 then e \<le> max_emax else int (length (dec_digits c)) - 1 + e \<le> max_emax)"

text \<open>\<open>d == d.to_integral_value()\<close> and the magnitude of an integral \<open>d\<close>, with the exponent kept.\<close>

definition decimal_integral :: "nat \<Rightarrow> int \<Rightarrow> bool" where
  "decimal_integral c e \<longleftrightarrow> c = 0 \<or> 0 \<le> e \<or>
     (- e < int (length (dec_digits c)) \<and> c mod 10 ^ nat (- e) = 0)"

definition decimal_below :: "nat \<Rightarrow> int \<Rightarrow> bool" where
  "decimal_below c e \<longleftrightarrow> c = 0 \<or>
     (if 0 \<le> e then int (length (dec_digits c)) + e \<le> 16 \<and> int (c * 10 ^ nat e) < safe_int_limit
      else int (c div 10 ^ nat (- e)) < safe_int_limit)"

definition decimal_int :: "nat \<Rightarrow> int \<Rightarrow> nat" where
  "decimal_int c e = (if c = 0 then 0 else if 0 \<le> e then c * 10 ^ nat e else c div 10 ^ nat (- e))"

definition payload_not_ijson :: exn where
  "payload_not_ijson = IJsonError (lit ''payload-not-ijson'')"

definition payload_not_canonical :: exn where
  "payload_not_canonical = IJsonError (lit ''payload-not-canonical'')"

definition safe_integer_literal :: "ustr \<Rightarrow> json res" where
  "safe_integer_literal s =
     (case number_parts s of (neg, c, e) \<Rightarrow>
        if \<not> decimal_in_range c e then Inl DecimalInvalidOperation
        else if \<not> decimal_integral c e then Inl payload_not_ijson
        else if \<not> decimal_below c e then Inl payload_not_ijson
        else Inr (JInt (if neg then - int (decimal_int c e) else int (decimal_int c e))))"

text \<open>
  \<open>float(s)\<close>, the decoder's default for a literal with a fraction or an exponent: the nearest
  double, ties to even, subnormals kept, an infinity past the largest.  The two cut-offs
  keep the powers of ten small; a magnitude beyond them overflows or vanishes anyway.
\<close>

fun bit_len :: "nat \<Rightarrow> nat" where
  "bit_len n = (if n = 0 then 0 else Suc (bit_len (n div 2)))"

declare bit_len.simps [simp del]

definition round_half_even :: "nat \<Rightarrow> nat \<Rightarrow> nat" where
  "round_half_even n d =
     (let q = n div d; r = n mod d in
      if 2 * r < d \<or> (2 * r = d \<and> even q) then q else Suc q)"

definition nearest_double :: "nat \<Rightarrow> nat \<Rightarrow> pyfloat" where
  "nearest_double n d =
     (let k = int (bit_len n) - int (bit_len d);
          top = (if d * 2 ^ nat k \<le> n * 2 ^ nat (- k) then k else k - 1);
          e = max (- 1074) (top - 52);
          m = round_half_even (n * 2 ^ nat (- e)) (d * 2 ^ nat e)
      in if 2 ^ 1024 \<le> m * 2 ^ nat e div 2 ^ nat (- e) then PosInf
         else Finite (of_nat (m * 2 ^ nat e) / of_nat (2 ^ nat (- e))))"

definition py_float :: "ustr \<Rightarrow> pyfloat" where
  "py_float s =
     (case number_parts s of (neg, c, e) \<Rightarrow>
        let n = int (length (dec_digits c));
            f = (if c = 0 \<or> n + e < - 400 then Finite 0
                 else if n + e > 400 then PosInf
                 else nearest_double (c * 10 ^ nat e) (10 ^ nat (- e)))
        in (if neg then (case f of Finite q \<Rightarrow> Finite (- q) | PosInf \<Rightarrow> NegInf | NegInf \<Rightarrow> PosInf | NaN \<Rightarrow> NaN)
            else f))"

definition float_literal :: "ustr \<Rightarrow> json res" where
  "float_literal s = Inr (JFloat (py_float s))"

subsection \<open>Hooks and walks\<close>

definition reject_dup_pairs :: "dict \<Rightarrow> dict res" where
  "reject_dup_pairs ps =
     rfold (\<lambda>d m. if dmem d (fst m) then Inl payload_not_ijson else Inr (dset d (fst m) (snd m))) [] ps"

fun walk_check_ints :: "json \<Rightarrow> unit res" where
  "walk_check_ints (JInt i) = raise_if (\<bar>i\<bar> \<ge> safe_int_limit) payload_not_ijson"
| "walk_check_ints (JFloat f) = Inl payload_not_ijson"
| "walk_check_ints (JArr xs) = rbind (rmap walk_check_ints xs) (\<lambda>_. Inr ())"
| "walk_check_ints (JObj d) = rbind (rmap (\<lambda>m. walk_check_ints (snd m)) d) (\<lambda>_. Inr ())"
| "walk_check_ints _ = Inr ()"

definition max_parse_depth :: int where
  "max_parse_depth = 128"

definition max_parse_bytes :: nat where
  "max_parse_bytes = 20 * 2 ^ 20"

definition max_statement_bytes :: nat where
  "max_statement_bytes = 64 * 2 ^ 20"

text \<open>The loop of \<open>_max_json_depth\<close>; its state is \<open>depth\<close>, \<open>maxd\<close>, \<open>in_str\<close> and \<open>esc\<close>.\<close>

record depth_state =
  depth :: int
  maxd :: int
  in_str :: bool
  esc :: bool

definition depth_step :: "depth_state \<Rightarrow> nat \<Rightarrow> depth_state" where
  "depth_step st c =
     (if in_str st then
        (if esc st then st\<lparr>esc := False\<rparr>
         else if c = 0x5C then st\<lparr>esc := True\<rparr>
         else if c = 0x22 then st\<lparr>in_str := False\<rparr>
         else st)
      else if c = 0x22 then st\<lparr>in_str := True\<rparr>
      else if c = 0x5B \<or> c = 0x7B then st\<lparr>depth := depth st + 1, maxd := max (maxd st) (depth st + 1)\<rparr>
      else if c = 0x5D \<or> c = 0x7D then st\<lparr>depth := depth st - 1\<rparr>
      else st)"

definition max_json_depth :: "ustr \<Rightarrow> int" where
  "max_json_depth text = maxd (foldl depth_step \<lparr>depth = 0, maxd = 0, in_str = False, esc = False\<rparr> text)"

subsection \<open>The three parsers\<close>

text \<open>
  \<open>except IJsonError: raise\<close> and \<open>except (ValueError, RecursionError)\<close>.  An \<open>InvalidOperation\<close>
  is an \<open>ArithmeticError\<close> and passes both.
\<close>

fun catch_value_error :: "'a res \<Rightarrow> exn \<Rightarrow> 'a res" where
  "catch_value_error (Inl ValueError) e = Inl e"
| "catch_value_error (Inl IntegerTooLong) e = Inl e"
| "catch_value_error r e = r"

fun catch_not_scalar :: "unit res \<Rightarrow> exn \<Rightarrow> unit res" where
  "catch_not_scalar (Inl StringNotScalarError) e = Inl e"
| "catch_not_scalar r e = r"

definition parse_json_value :: "bytes \<Rightarrow> json res" where
  "parse_json_value raw =
     (if max_parse_bytes < length raw then Inl payload_not_ijson
      else (case utf8_decode raw of
        None \<Rightarrow> Inl payload_not_ijson
      | Some text \<Rightarrow>
          if max_parse_depth < max_json_depth text then Inl payload_not_ijson
          else rbind (catch_value_error (json_loads safe_integer_literal reject_dup_pairs text)
                        payload_not_ijson) (\<lambda>obj.
               rbind (catch_not_scalar (check_string_scalars raw) payload_not_ijson) (\<lambda>_. Inr obj))))"

fun catch_jcs :: "bytes res \<Rightarrow> exn \<Rightarrow> bytes res" where
  "catch_jcs (Inl JcsError) e = Inl e"
| "catch_jcs r e = r"

definition strict_payload_parse :: "bytes \<Rightarrow> dict res" where
  "strict_payload_parse raw =
     rbind (parse_json_value raw) (\<lambda>obj.
       case obj of
         JObj d \<Rightarrow>
           if \<not> member_names_bmp obj then Inl payload_not_canonical
           else rbind (walk_check_ints obj) (\<lambda>_.
                rbind (catch_jcs (jcs_dumps obj) payload_not_ijson) (\<lambda>cb.
                  if cb \<noteq> raw then Inl payload_not_canonical else Inr d))
       | _ \<Rightarrow> Inl payload_not_canonical)"

text \<open>
  \<open>_statement_strict_fault\<close>.  The hook's \<open>found\<close> flag is read off the decoded value with
  every pair kept: it is set when some object repeats a member.
\<close>

fun has_dup :: "json \<Rightarrow> bool" where
  "has_dup (JObj d) = (\<not> distinct (map fst d) \<or> list_ex (\<lambda>m. has_dup (snd m)) d)"
| "has_dup (JArr xs) = list_ex has_dup xs"
| "has_dup _ = False"

definition statement_strict_fault :: "bytes \<Rightarrow> bool res" where
  "statement_strict_fault raw =
     (if max_parse_bytes < length raw then Inr True
      else (case utf8_decode raw of
        None \<Rightarrow> Inr True
      | Some text \<Rightarrow>
          if max_parse_depth < max_json_depth text then Inr True
          else (case json_loads float_literal Inr text of
            Inl ValueError \<Rightarrow> Inr True
          | Inl IntegerTooLong \<Rightarrow> Inr True
          | Inl e \<Rightarrow> Inl e
          | Inr v \<Rightarrow>
              if has_dup v then Inr True
              else (case check_string_scalars raw of
                Inl StringNotScalarError \<Rightarrow> Inr True
              | Inl e \<Rightarrow> Inl e
              | Inr _ \<Rightarrow> Inr False))))"

text \<open>What every later check reads: \<open>json.loads\<close> with its default hooks.\<close>

definition json_loads_default :: "ustr \<Rightarrow> json res" where
  "json_loads_default text = json_loads float_literal (\<lambda>ps. Inr (dict_of_pairs ps)) text"

subsection \<open>The number profile\<close>

text \<open>The rational a literal denotes.\<close>

definition literal_value :: "ustr \<Rightarrow> rat" where
  "literal_value s =
     (case number_parts s of (neg, c, e) \<Rightarrow> (if neg then - 1 else 1) * of_nat c * 10 powi e)"

definition literal_in_range :: "ustr \<Rightarrow> bool" where
  "literal_in_range s \<longleftrightarrow> (case number_parts s of (neg, c, e) \<Rightarrow> decimal_in_range c e)"

lemma dec_digits_bound: "n < 10 ^ length (dec_digits n)"
proof (induction n rule: dec_digits.induct)
  case (1 n)
  show ?case
  proof (cases "n < 10")
    case True
    then show ?thesis by (subst dec_digits.simps) simp
  next
    case False
    with 1 have "n div 10 < 10 ^ length (dec_digits (n div 10))" by simp
    then show ?thesis using False by (subst dec_digits.simps) simp
  qed
qed

lemma dec_digits_lower: "0 < n \<Longrightarrow> 10 ^ (length (dec_digits n) - 1) \<le> n"
proof (induction n rule: dec_digits.induct)
  case (1 n)
  show ?case
  proof (cases "n < 10")
    case True
    with 1 show ?thesis by (subst dec_digits.simps) simp
  next
    case False
    then have "10 ^ (length (dec_digits (n div 10)) - 1) \<le> n div 10" using 1 by simp
    moreover obtain m where "length (dec_digits (n div 10)) = Suc m" by (cases "dec_digits (n div 10)") auto
    ultimately show ?thesis using False by (subst dec_digits.simps) simp
  qed
qed

lemma powi_neg: "e < 0 \<Longrightarrow> x * 10 powi e = (x / 10 ^ nat (- e) :: rat)"
  unfolding power_int_def by (simp only: if_False not_le divide_inverse power_inverse [symmetric] if_not_P)

lemma decimal_split:
  assumes "0 < c"
  shows "decimal_integral c e \<longleftrightarrow> (\<exists>i::int. of_int i = (of_nat c * 10 powi e :: rat))"
proof (cases "0 \<le> e")
  case True
  then have "of_int (int (c * 10 ^ nat e)) = (of_nat c * 10 powi e :: rat)"
    by (simp add: power_int_def)
  then have "\<exists>i::int. of_int i = (of_nat c * 10 powi e :: rat)" ..
  then show ?thesis using True by (simp add: decimal_integral_def)
next
  case False
  define k where "k = nat (- e)"
  have v: "of_nat c * 10 powi e = (of_nat c / 10 ^ k :: rat)"
    using False by (simp only: powi_neg k_def not_le)
  have "(\<exists>i::int. of_int i = (of_nat c / 10 ^ k :: rat)) \<longleftrightarrow> 10 ^ k dvd c"
  proof
    assume "\<exists>i::int. of_int i = (of_nat c / 10 ^ k :: rat)"
    then obtain i :: int where "of_int i * 10 ^ k = (of_nat c :: rat)" by (auto simp: field_simps)
    then have "of_int (i * 10 ^ k) = (of_int (int c) :: rat)" by simp
    then have "i * 10 ^ k = int c" by (simp only: of_int_eq_iff)
    then have "int (10 ^ k) dvd int c" by (metis dvd_triv_right of_nat_numeral of_nat_power)
    then show "10 ^ k dvd c" by (simp only: int_dvd_int_iff)
  next
    assume "10 ^ k dvd c"
    then obtain m where "c = 10 ^ k * m" ..
    then have "of_int (int m) = (of_nat c / 10 ^ k :: rat)" by simp
    then show "\<exists>i::int. of_int i = (of_nat c / 10 ^ k :: rat)" ..
  qed
  moreover have "k < length (dec_digits c)" if "10 ^ k dvd c"
  proof -
    have "10 ^ k \<le> c" using that assms by (rule dvd_imp_le)
    then have "(10::nat) ^ k < 10 ^ length (dec_digits c)" using dec_digits_bound by (rule le_less_trans)
    then show ?thesis by (simp add: power_strict_increasing_iff)
  qed
  moreover have "decimal_integral c e \<longleftrightarrow> k < length (dec_digits c) \<and> 10 ^ k dvd c"
    using False assms by (auto simp: decimal_integral_def k_def dvd_eq_mod_eq_0)
  ultimately show ?thesis unfolding v by blast
qed

lemma decimal_int_value:
  assumes "decimal_integral c e"
  shows "of_nat (decimal_int c e) = (of_nat c * 10 powi e :: rat)"
proof (cases "c = 0 \<or> 0 \<le> e")
  case True
  then show ?thesis by (auto simp: decimal_int_def power_int_def)
next
  case False
  define k where "k = nat (- e)"
  have "10 ^ k dvd c" using assms False by (auto simp: decimal_integral_def k_def dvd_eq_mod_eq_0)
  then obtain m where "c = 10 ^ k * m" ..
  then have "of_nat (c div 10 ^ k) = (of_nat c / 10 ^ k :: rat)" by simp
  then show ?thesis using False
    by (simp add: decimal_int_def powi_neg k_def)
qed

lemma decimal_below_iff: "decimal_integral c e \<Longrightarrow> decimal_below c e \<longleftrightarrow> int (decimal_int c e) < safe_int_limit"
proof -
  assume "decimal_integral c e"
  have "int (length (dec_digits c)) + e \<le> 16" if c: "0 < c" "0 \<le> e" "int (c * 10 ^ nat e) < safe_int_limit"
  proof -
    obtain m where m: "length (dec_digits c) = Suc m" by (cases "dec_digits c") auto
    have "10 ^ m * 10 ^ nat e \<le> c * 10 ^ nat e"
      using dec_digits_lower [OF c(1)] m by (intro mult_right_mono) auto
    moreover have "int (c * 10 ^ nat e) < int (10 ^ 16)"
      using c(3) by (simp add: safe_int_limit_def)
    then have "c * 10 ^ nat e < 10 ^ 16" by (simp only: of_nat_less_iff)
    ultimately have "(10::nat) ^ (m + nat e) < 10 ^ 16" unfolding power_add by (rule le_less_trans)
    then have "m + nat e < 16" by (simp only: power_strict_increasing_iff)
    then show ?thesis using m c(2) by simp
  qed
  then show ?thesis
    by (cases "c = 0") (auto simp: decimal_below_def decimal_int_def safe_int_limit_def simp del: of_nat_mult of_nat_power)
qed

text \<open>
  The literal's exact value decides: an integer inside the safe range is returned, however
  it is spelt, and anything else is refused.
\<close>

theorem safe_integer_literal_iff:
  "safe_integer_literal s = Inr v \<longleftrightarrow>
     literal_in_range s \<and> (\<exists>i. literal_value s = of_int i \<and> \<bar>i\<bar> < safe_int_limit \<and> v = JInt i)"
proof -
  obtain neg c e where p: "number_parts s = (neg, c, e)" by (cases "number_parts s") auto
  let ?x = "of_nat c * 10 powi e :: rat"
  have int: "decimal_integral c e \<longleftrightarrow> (\<exists>i::int. of_int i = ?x)"
    using decimal_split [of c e] by (cases "c = 0") (auto simp: decimal_integral_def)
  show ?thesis
  proof (cases "decimal_integral c e")
    case False
    then have "\<not> (\<exists>i. literal_value s = of_int i)"
      using int unfolding literal_value_def p by (auto split: if_splits) (metis minus_minus of_int_minus)
    with False p show ?thesis by (auto simp: safe_integer_literal_def)
  next
    case True
    let ?i = "if neg then - int (decimal_int c e) else int (decimal_int c e)"
    have "literal_value s = of_int ?i"
      using decimal_int_value [OF True] by (simp add: literal_value_def p)
    then have "literal_value s = of_int i \<longleftrightarrow> i = ?i" for i by auto
    with True p decimal_below_iff [OF True] show ?thesis
      by (auto simp: safe_integer_literal_def literal_in_range_def)
  qed
qed

text \<open>Beyond the decimal range the conversion itself raises, and no handler of the parser takes it.\<close>

lemma safe_integer_literal_raises:
  "\<not> literal_in_range s \<Longrightarrow> safe_integer_literal s = Inl DecimalInvalidOperation"
  by (auto simp: safe_integer_literal_def literal_in_range_def split: prod.splits)

subsection \<open>The object hooks\<close>

lemma reject_dup_pairs_fold:
  "distinct (map fst d) \<Longrightarrow>
   rfold (\<lambda>d m. if dmem d (fst m) then Inl payload_not_ijson else Inr (dset d (fst m) (snd m))) d ps =
     (if distinct (map fst (d @ ps)) then Inr (d @ ps) else Inl payload_not_ijson)"
proof (induction ps arbitrary: d)
  case (Cons m ps)
  show ?case
  proof (cases "dmem d (fst m)")
    case True
    then show ?thesis by (auto simp: dmem_def)
  next
    case False
    then have "dset d (fst m) (snd m) = d @ [m]" by (simp add: dset_fresh dmem_def)
    moreover have "distinct (map fst (d @ [m]))" using False Cons.prems by (auto simp: dmem_def)
    ultimately show ?thesis using Cons.IH [of "d @ [m]"] False by simp
  qed
qed simp

lemma reject_dup_pairs_eq:
  "reject_dup_pairs ps = (if distinct (map fst ps) then Inr ps else Inl payload_not_ijson)"
  using reject_dup_pairs_fold [of "[]" ps] by (simp add: reject_dup_pairs_def)

lemma keeps_distinct_hooks [simp]:
  "keeps_distinct reject_dup_pairs" "keeps_distinct Inr" "keeps_distinct (\<lambda>ps. Inr (dict_of_pairs ps))"
  by (simp_all add: keeps_distinct_def reject_dup_pairs_eq dict_of_pairs_distinct)

lemma safe_literal_JInt: "safe_integer_literal s = Inr v \<Longrightarrow> \<exists>i. v = JInt i"
  by (auto simp: safe_integer_literal_iff)

lemma hooks_plain_strict: "hooks_plain safe_integer_literal reject_dup_pairs"
  by (auto simp: hooks_plain_def reject_dup_pairs_eq split: if_splits dest!: safe_literal_JInt)

lemma hooks_plain_default: "hooks_plain float_literal Inr"
  by (auto simp: hooks_plain_def float_literal_def)

end
