(* ===== verification/Ijson_Laws.thy ===== *)
theory Ijson_Laws
  imports Ijson
begin

section \<open>What the strict parsers accept\<close>

text \<open>
  The laws of \<open>Ijson\<close>: every decoded value satisfies what its scalars and containers
  satisfy, the string scan accepts canonical text, a payload is accepted exactly when it is
  the canonical serialization of a value of the profile within the bounds, and the
  whole-statement pass is total and sound.
\<close>

subsection \<open>What the decoder can return\<close>

text \<open>A property of values that scalars have and containers inherit holds of every decoded value.\<close>

lemma parse_all:
  assumes str: "\<And>s. P (JStr s)"
    and scalar: "\<And>s v r. read_scalar pf s = Inr (v, r) \<Longrightarrow> P v"
    and arr: "\<And>xs. list_all P xs \<Longrightarrow> P (JArr xs)"
    and obj: "\<And>ps d. list_all (\<lambda>m. P (snd m)) ps \<Longrightarrow> ph ps = Inr d \<Longrightarrow> P (JObj d)"
  shows "parse_value pf ph n s = Inr (v, r) \<Longrightarrow> P v"
    "parse_items pf ph n s = Inr (vs, r) \<Longrightarrow> list_all P vs"
    "parse_members pf ph n s = Inr (ms, r) \<Longrightarrow> list_all (\<lambda>m. P (snd m)) ms"
proof (induction n arbitrary: s v r vs ms)
  case (Suc n)
  {
    case 1
    then obtain c s' where s: "s = c # s'" by (cases s) (auto simp: parse_value.simps(2))
    consider "c = 0x22" | "c = 0x5B" | "c = 0x7B" | "c \<notin> {0x22, 0x5B, 0x7B}" by blast
    then show ?case
    proof cases
      case 2
      with 1 s have "v = JArr [] \<or> (\<exists>xs. parse_items pf ph n (skip_ws s') = Inr (xs, r) \<and> v = JArr xs)"
        by (auto simp: parse_value.simps(2) rbind_eq_Inr split: list.splits if_splits)
      then show ?thesis using Suc.IH(2) arr [of "[]"] arr by auto
    next
      case 3
      with 1 s consider d where "ph [] = Inr d" "v = JObj d"
        | ps d where "parse_members pf ph n (skip_ws s') = Inr (ps, r)" "ph ps = Inr d" "v = JObj d"
        by (auto simp: parse_value.simps(2) rbind_eq_Inr split: list.splits if_splits)
      then show ?thesis
      proof cases
        case 1
        then show ?thesis using obj [of "[]"] by simp
      next
        case 2
        then show ?thesis using obj [OF Suc.IH(3)] by simp
      qed
    qed (use 1 s str scalar in \<open>auto simp: parse_value.simps(2) split: option.splits\<close>)
  next
    case 2
    then obtain v0 r0 c r1 where "parse_value pf ph n s = Inr (v0, r0)"
      "vs = [v0] \<or> (\<exists>us. parse_items pf ph n (skip_ws r1) = Inr (us, r) \<and> vs = v0 # us)"
      by (rule parse_items_InrE) blast
    then show ?case using Suc.IH(1,2) by fastforce
  next
    case 3
    then obtain k r1 v0 r2 r3 where "parse_value pf ph n (skip_ws r1) = Inr (v0, r2)"
      "ms = [(k, v0)] \<or> (\<exists>us. parse_members pf ph n (skip_ws r3) = Inr (us, r) \<and> ms = (k, v0) # us)"
      by (rule parse_members_InrE) blast
    then show ?case using Suc.IH(1,3) by fastforce
  }
qed simp_all

lemma json_loads_scalar:
  assumes "\<And>s. P (JStr s)" "\<And>s v r. read_scalar pf s = Inr (v, r) \<Longrightarrow> P v" "\<And>xs. list_all P xs \<Longrightarrow> P (JArr xs)"
    and "\<And>ps d. list_all (\<lambda>m. P (snd m)) ps \<Longrightarrow> ph ps = Inr d \<Longrightarrow> P (JObj d)"
    and "json_loads pf ph s = Inr v"
  shows "P v"
proof -
  from assms(5) obtain r where "parse_value pf ph (2 * length s + 1) (skip_ws s) = Inr (v, r)"
    by (auto simp: json_loads_def rbind_eq_Inr split: if_splits)
  with assms(1-4) show ?thesis by (rule parse_all(1) [where P = P])
qed

lemma json_loads_all:
  assumes "P JNull" "\<And>b. P (JBool b)" "\<And>i. P (JInt i)" "\<And>f. P (JFloat f)" "\<And>s. P (JStr s)"
    and "\<And>s v. pf s = Inr v \<Longrightarrow> P v" "\<And>xs. list_all P xs \<Longrightarrow> P (JArr xs)"
    and "\<And>ps d. list_all (\<lambda>m. P (snd m)) ps \<Longrightarrow> ph ps = Inr d \<Longrightarrow> P (JObj d)"
    and "json_loads pf ph s = Inr v"
  shows "P v"
proof (rule json_loads_scalar [where P = P, OF assms(5) _ assms(7,8,9)])
  fix s v r assume "read_scalar pf s = Inr (v, r)"
  then show "P v" using assms(1-6)
    by (auto simp: read_scalar_def read_number_def int_literal_def Let_def rbind_eq_Inr
        split: option.splits if_splits prod.splits)
qed

text \<open>No object of the value repeats a member.\<close>

lemma json_loads_strict_uniq:
  assumes "json_loads safe_integer_literal reject_dup_pairs s = Inr v"
  shows "\<not> has_dup v"
  by (rule json_loads_all [where P = "\<lambda>v. \<not> has_dup v", OF _ _ _ _ _ _ _ _ assms])
    (auto simp: reject_dup_pairs_eq list_all_iff list_ex_iff split: if_splits dest!: safe_literal_JInt)

lemma profile_value:
  assumes "\<not> has_dup v" "member_names_bmp v" "walk_check_ints v = Inr ()" "ijson_strings v"
  shows "jcs_value v"
  using assms
proof (induction v rule: walk_check_ints.induct)
  case (3 xs)
  then show ?case by (fastforce simp: rbind_eq_Inr rmap_eq_Inr list_all_iff list_ex_iff list_all2_conv_all_nth in_set_conv_nth)
next
  case (4 d)
  have "walk_check_ints (snd m) = Inr ()" if "m \<in> set d" for m
    using 4(4) that by (fastforce simp: rbind_eq_Inr rmap_eq_Inr list_all2_conv_all_nth in_set_conv_nth)
  then have "jcs_value (snd m)" if "m \<in> set d" for m
    using 4(1) [OF that] 4(2,3,5) that by (auto simp: list_all_iff list_ex_iff)
  then show ?case using 4(2,3,5)
    by (auto simp: list_all_iff all_bmp_def ijson_string_def ijson_char_def scalars_def)
qed auto

lemma jcs_value_profile:
  assumes "jcs_value v"
  shows "\<not> has_dup v \<and> member_names_bmp v \<and> walk_check_ints v = Inr ()"
  using assms
proof (induction v rule: walk_check_ints.induct)
  case (1 i)
  then show ?case by (simp add: raise_if_def)
next
  case (3 xs)
  then have "rmap walk_check_ints xs = Inr (map (\<lambda>_. ()) xs)" by (intro rmap_total) (auto simp: list_all_iff)
  with 3 show ?case by (auto simp: list_all_iff list_ex_iff)
next
  case (4 d)
  then have "rmap (\<lambda>m. walk_check_ints (snd m)) d = Inr (map (\<lambda>_. ()) d)"
    by (intro rmap_total) (auto simp: list_all_iff)
  with 4 show ?case by (auto simp: list_all_iff list_ex_iff all_bmp_def)
qed auto

subsection \<open>The scan accepts canonical text\<close>

text \<open>The scan runs through a text without stopping, whatever follows it.\<close>

definition scans :: "ustr \<Rightarrow> bool" where
  "scans t \<longleftrightarrow> scalars t \<and> (\<forall>b. check_string_scalars (utf8_bytes t @ b) = check_string_scalars b)"

lemma utf8_bytes_append: "utf8_bytes (s @ t) = utf8_bytes s @ utf8_bytes t"
  by (simp add: utf8_bytes_def)

lemma scans_append: "scans s \<Longrightarrow> scans t \<Longrightarrow> scans (s @ t)"
  by (simp add: scans_def utf8_bytes_append)

lemma utf8_bytes_no_quote: "0x22 \<notin> set t \<Longrightarrow> \<forall>x \<in> set (utf8_bytes t). x \<noteq> 0x22"
  by (induction t) (auto dest: utf8_char_no_quote)

lemma scans_no_quote: "0x22 \<notin> set t \<Longrightarrow> scalars t \<Longrightarrow> scans t"
  unfolding scans_def by (intro conjI allI check_string_scalars_skip utf8_bytes_no_quote)

lemma scans_Cons: "c \<noteq> 0x22 \<Longrightarrow> scalar c \<Longrightarrow> scans t \<Longrightarrow> scans (c # t)"
  using scans_append [of "[c]" t] scans_no_quote [of "[c]"] by simp

lemma literal_rest_plain:
  assumes "ijson_char c" "0x20 \<le> c" "c \<noteq> 0x22" "c \<noteq> 0x5C" "literal_rest b = Inr n"
  shows "literal_rest (utf8_char c @ b) = Inr (length (utf8_char c) + n)"
proof (cases "c < 0x80")
  case True
  then show ?thesis using assms by (simp add: utf8_char_def literal_rest.simps(2))
next
  case False
  have s: "scalar c" "\<not> is_noncharacter c" using assms(1) by (auto simp: ijson_char_def)
  obtain x bs where x: "utf8_char c = x # bs" "\<not> x < 0x80" "utf8_seq_len x = Suc (length bs)"
    using utf8_seq_len_char [OF s(1) False] by blast
  moreover have "utf8_decode (x # bs) = Some [c]" using utf8_decode_encode [of "[c]"] s(1) x by simp
  ultimately show ?thesis using assms(5) s(2) by (simp add: literal_rest.simps(2) Let_def)
qed

lemma literal_rest_jcs_char:
  assumes "ijson_char c" "literal_rest b = Inr n"
  shows "literal_rest (utf8_bytes (jcs_char c) @ b) = Inr (length (utf8_bytes (jcs_char c)) + n)"
proof -
  consider "c = 0x22 \<or> c = 0x5C" | "c < 0x20" "c \<in> {0x08, 0x09, 0x0A, 0x0C, 0x0D}"
    | "c < 0x20" "c \<notin> {0x08, 0x09, 0x0A, 0x0C, 0x0D}" | "c \<ge> 0x20" "c \<noteq> 0x22" "c \<noteq> 0x5C"
    by fastforce
  then show ?thesis
  proof cases
    case 1
    then show ?thesis using assms(2)
      by (elim disjE) (simp_all add: jcs_char_def utf8_char_def literal_rest.simps(2) check_escape_def)
  next
    case 2
    then have "\<exists>e. e < 0x80 \<and> e \<noteq> 0x75 \<and> jcs_char c = [0x5C, e]"
      by (auto simp: jcs_char_def jcs_ctrl_def)
    then show ?thesis using assms(2)
      by (auto simp: utf8_char_def literal_rest.simps(2) check_escape_def)
  next
    case 3
    let ?p = "c div 16" and ?q = "c mod 16"
    have h: "hex_digit ?p < 0x80" "hex_digit ?q < 0x80" using 3(1) by (auto simp: hex_digit_def)
    have z: "hex_val 0x30 = Some 0" by (simp add: hex_val_def)
    have v: "hex4 (0x30 # 0x30 # hex_digit ?p # hex_digit ?q # b) = Some c"
      using 3(1) z by (simp add: hex_val_digit)
    have "\<not> is_noncharacter c" using 3(1) by (intro ascii_not_noncharacter) simp
    then have "check_escape (0x5C # 0x75 # 0x30 # 0x30 # hex_digit ?p # hex_digit ?q # b) = Inr 6"
      using 3(1) v by (simp add: check_escape_def del: hex4_Cons)
    then show ?thesis using 3 h assms(2)
      by (simp add: jcs_char_def jcs_ctrl_def utf8_char_def literal_rest.simps(2))
  next
    case 4
    then show ?thesis using literal_rest_plain [OF assms(1) 4(1) 4(2,3) assms(2)]
      by (simp add: jcs_char_def)
  qed
qed

lemma literal_rest_body:
  "ijson_string s \<Longrightarrow> literal_rest (utf8_bytes (concat (map jcs_char s)) @ 0x22 # b)
     = Inr (length (utf8_bytes (concat (map jcs_char s))) + 1)"
proof (induction s)
  case Nil
  show ?case by (simp add: literal_rest.simps(2))
next
  case (Cons c s)
  then show ?case using literal_rest_jcs_char [of c]
    by (simp add: ijson_string_def utf8_bytes_append)
qed

lemma ijson_scalars: "ijson_string s \<Longrightarrow> scalars s"
  by (auto simp: ijson_string_def ijson_char_def scalars_def list_all_iff)

lemma jcs_string_scalars: "scalars s \<Longrightarrow> scalars (jcs_string s)"
  by (induction s) (auto simp: jcs_string_def jcs_char_def jcs_ctrl_def scalars_def scalar_def
      is_surrogate_def hex_digit_def split: if_splits)

lemma scans_string: "ijson_string s \<Longrightarrow> scans (jcs_string s)"
  using literal_rest_body [of s] jcs_string_scalars [OF ijson_scalars, of s]
  by (simp add: scans_def jcs_string_def utf8_char_def utf8_bytes_append check_string_scalars.simps(2)
      check_string_literal_def)

lemma scans_join: "list_all scans ts \<Longrightarrow> scans (comma_join ts)"
  by (induction ts rule: comma_join.induct)
    (simp_all add: scans_append scans_Cons scans_no_quote scalar_def is_surrogate_def)

lemma lit_scalars: "scalars (lit s)"
  by (auto simp: scalars_def scalar_def is_surrogate_def list_all_iff dest!: set_lit_less)

lemma str_of_int_no_quote: "0x22 \<notin> set (str_of_int i) \<and> scalars (str_of_int i)"
  using dec_digits_digits [of "nat i"] dec_digits_digits [of "nat (- i)"]
  by (auto simp: str_of_int_def list_all_iff is_digit_def scalars_def scalar_def is_surrogate_def)

lemma keyword_no_quote: "0x22 \<notin> set (lit ''null'') \<and> 0x22 \<notin> set (lit ''true'') \<and> 0x22 \<notin> set (lit ''false'')"
  by (simp add: lit_def)

lemma scans_jcs_ser: "ijson_strings v \<Longrightarrow> jcs_value v \<Longrightarrow> jcs_ser v = Inr t \<Longrightarrow> scans t"
proof (induction v arbitrary: t rule: jcs_ser.induct)
  case (6 xs)
  from "6.prems"(3) obtain ts where t: "rmap jcs_ser xs = Inr ts" "t = 0x5B # comma_join ts @ [0x5D]"
    by (auto simp: rbind_eq_Inr)
  have "list_all scans ts"
    unfolding list_all_length
  proof (intro allI impI)
    fix i assume "i < length ts"
    then show "scans (ts ! i)" using t(1) "6.prems"(1,2)
      by (intro "6.IH" [of "xs ! i"]) (auto simp: rmap_eq_Inr list_all2_conv_all_nth list_all_length)
  qed
  then show ?case unfolding t(2) by (intro scans_Cons scans_append scans_join scans_no_quote) (auto simp: scalar_def is_surrogate_def)
next
  case (7 d)
  from "7.prems"(3) obtain ts where t: "t = 0x7B # comma_join ts @ [0x7D]"
    and ts: "rmap (\<lambda>m. rbind (jcs_ser (snd m)) (\<lambda>u. Inr (jcs_string (fst m) @ 0x3A # u))) (sort_members d) = Inr ts"
    and ns: "\<not> list_ex (\<lambda>m. list_ex is_surrogate (fst m)) d"
    by (auto simp: rbind_eq_Inr split: if_splits)
  have "list_all scans ts"
    unfolding list_all_length
  proof (intro allI impI)
    fix i assume i: "i < length ts"
    let ?m = "sort_members d ! i"
    have m: "?m \<in> set (sort_members d)" using i ts by (simp add: rmap_eq_Inr list_all2_conv_all_nth del: set_sort_members)
    obtain u where u: "jcs_ser (snd ?m) = Inr u" "ts ! i = jcs_string (fst ?m) @ 0x3A # u"
      using i ts by (auto simp: rmap_eq_Inr list_all2_conv_all_nth rbind_eq_Inr)
    have "scans u" using "7.IH" [OF ns m _ _ u(1)] m "7.prems" by (auto simp: list_all_iff)
    moreover have "ijson_string (fst ?m)" using m "7.prems" by (auto simp: list_all_iff)
    ultimately show "scans (ts ! i)" unfolding u(2) by (intro scans_append scans_Cons scans_string) (auto simp: scalar_def is_surrogate_def)
  qed
  then show ?case unfolding t by (intro scans_Cons scans_append scans_join scans_no_quote) (auto simp: scalar_def is_surrogate_def)
qed (auto intro!: scans_no_quote scans_string simp: str_of_int_no_quote lit_scalars keyword_no_quote split: if_splits)

subsection \<open>Which payloads are accepted\<close>

lemma parse_json_value_Inr:
  "parse_json_value raw = Inr v \<longleftrightarrow>
     length raw \<le> max_parse_bytes \<and>
     (\<exists>text. utf8_decode raw = Some text \<and> max_json_depth text \<le> max_parse_depth \<and>
       json_loads safe_integer_literal reject_dup_pairs text = Inr v \<and> check_string_scalars raw = Inr ())"
proof -
  have c: "catch_value_error r e = Inr x \<longleftrightarrow> r = Inr x" if "e = payload_not_ijson" for r :: "json res" and e x
    by (cases "(r, e)" rule: catch_value_error.cases) auto
  have d: "catch_not_scalar r e = Inr x \<longleftrightarrow> r = Inr x" for r e x
    by (cases "(r, e)" rule: catch_not_scalar.cases) auto
  show ?thesis
    by (auto simp: parse_json_value_def rbind_eq_Inr c d split: option.splits)
qed

lemma catch_jcs_Inr: "catch_jcs r e = Inr x \<longleftrightarrow> r = Inr x"
  by (cases "(r, e)" rule: catch_jcs.cases) auto

lemma strict_payload_parse_Inr:
  "strict_payload_parse raw = Inr d \<longleftrightarrow>
     parse_json_value raw = Inr (JObj d) \<and> member_names_bmp (JObj d) \<and>
     walk_check_ints (JObj d) = Inr () \<and> jcs_dumps (JObj d) = Inr raw"
proof (cases "parse_json_value raw")
  case (Inr obj)
  then show ?thesis
    by (cases obj) (auto simp: strict_payload_parse_def rbind_eq_Inr catch_jcs_Inr
        simp del: member_names_bmp.simps walk_check_ints.simps)
qed (simp add: strict_payload_parse_def)

text \<open>The values of the integer-only I-JSON profile in canonical member order.\<close>

definition profile_object :: "dict \<Rightarrow> bool" where
  "profile_object d \<longleftrightarrow> jcs_value (JObj d) \<and> ijson_strings (JObj d) \<and> canon (JObj d) = JObj d"

lemma jcs_dumps_text:
  assumes "jcs_value v" "ijson_strings v"
  shows "jcs_dumps v = Inr raw \<longleftrightarrow> (\<exists>t. jcs_ser v = Inr t \<and> scans t \<and> raw = utf8_bytes t)"
proof
  assume "jcs_dumps v = Inr raw"
  then obtain t where t: "jcs_ser v = Inr t" "utf8_encode t = Inr raw" by (auto simp: jcs_dumps_def rbind_eq_Inr)
  with scans_jcs_ser [OF assms(2,1) t(1)] show "\<exists>t. jcs_ser v = Inr t \<and> scans t \<and> raw = utf8_bytes t"
    by (auto dest: utf8_encode_Inr)
next
  assume "\<exists>t. jcs_ser v = Inr t \<and> scans t \<and> raw = utf8_bytes t"
  then show "jcs_dumps v = Inr raw" by (auto simp: jcs_dumps_def scans_def utf8_encode_scalars)
qed

theorem strict_payload_parse_iff:
  "strict_payload_parse raw = Inr d \<longleftrightarrow>
     profile_object d \<and> jcs_dumps (JObj d) = Inr raw \<and> length raw \<le> max_parse_bytes \<and>
     (\<exists>text. utf8_decode raw = Some text \<and> max_json_depth text \<le> max_parse_depth)"
proof
  assume "strict_payload_parse raw = Inr d"
  then have p: "parse_json_value raw = Inr (JObj d)" and b: "member_names_bmp (JObj d)"
    and w: "walk_check_ints (JObj d) = Inr ()" and j: "jcs_dumps (JObj d) = Inr raw"
    unfolding strict_payload_parse_Inr by blast+
  from p obtain tx where dec: "utf8_decode raw = Some tx" and t: "scalars tx" "raw = utf8_bytes tx" "max_json_depth tx \<le> max_parse_depth"
    "json_loads safe_integer_literal reject_dup_pairs tx = Inr (JObj d)" "check_string_scalars raw = Inr ()"
    and l: "length raw \<le> max_parse_bytes"
    unfolding parse_json_value_Inr utf8_decode_iff by blast
  have s: "ijson_strings (JObj d)" using json_loads_passes [OF hooks_plain_strict t(1) _ t(4)] t(2,5) by simp
  have v: "jcs_value (JObj d)" by (rule profile_value [OF json_loads_strict_uniq [OF t(4)] b w s])
  from j obtain u where u: "jcs_ser (JObj d) = Inr u" "scans u" "raw = utf8_bytes u"
    unfolding jcs_dumps_text [OF v s] by blast
  then have "u = tx" using t(1,2) by (auto simp: scans_def intro: utf8_bytes_inj)
  with jcs_ser_parses [OF v keeps_distinct_hooks(1) u(1)] t(4) have "canon (JObj d) = JObj d"
    by simp
  then show "profile_object d \<and> jcs_dumps (JObj d) = Inr raw \<and> length raw \<le> max_parse_bytes \<and>
     (\<exists>text. utf8_decode raw = Some text \<and> max_json_depth text \<le> max_parse_depth)"
    using v s j l t(3) dec unfolding profile_object_def by blast
next
  assume a: "profile_object d \<and> jcs_dumps (JObj d) = Inr raw \<and> length raw \<le> max_parse_bytes \<and>
     (\<exists>text. utf8_decode raw = Some text \<and> max_json_depth text \<le> max_parse_depth)"
  then have v: "jcs_value (JObj d)" and s: "ijson_strings (JObj d)" and c: "canon (JObj d) = JObj d"
    and j: "jcs_dumps (JObj d) = Inr raw" and l: "length raw \<le> max_parse_bytes"
    unfolding profile_object_def by blast+
  from j obtain u where u: "jcs_ser (JObj d) = Inr u" "scans u" "raw = utf8_bytes u"
    unfolding jcs_dumps_text [OF v s] by blast
  then have su: "scalars u" and sc: "check_string_scalars (utf8_bytes u @ []) = Inr ()"
    by (simp_all only: scans_def check_string_scalars.simps)
  from su u(3) a have dep: "max_json_depth u \<le> max_parse_depth" by (auto simp: utf8_decode_encode)
  have "json_loads safe_integer_literal reject_dup_pairs u = Inr (JObj d)"
    using jcs_ser_parses [OF v keeps_distinct_hooks(1) u(1)] c by (simp only:)
  with su u(3) l dep sc have "parse_json_value raw = Inr (JObj d)"
    by (auto simp: parse_json_value_Inr utf8_decode_encode)
  with j jcs_value_profile [OF v] show "strict_payload_parse raw = Inr d"
    unfolding strict_payload_parse_Inr by blast
qed

subsection \<open>The whole-statement pass\<close>

text \<open>The scan fails in one way only: the slice it decodes is always a single character.\<close>

lemma utf8_step_length:
  assumes "utf8_step b = Some (c, r)" "utf8_seq_len (hd b) \<noteq> 0"
  shows "length b = utf8_seq_len (hd b) + length r"
  using assms utf8_step.simps(2) [of "hd b" "tl b"]
  by (cases b) (auto simp: utf8_seq_len_def Let_def split: if_splits list.splits)

lemma utf8_step_take:
  assumes "utf8_step (take n b) = Some (c, r)" "utf8_seq_len (hd b) = n" "n \<noteq> 0" "n \<le> length b"
  shows "r = []"
proof -
  have "hd (take n b) = hd b" using assms(3) by (cases b; cases n) auto
  then show ?thesis using utf8_step_length [OF assms(1)] assms by simp
qed

lemma literal_rest_error: "literal_rest b = Inl e \<Longrightarrow> e = StringNotScalarError"
proof (induction b arbitrary: e rule: literal_rest.induct)
  case (2 c r)
  have one: "\<exists>ch. s = [ch]" if "utf8_decode (take (utf8_seq_len c) (c # r)) = Some s"
    "utf8_seq_len c \<noteq> 0" "utf8_seq_len c \<le> length (c # r)" for s
  proof -
    from that(1,2) obtain ch t where "utf8_step (take (utf8_seq_len c) (c # r)) = Some (ch, t)"
      "map_option ((#) ch) (utf8_decode t) = Some s"
      by (subst (asm) utf8_decode.simps) (auto split: if_splits option.splits)
    with utf8_step_take [of _ "c # r"] that(2,3) show ?thesis by fastforce
  qed
  have esc: "check_escape b = Inl e \<Longrightarrow> e = StringNotScalarError" for b e
    by (auto simp: check_escape_def check_surrogate_pair_def split: if_splits option.splits)
  have rb: "rbind m f = Inl e \<Longrightarrow> m = Inl e \<or> (\<exists>x. m = Inr x \<and> f x = Inl e)" for m :: "nat res" and f :: "nat \<Rightarrow> nat res" and e
    by (cases m) auto
  show ?case using "2.prems" "2.IH" one
    by (auto simp: literal_rest.simps(2) Let_def split: if_splits option.splits list.splits dest!: rb dest: esc)
qed auto

lemma check_string_scalars_error: "check_string_scalars b = Inl e \<Longrightarrow> e = StringNotScalarError"
proof (induction b rule: check_string_scalars.induct)
  case (2 c r)
  show ?case
  proof (cases "check_string_literal (c # r)")
    case (Inl x)
    then have "x = StringNotScalarError"
      by (cases "literal_rest (drop 1 (c # r))") (auto simp: check_string_literal_def dest: literal_rest_error)
    with Inl 2 show ?thesis by (auto simp: check_string_scalars.simps(2) split: if_splits)
  next
    case (Inr x)
    with 2 show ?thesis by (auto simp: check_string_scalars.simps(2) split: if_splits)
  qed
qed simp

text \<open>A text the identity hook decodes without a repeated member decodes alike with \<open>dict\<close>.\<close>

lemma parse_dict_hook:
  "parse_value pf Inr n s = Inr (v, r) \<Longrightarrow> \<not> has_dup v \<Longrightarrow>
     parse_value pf (\<lambda>ps. Inr (dict_of_pairs ps)) n s = Inr (v, r)"
  "parse_items pf Inr n s = Inr (vs, r) \<Longrightarrow> \<not> list_ex has_dup vs \<Longrightarrow>
     parse_items pf (\<lambda>ps. Inr (dict_of_pairs ps)) n s = Inr (vs, r)"
  "parse_members pf Inr n s = Inr (ms, r) \<Longrightarrow> \<not> list_ex (\<lambda>m. has_dup (snd m)) ms \<Longrightarrow>
     parse_members pf (\<lambda>ps. Inr (dict_of_pairs ps)) n s = Inr (ms, r)"
proof (induction n arbitrary: s v r vs ms)
  case (Suc n)
  {
    case 1
    then obtain c s' where s: "s = c # s'" by (cases s) (auto simp: parse_value.simps(2))
    consider "c = 0x22" | "c = 0x5B" | "c = 0x7B" | "c \<notin> {0x22, 0x5B, 0x7B}" by blast
    then show ?case
    proof cases
      case 2
      with 1 s Suc.IH(2) show ?thesis
        by (auto simp: parse_value.simps(2) rbind_eq_Inr split: list.splits if_splits)
    next
      case 3
      with 1 s Suc.IH(3) show ?thesis
        by (auto simp: parse_value.simps(2) rbind_eq_Inr dict_of_pairs_distinct split: list.splits if_splits)
    qed (use 1 s in \<open>auto simp: parse_value.simps(2) split: option.splits\<close>)
  next
    case 2
    from 2(1) obtain v0 r0 c r1 where pv: "parse_value pf Inr n s = Inr (v0, r0)" "skip_ws r0 = c # r1"
      and e: "c = 0x5D \<and> vs = [v0] \<and> r = r1 \<or>
        c = 0x2C \<and> (\<exists>us. parse_items pf Inr n (skip_ws r1) = Inr (us, r) \<and> vs = v0 # us)"
      by (rule parse_items_InrE) blast
    from e 2(2) have "\<not> has_dup v0" by auto
    with Suc.IH(1) [OF pv(1)] e 2(2) Suc.IH(2) pv(2) show ?case
      by (auto simp: parse_items.simps(2) rbind_eq_Inr)
  next
    case 3
    from 3(1) obtain s' k r0 r1 v0 r2 c r3 where pm: "s = 0x22 # s'" "read_string s' = Some (k, r0)"
      "skip_ws r0 = 0x3A # r1" "parse_value pf Inr n (skip_ws r1) = Inr (v0, r2)" "skip_ws r2 = c # r3"
      and e: "c = 0x7D \<and> ms = [(k, v0)] \<and> r = r3 \<or>
        c = 0x2C \<and> (\<exists>us. parse_members pf Inr n (skip_ws r3) = Inr (us, r) \<and> ms = (k, v0) # us)"
      by (rule parse_members_InrE) blast
    from e 3(2) have "\<not> has_dup v0" by auto
    with Suc.IH(1) [OF pm(4)] e 3(2) Suc.IH(3) pm show ?case
      by (auto simp: parse_members.simps(2) rbind_eq_Inr)
  }
qed simp_all

text \<open>
  A statement the pass lets through is well-formed UTF-8 within the bounds, decodes under
  the default hooks, repeats no member at any depth, and holds permitted scalars only.
\<close>

theorem statement_strict_fault_sound:
  assumes "statement_strict_fault raw = Inr False"
  shows "length raw \<le> max_parse_bytes \<and>
    (\<exists>text v. utf8_decode raw = Some text \<and> max_json_depth text \<le> max_parse_depth \<and>
      json_loads_default text = Inr v \<and> \<not> has_dup v \<and> ijson_strings v)"
proof -
  from assms obtain tx v where t: "utf8_decode raw = Some tx" "max_json_depth tx \<le> max_parse_depth"
    "json_loads float_literal Inr tx = Inr v" "\<not> has_dup v" "check_string_scalars raw = Inr ()"
    and l: "length raw \<le> max_parse_bytes"
    by (auto simp: statement_strict_fault_def split: if_splits option.splits sum.splits exn.splits)
  have s: "ijson_strings v"
    using json_loads_passes [OF hooks_plain_default _ _ t(3)] t(1,5) by (simp add: utf8_decode_iff)
  have "json_loads_default tx = Inr v"
    using t(3,4) parse_dict_hook(1) [of float_literal]
    by (auto simp: json_loads_default_def json_loads_def rbind_eq_Inr split: if_splits)
  with t l s show ?thesis by blast
qed


lemma rbind_Inl_E:
  assumes "rbind m f = Inl e"
  obtains "m = Inl e" | x where "m = Inr x" "f x = Inl e"
  using assms by (cases m) auto

text \<open>What a handler of \<open>ValueError\<close> catches.\<close>

definition value_error :: "exn \<Rightarrow> bool" where
  "value_error e \<longleftrightarrow> e = ValueError \<or> e = IntegerTooLong"

lemma value_error_simps [simp]: "value_error ValueError" "value_error IntegerTooLong"
  by (simp_all add: value_error_def)

lemma parse_value_error:
  assumes "\<And>s e. pf s = Inl e \<Longrightarrow> value_error e" "\<And>ps e. ph ps = Inl e \<Longrightarrow> value_error e"
  shows "parse_value pf ph n s = Inl e \<Longrightarrow> value_error e"
    "parse_items pf ph n s = Inl e \<Longrightarrow> value_error e"
    "parse_members pf ph n s = Inl e \<Longrightarrow> value_error e"
proof (induction n arbitrary: s e)
  case (Suc n)
  have sc: "read_scalar pf s = Inl e \<Longrightarrow> value_error e" for s e
    using assms(1) by (auto simp: read_scalar_def read_number_def int_literal_def Let_def
        split: option.splits if_splits prod.splits elim!: rbind_Inl_E)
  {
    case 1
    then show ?case using Suc.IH(2,3) sc assms(2)
      by (auto simp: parse_value.simps(2) split: list.splits if_splits option.splits elim!: rbind_Inl_E)
  next
    case 2
    then show ?case using Suc.IH(1,2)
      by (auto simp: parse_items.simps(2) split: list.splits if_splits elim!: rbind_Inl_E)
  next
    case 3
    then show ?case using Suc.IH(1,3)
      by (auto simp: parse_members.simps(2) split: list.splits if_splits option.splits elim!: rbind_Inl_E)
  }
qed auto

lemma json_loads_error:
  assumes "\<And>s e. pf s = Inl e \<Longrightarrow> value_error e" "\<And>ps e. ph ps = Inl e \<Longrightarrow> value_error e"
    and "json_loads pf ph s = Inl e"
  shows "value_error e"
  using assms(3) parse_value_error(1) [OF assms(1,2)]
  by (auto simp: json_loads_def split: if_splits elim!: rbind_Inl_E)

text \<open>The pass never raises, whatever the bytes.\<close>

theorem statement_strict_fault_total: "\<exists>b. statement_strict_fault raw = Inr b"
proof -
  have "json_loads float_literal Inr s = Inl e \<Longrightarrow> value_error e" for s e
    by (rule json_loads_error [of float_literal Inr]) (auto simp: float_literal_def)
  with check_string_scalars_error [of raw] show ?thesis
    by (auto simp: statement_strict_fault_def value_error_def split: option.splits sum.splits exn.splits)
qed

end
