(* ===== verification/Merkle.thy ===== *)
theory Merkle
  imports Py_Codec
begin

section \<open>The pre-authentication encoding and the Merkle root\<close>

text \<open>
  \<open>pae\<close> and \<open>merkle_root_hex\<close> of \<open>packaging/run_vectors.py\<close>.  The hash is an argument of
  the definitions; what the proofs need of it is the locale \<open>hash_function\<close>, which the
  theory \<open>Sha2\<close> interprets on SHA-256.  The encoding is injective, and a root binds the
  whole leaf list, its length included, up to a collision among the strings hashed.
\<close>

subsection \<open>DSSE pre-authentication encoding\<close>

definition pae_prefix :: bytes where
  "pae_prefix = lit ''DSSEv1 ''"

definition pae :: "ustr \<Rightarrow> bytes \<Rightarrow> bytes res" where
  "pae payload_type payload =
     rbind (utf8_encode payload_type) (\<lambda>pt.
       Inr (pae_prefix @ dec_digits (length pt) @ [0x20] @ pt @ [0x20]
            @ dec_digits (length payload) @ [0x20] @ payload))"

lemma digits_then_space:
  assumes "dec_digits m @ 0x20 # x = dec_digits n @ 0x20 # y"
  shows "m = n \<and> x = y"
proof -
  have t: "takeWhile is_digit (dec_digits k @ 0x20 # z) = dec_digits k" for k z
    using dec_digits_digits [of k] by (simp add: takeWhile_append list_all_iff is_digit_def)
  from assms have "dec_digits m = dec_digits n" using t by metis
  moreover from this have "m = n" by (metis dec_value_digits)
  ultimately show ?thesis using assms by simp
qed

lemma pae_inj:
  assumes "scalars t" "scalars u" "pae t p = pae u q"
  shows "t = u \<and> p = q"
proof -
  from assms have e: "dec_digits (length (utf8_bytes t)) @ 0x20 # utf8_bytes t @ 0x20 # dec_digits (length p) @ 0x20 # p
      = dec_digits (length (utf8_bytes u)) @ 0x20 # utf8_bytes u @ 0x20 # dec_digits (length q) @ 0x20 # q"
    by (simp add: pae_def utf8_encode_scalars)
  from digits_then_space [OF e]
  have "utf8_bytes t = utf8_bytes u" "dec_digits (length p) @ 0x20 # p = dec_digits (length q) @ 0x20 # q"
    by auto
  then show ?thesis using utf8_bytes_inj [OF assms(1,2)] digits_then_space by blast
qed

subsection \<open>The Merkle root\<close>

text \<open>\<open>k = 1; while k * 2 < n: k *= 2\<close>.\<close>

function grow_split :: "nat \<Rightarrow> nat \<Rightarrow> nat" where
  "grow_split k n = (if 0 < k \<and> k * 2 < n then grow_split (k * 2) n else k)"
  by pat_completeness auto
termination
  by (relation "measure (\<lambda>(k, n). n - k)") auto

declare grow_split.simps [simp del]

definition split_point :: "nat \<Rightarrow> nat" where
  "split_point n = grow_split 1 n"

lemma grow_split_bounds:
  assumes "0 < k" "k < n"
  shows "0 < grow_split k n \<and> grow_split k n < n \<and> n \<le> 2 * grow_split k n"
  using assms
proof (induction k n rule: grow_split.induct)
  case (1 k n)
  show ?case
  proof (cases "k * 2 < n")
    case True
    then show ?thesis using 1 by (subst (1 2 3) grow_split.simps) simp
  next
    case False
    then show ?thesis using 1 by (subst (1 2 3) grow_split.simps) simp
  qed
qed

lemma grow_split_power: "k = 2 ^ j \<Longrightarrow> \<exists>i. grow_split k n = 2 ^ i"
proof (induction k n arbitrary: j rule: grow_split.induct)
  case (1 k n)
  show ?case
  proof (cases "0 < k \<and> k * 2 < n")
    case True
    moreover have "k * 2 = 2 ^ Suc j" using 1(2) by simp
    ultimately have "\<exists>i. grow_split (k * 2) n = 2 ^ i" by (rule 1(1))
    then show ?thesis using True by (subst grow_split.simps) simp
  next
    case False
    then show ?thesis using 1 by (subst grow_split.simps) auto
  qed
qed

lemma split_point_bounds: "1 < n \<Longrightarrow> 0 < split_point n \<and> split_point n < n \<and> n \<le> 2 * split_point n"
  using grow_split_bounds [of 1 n] by (simp add: split_point_def)

lemma split_point_power: "\<exists>i. split_point n = 2 ^ i"
  using grow_split_power [of 1 0] by (simp add: split_point_def)

text \<open>\<open>node(lo, hi)\<close> over the leaves between the two indices.\<close>

function merkle_node :: "(bytes \<Rightarrow> bytes) \<Rightarrow> bytes list \<Rightarrow> nat \<Rightarrow> nat \<Rightarrow> bytes" where
  "merkle_node H leaves lo hi =
     (let n = hi - lo in
      if n \<le> 1 then H (0x00 # leaves ! lo)
      else let k = split_point n in
        H (0x01 # merkle_node H leaves lo (lo + k) @ merkle_node H leaves (lo + k) hi))"
  by pat_completeness auto
termination
proof (relation "measure (\<lambda>(H, leaves, lo, hi). hi - lo)")
  fix H :: "bytes \<Rightarrow> bytes" and leaves :: "bytes list" and lo hi n k
  assume a: "n = hi - lo" "\<not> n \<le> 1" "k = split_point n"
  then have "0 < k" "k < n" using split_point_bounds [of n] by auto
  with a show "((H, leaves, lo, lo + k), (H, leaves, lo, hi)) \<in> measure (\<lambda>(H, leaves, lo, hi). hi - lo)"
    "((H, leaves, lo + k, hi), (H, leaves, lo, hi)) \<in> measure (\<lambda>(H, leaves, lo, hi). hi - lo)"
    by auto
qed simp

declare merkle_node.simps [simp del]

definition merkle_root_hex :: "(bytes \<Rightarrow> bytes) \<Rightarrow> bytes list \<Rightarrow> ustr res" where
  "merkle_root_hex H leaves =
     (if leaves = [] then Inl ValueError
      else Inr (hex_of_bytes (merkle_node H leaves 0 (length leaves))))"

subsection \<open>The tree over a list\<close>

text \<open>RFC 6962: the tree hash by recursion on the two halves of the leaf list.\<close>

function tree_hash :: "(bytes \<Rightarrow> bytes) \<Rightarrow> bytes list \<Rightarrow> bytes" where
  "tree_hash H xs =
     (if length xs \<le> 1 then H (0x00 # (case xs of [] \<Rightarrow> [] | x # _ \<Rightarrow> x))
      else H (0x01 # tree_hash H (take (split_point (length xs)) xs)
                   @ tree_hash H (drop (split_point (length xs)) xs)))"
  by pat_completeness auto
termination
proof (relation "measure (\<lambda>(H, xs). length xs)")
  fix H :: "bytes \<Rightarrow> bytes" and xs :: "bytes list"
  assume "\<not> length xs \<le> 1"
  then have "0 < split_point (length xs) \<and> split_point (length xs) < length xs"
    using split_point_bounds [of "length xs"] by simp
  then show "((H, take (split_point (length xs)) xs), (H, xs)) \<in> measure (\<lambda>(H, xs). length xs)"
    "((H, drop (split_point (length xs)) xs), (H, xs)) \<in> measure (\<lambda>(H, xs). length xs)" by auto
qed simp

declare tree_hash.simps [simp del]

lemma tree_hash_leaf: "tree_hash H [x] = H (0x00 # x)"
  by (simp add: tree_hash.simps)

lemma merkle_node_tree_hash:
  "lo < hi \<Longrightarrow> hi \<le> length leaves \<Longrightarrow>
   merkle_node H leaves lo hi = tree_hash H (take (hi - lo) (drop lo leaves))"
proof (induction H leaves lo hi rule: merkle_node.induct)
  case (1 H leaves lo hi)
  let ?xs = "take (hi - lo) (drop lo leaves)" and ?k = "split_point (hi - lo)"
  have l: "length ?xs = hi - lo" using 1(3,4) by simp
  show ?case
  proof (cases "hi - lo \<le> 1")
    case True
    then have n: "hi - lo = 1" using 1(3) by simp
    then have "?xs = [leaves ! lo]" using 1(4) by (simp add: take_Suc_conv_app_nth hd_drop_conv_nth take_Suc)
    then show ?thesis using n by (simp add: merkle_node.simps tree_hash_leaf)
  next
    case False
    then have k: "0 < ?k" "?k < hi - lo" using split_point_bounds [of "hi - lo"] by auto
    have "merkle_node H leaves lo (lo + ?k) = tree_hash H (take ?k ?xs)"
      "merkle_node H leaves (lo + ?k) hi = tree_hash H (drop ?k ?xs)"
      using 1(1,2) [OF refl False refl] k 1(3,4) by (simp_all add: drop_take add.commute min_def)
    moreover have "tree_hash H ?xs = H (0x01 # tree_hash H (take ?k ?xs) @ tree_hash H (drop ?k ?xs))"
      using False l by (subst tree_hash.simps) simp
    ultimately show ?thesis using False by (subst merkle_node.simps) (simp add: Let_def)
  qed
qed

lemma merkle_root_hex_eq:
  "xs \<noteq> [] \<Longrightarrow> merkle_root_hex H xs = Inr (hex_of_bytes (tree_hash H xs))"
  using merkle_node_tree_hash [of 0 "length xs" xs H] by (simp add: merkle_root_hex_def)

subsection \<open>What a root binds\<close>

text \<open>Every string the computation of a root feeds to the hash.\<close>

function hash_inputs :: "(bytes \<Rightarrow> bytes) \<Rightarrow> bytes list \<Rightarrow> bytes list" where
  "hash_inputs H xs =
     (if length xs \<le> 1 then [0x00 # (case xs of [] \<Rightarrow> [] | x # _ \<Rightarrow> x)]
      else (0x01 # tree_hash H (take (split_point (length xs)) xs)
                 @ tree_hash H (drop (split_point (length xs)) xs))
           # hash_inputs H (take (split_point (length xs)) xs)
           @ hash_inputs H (drop (split_point (length xs)) xs))"
  by pat_completeness auto
termination
proof (relation "measure (\<lambda>(H, xs). length xs)")
  fix H :: "bytes \<Rightarrow> bytes" and xs :: "bytes list"
  assume "\<not> length xs \<le> 1"
  then have "0 < split_point (length xs) \<and> split_point (length xs) < length xs"
    using split_point_bounds [of "length xs"] by simp
  then show "((H, take (split_point (length xs)) xs), (H, xs)) \<in> measure (\<lambda>(H, xs). length xs)"
    "((H, drop (split_point (length xs)) xs), (H, xs)) \<in> measure (\<lambda>(H, xs). length xs)" by auto
qed simp

declare hash_inputs.simps [simp del]

lemma hash_inputs_hd: "tree_hash H xs = H (hd (hash_inputs H xs))" "hd (hash_inputs H xs) \<in> set (hash_inputs H xs)"
  by (simp_all add: hash_inputs.simps tree_hash.simps)

locale hash_function =
  fixes H :: "bytes \<Rightarrow> bytes"
  assumes digest_length: "length (H x) = 32"
    and digest_bytes: "bytes_ok (H x)"
begin

lemma tree_hash_length: "length (tree_hash H xs) = 32"
  by (subst tree_hash.simps) (simp add: digest_length)

lemma tree_hash_bytes: "bytes_ok (tree_hash H xs)"
  by (subst tree_hash.simps) (simp add: digest_bytes)

lemma root_hex64: "merkle_root_hex H xs = Inr r \<Longrightarrow> hex64 r"
  using hex64_of_bytes [OF tree_hash_bytes tree_hash_length] merkle_root_hex_eq [of xs H]
  by (cases "xs = []") (auto simp: merkle_root_hex_def)

lemma sha_hex64: "hex64 (hex_of_bytes (H x))"
  by (rule hex64_of_bytes [OF digest_bytes digest_length])

text \<open>Equal roots and no collision among the strings hashed: the same leaves in the same order.\<close>

lemma tree_hash_binds:
  assumes "xs \<noteq> []" "ys \<noteq> []" "tree_hash H xs = tree_hash H ys"
    and "inj_on H (set (hash_inputs H xs) \<union> set (hash_inputs H ys))"
  shows "xs = ys"
  using assms
proof (induction "length xs" arbitrary: xs ys rule: less_induct)
  case less
  have hd: "hd (hash_inputs H xs) = hd (hash_inputs H ys)"
    using less.prems(3,4) hash_inputs_hd [of H xs] hash_inputs_hd [of H ys] by (auto dest!: inj_onD)
  show ?case
  proof (cases "length xs \<le> 1")
    case True
    then obtain x where x: "xs = [x]" using less.prems(1) by (cases xs) auto
    then have "hd (hash_inputs H ys) = 0x00 # x" using hd by (simp add: hash_inputs.simps)
    moreover have "length ys \<le> 1"
      using calculation by (cases "length ys \<le> 1") (auto simp: hash_inputs.simps [of H ys])
    ultimately show ?thesis using x less.prems(2) by (cases ys) (auto simp: hash_inputs.simps)
  next
    case False
    let ?k = "split_point (length xs)" and ?l = "split_point (length ys)"
    have k: "0 < ?k" "?k < length xs" using split_point_bounds [of "length xs"] False by auto
    have ly: "\<not> length ys \<le> 1"
      using hd False by (auto simp: hash_inputs.simps [of H ys] hash_inputs.simps [of H xs] split: if_splits)
    have l: "0 < ?l" "?l < length ys" using split_point_bounds [of "length ys"] ly by auto
    have "tree_hash H (take ?k xs) @ tree_hash H (drop ?k xs) = tree_hash H (take ?l ys) @ tree_hash H (drop ?l ys)"
      using hd False ly by (simp add: hash_inputs.simps [of H ys] hash_inputs.simps [of H xs])
    then have t: "tree_hash H (take ?k xs) = tree_hash H (take ?l ys)" "tree_hash H (drop ?k xs) = tree_hash H (drop ?l ys)"
      by (auto simp: append_eq_append_conv tree_hash_length)
    have s: "set (hash_inputs H (take ?k xs)) \<union> set (hash_inputs H (drop ?k xs)) \<subseteq> set (hash_inputs H xs)"
      "set (hash_inputs H (take ?l ys)) \<union> set (hash_inputs H (drop ?l ys)) \<subseteq> set (hash_inputs H ys)"
      using False ly by (auto simp: hash_inputs.simps [of H ys] hash_inputs.simps [of H xs])
    have "take ?k xs = take ?l ys"
      by (rule less.hyps) (use k l t s in \<open>auto intro: inj_on_subset [OF less.prems(4)]\<close>)
    moreover have "drop ?k xs = drop ?l ys"
      by (rule less.hyps) (use k l t s in \<open>auto intro: inj_on_subset [OF less.prems(4)]\<close>)
    ultimately show ?thesis by (metis append_take_drop_id)
  qed
qed

lemma merkle_root_binds:
  assumes "merkle_root_hex H xs = Inr r" "merkle_root_hex H ys = Inr r"
    and "inj_on H (set (hash_inputs H xs) \<union> set (hash_inputs H ys))"
  shows "xs = ys"
proof -
  from assms(1,2) have n: "xs \<noteq> []" "ys \<noteq> []" by (auto simp: merkle_root_hex_def split: if_splits)
  with assms(1,2) have "hex_of_bytes (tree_hash H xs) = hex_of_bytes (tree_hash H ys)"
    by (simp add: merkle_root_hex_eq)
  then show ?thesis using hex_of_bytes_inj tree_hash_bytes tree_hash_binds [OF n _ assms(3)] by blast
qed

end

end
