(* ===== verification/Sha2.thy ===== *)
theory Sha2
  imports Merkle "HOL-Library.Word"
begin

section \<open>SHA-256 and SHA-512\<close>

text \<open>
  \<open>hashlib.sha256\<close> and \<open>hashlib.sha512\<close> (FIPS 180-4), the two hashes the code calls.
  A compression block runs on machine words whose addition wraps.  The interpretation
  \<open>sha\<close> makes the laws of \<open>hash_function\<close> available for the hash the program uses.
\<close>

unbundle bit_operations_syntax

text \<open>Big-endian words from bytes and back; \<open>k\<close> bytes per word.\<close>

definition be_value :: "bytes \<Rightarrow> nat" where
  "be_value bs = foldl (\<lambda>v b. v * 256 + b) 0 bs"

fun be_bytes :: "nat \<Rightarrow> nat \<Rightarrow> bytes" where
  "be_bytes 0 v = []"
| "be_bytes (Suc k) v = be_bytes k (v div 256) @ [v mod 256]"

lemma length_be_bytes [simp]: "length (be_bytes k v) = k"
  by (induction k arbitrary: v) auto

lemma be_bytes_ok [simp]: "bytes_ok (be_bytes k v)"
  by (induction k arbitrary: v) auto

function blocks :: "nat \<Rightarrow> bytes \<Rightarrow> bytes list" where
  "blocks k bs = (if k = 0 \<or> bs = [] then [] else take k bs # blocks k (drop k bs))"
  by pat_completeness auto
termination
  by (relation "measure (\<lambda>(k, bs). length bs)") auto

declare blocks.simps [simp del]

text \<open>Padding to a multiple of \<open>n\<close> bytes, the last \<open>m\<close> of which hold the length in bits.\<close>

definition sha_pad :: "nat \<Rightarrow> nat \<Rightarrow> bytes \<Rightarrow> bytes" where
  "sha_pad n m msg =
     msg @ [0x80] @ replicate ((2 * n - 1 - m - length msg mod n) mod n) 0 @ be_bytes m (8 * length msg)"

text \<open>One round over the eight working variables.\<close>

definition sha_round ::
  "('w::len word \<Rightarrow> 'w word) \<Rightarrow> ('w word \<Rightarrow> 'w word) \<Rightarrow> 'w word list \<Rightarrow> 'w word \<times> 'w word \<Rightarrow> 'w word list" where
  "sha_round S0 S1 st kw =
     (case st of
        [a, b, c, d, e, f, g, h] \<Rightarrow>
          let t1 = h + S1 e + ((e AND f) XOR (NOT e AND g)) + fst kw + snd kw;
              t2 = S0 a + ((a AND b) XOR (a AND c) XOR (b AND c))
          in [t1 + t2, a, b, c, d + t1, e, f, g]
      | _ \<Rightarrow> st)"

text \<open>The message schedule, newest word first.\<close>

fun sha_schedule ::
  "('w::len word \<Rightarrow> 'w word) \<Rightarrow> ('w word \<Rightarrow> 'w word) \<Rightarrow> nat \<Rightarrow> 'w word list \<Rightarrow> 'w word list" where
  "sha_schedule s0 s1 0 ws = ws"
| "sha_schedule s0 s1 (Suc n) ws =
     sha_schedule s0 s1 n ((s1 (ws ! 1) + ws ! 6 + s0 (ws ! 14) + ws ! 15) # ws)"

definition sha_block ::
  "('w::len word \<Rightarrow> 'w word) \<Rightarrow> ('w word \<Rightarrow> 'w word) \<Rightarrow> ('w word \<Rightarrow> 'w word) \<Rightarrow> ('w word \<Rightarrow> 'w word)
   \<Rightarrow> 'w word list \<Rightarrow> nat \<Rightarrow> 'w word list \<Rightarrow> bytes \<Rightarrow> 'w word list" where
  "sha_block s0 s1 S0 S1 ks k st block =
     (let m = map (\<lambda>b. word_of_nat (be_value b)) (blocks k block);
          ws = rev (sha_schedule s0 s1 (length ks - 16) (rev m))
      in map2 (+) st (foldl (sha_round S0 S1) st (zip ks ws)))"

text \<open>
  The round constants and the initial value of SHA-512; those of SHA-256 are the high halves
  of the first of them.
\<close>

definition k512 :: "64 word list" where
  "k512 = [
    4794697086780616226, 8158064640168781261, 13096744586834688815, 16840607885511220156,
    4131703408338449720, 6480981068601479193, 10538285296894168987, 12329834152419229976,
    15566598209576043074, 1334009975649890238, 2608012711638119052, 6128411473006802146,
    8268148722764581231, 9286055187155687089, 11230858885718282805, 13951009754708518548,
    16472876342353939154, 17275323862435702243, 1135362057144423861, 2597628984639134821,
    3308224258029322869, 5365058923640841347, 6679025012923562964, 8573033837759648693,
    10970295158949994411, 12119686244451234320, 12683024718118986047, 13788192230050041572,
    14330467153632333762, 15395433587784984357, 489312712824947311, 1452737877330783856,
    2861767655752347644, 3322285676063803686, 5560940570517711597, 5996557281743188959,
    7280758554555802590, 8532644243296465576, 9350256976987008742, 10552545826968843579,
    11727347734174303076, 12113106623233404929, 14000437183269869457, 14369950271660146224,
    15101387698204529176, 15463397548674623760, 17586052441742319658, 1182934255886127544,
    1847814050463011016, 2177327727835720531, 2830643537854262169, 3796741975233480872,
    4115178125766777443, 5681478168544905931, 6601373596472566643, 7507060721942968483,
    8399075790359081724, 8693463985226723168, 9568029438360202098, 10144078919501101548,
    10430055236837252648, 11840083180663258601, 13761210420658862357, 14299343276471374635,
    14566680578165727644, 15097957966210449927, 16922976911328602910, 17689382322260857208,
    500013540394364858, 748580250866718886, 1242879168328830382, 1977374033974150939,
    2944078676154940804, 3659926193048069267, 4368137639120453308, 4836135668995329356,
    5532061633213252278, 6448918945643986474, 6902733635092675308, 7801388544844847127]"

definition iv512 :: "64 word list" where
  "iv512 = [
    7640891576956012808, 13503953896175478587, 4354685564936845355, 11912009170470909681,
    5840696475078001361, 11170449401992604703, 2270897969802886507, 6620516959819538809]"

definition high_halves :: "64 word list \<Rightarrow> 32 word list" where
  "high_halves ws = map (\<lambda>w. ucast (drop_bit 32 w)) ws"

definition k256 :: "32 word list" where
  "k256 = high_halves (take 64 k512)"

definition iv256 :: "32 word list" where
  "iv256 = high_halves iv512"

definition sha256 :: "bytes \<Rightarrow> bytes" where
  "sha256 msg =
     concat (map (\<lambda>w. be_bytes 4 (unat w))
       (foldl (sha_block
          (\<lambda>x. word_rotr 7 x XOR word_rotr 18 x XOR drop_bit 3 x)
          (\<lambda>x. word_rotr 17 x XOR word_rotr 19 x XOR drop_bit 10 x)
          (\<lambda>x. word_rotr 2 x XOR word_rotr 13 x XOR word_rotr 22 x)
          (\<lambda>x. word_rotr 6 x XOR word_rotr 11 x XOR word_rotr 25 x) k256 4)
        iv256 (blocks 64 (sha_pad 64 8 msg))))"

definition sha512 :: "bytes \<Rightarrow> bytes" where
  "sha512 msg =
     concat (map (\<lambda>w. be_bytes 8 (unat w))
       (foldl (sha_block
          (\<lambda>x. word_rotr 1 x XOR word_rotr 8 x XOR drop_bit 7 x)
          (\<lambda>x. word_rotr 19 x XOR word_rotr 61 x XOR drop_bit 6 x)
          (\<lambda>x. word_rotr 28 x XOR word_rotr 34 x XOR word_rotr 39 x)
          (\<lambda>x. word_rotr 14 x XOR word_rotr 18 x XOR word_rotr 41 x) k512 8)
        iv512 (blocks 128 (sha_pad 128 16 msg))))"

subsection \<open>Digest length\<close>

lemma length_sha_round: "length (sha_round S0 S1 st kw) = length st"
  by (simp add: sha_round_def Let_def split: list.split)

lemma length_sha_rounds: "length (foldl (sha_round S0 S1) st kws) = length st"
  by (induction kws arbitrary: st) (simp_all add: length_sha_round)

lemma length_sha_block: "length (sha_block s0 s1 S0 S1 ks k st block) = length st"
  by (simp add: sha_block_def Let_def length_sha_rounds)

lemma length_sha_blocks: "length (foldl (sha_block s0 s1 S0 S1 ks k) st bs) = length st"
  by (induction bs arbitrary: st) (simp_all add: length_sha_block)

lemma length_concat_words: "length (concat (map (\<lambda>w. be_bytes k (f w)) ws)) = k * length ws"
  by (induction ws) auto

lemma concat_words_ok: "bytes_ok (concat (map (\<lambda>w. be_bytes k (f w)) ws))"
  by (induction ws) auto

lemma sha256_length: "length (sha256 msg) = 32"
  by (simp add: sha256_def length_concat_words length_sha_blocks iv256_def high_halves_def iv512_def)

lemma sha256_bytes: "bytes_ok (sha256 msg)"
  by (simp add: sha256_def concat_words_ok)

lemma sha512_length: "length (sha512 msg) = 64"
  by (simp add: sha512_def length_concat_words length_sha_blocks iv512_def)

lemma sha512_bytes: "bytes_ok (sha512 msg)"
  by (simp add: sha512_def concat_words_ok)

interpretation sha: hash_function sha256
  by unfold_locales (rule sha256_length, rule sha256_bytes)

end
