(* ===== verification/Ed25519.thy ===== *)
theory Ed25519
  imports Sha2
begin

section \<open>Ed25519\<close>

text \<open>
  The pure-Python Ed25519 of \<open>packaging/run_vectors.py\<close>, on unbounded integers as there,
  over the hash \<open>H5\<close> it is run with (\<open>sha512\<close>).  \<open>pow(b, e, m)\<close> is square and multiply.
  The lemmas settle the encodings and the range checks that make the accepted signature
  of a message unique in its scalar half, and the loop invariant of the scalar
  multiplication; the group law of the curve is not developed.
\<close>

fun pow_mod :: "int \<Rightarrow> nat \<Rightarrow> int \<Rightarrow> int" where
  "pow_mod b e m =
     (if e = 0 then 1 mod m
      else if even e then pow_mod (b * b mod m) (e div 2) m
      else b * pow_mod (b * b mod m) (e div 2) m mod m)"

declare pow_mod.simps [simp del]

lemma pow_mod_eq: "pow_mod b e m = b ^ e mod m"
proof (induction b e m rule: pow_mod.induct)
  case (1 b e m)
  have sq: "(b * b mod m) ^ (e div 2) mod m = b ^ (2 * (e div 2)) mod m"
    by (simp add: power_mod power_mult power2_eq_square)
  show ?case
  proof (cases "even e")
    case True
    then show ?thesis using 1(1) sq by (subst pow_mod.simps) auto
  next
    case False
    then have e: "e = Suc (2 * (e div 2))" by presburger
    have "b * (b ^ (2 * (e div 2)) mod m) mod m = b ^ e mod m"
      by (metis e mod_mult_right_eq power_Suc)
    then show ?thesis using False 1(2) sq by (subst pow_mod.simps) auto
  qed
qed

definition ed_P :: int where
  "ed_P = 2 ^ 255 - 19"

definition ed_L :: int where
  "ed_L = 2 ^ 252 + 27742317777372353535851937790883648493"

definition ed_inv :: "int \<Rightarrow> int" where
  "ed_inv x = pow_mod x (nat (ed_P - 2)) ed_P"

definition ed_D :: int where
  "ed_D = (- 121665 * ed_inv 121666) mod ed_P"

definition ed_I :: int where
  "ed_I = pow_mod 2 (nat ((ed_P - 1) div 4)) ed_P"

type_synonym point = "int \<times> int \<times> int \<times> int"

definition ed_ident :: point where
  "ed_ident = (0, 1, 1, 0)"

definition pt_add :: "point \<Rightarrow> point \<Rightarrow> point" where
  "pt_add p q =
     (case p of (x1, y1, z1, t1) \<Rightarrow> case q of (x2, y2, z2, t2) \<Rightarrow>
      let a = (y1 - x1) * (y2 - x2) mod ed_P;
          b = (y1 + x1) * (y2 + x2) mod ed_P;
          c = t1 * 2 * ed_D * t2 mod ed_P;
          d = z1 * 2 * z2 mod ed_P;
          e = b - a; f = d - c; g = d + c; h = b + a
      in (e * f mod ed_P, g * h mod ed_P, f * g mod ed_P, e * h mod ed_P))"

text \<open>The loop of \<open>_pt_mul\<close>; \<open>q\<close> is the accumulator.\<close>

fun pt_mul_loop :: "nat \<Rightarrow> point \<Rightarrow> point \<Rightarrow> point" where
  "pt_mul_loop s p q =
     (if s = 0 then q
      else pt_mul_loop (s div 2) (pt_add p p) (if odd s then pt_add q p else q))"

declare pt_mul_loop.simps [simp del]

definition pt_mul :: "nat \<Rightarrow> point \<Rightarrow> point" where
  "pt_mul s p = pt_mul_loop s p ed_ident"

fun pt_eq :: "point \<Rightarrow> point \<Rightarrow> bool" where
  "pt_eq (x1, y1, z1, _) (x2, y2, z2, _) \<longleftrightarrow>
     (x1 * z2 - x2 * z1) mod ed_P = 0 \<and> (y1 * z2 - y2 * z1) mod ed_P = 0"

definition ed_BY :: int where
  "ed_BY = 4 * ed_inv 5 mod ed_P"

definition xrecover :: "int \<Rightarrow> int" where
  "xrecover y =
     (let xx = (y * y - 1) * ed_inv (ed_D * y * y + 1) mod ed_P;
          x = pow_mod xx (nat ((ed_P + 3) div 8)) ed_P;
          x = (if (x * x - xx) mod ed_P \<noteq> 0 then x * ed_I mod ed_P else x)
      in if x mod 2 \<noteq> 0 then ed_P - x else x)"

definition ed_BX :: int where
  "ed_BX = xrecover ed_BY"

definition ed_B :: point where
  "ed_B = (ed_BX, ed_BY, 1, ed_BX * ed_BY mod ed_P)"

text \<open>\<open>int.from_bytes(s, "little")\<close> and \<open>n.to_bytes(k, "little")\<close>.\<close>

fun le_value :: "bytes \<Rightarrow> nat" where
  "le_value [] = 0"
| "le_value (b # bs) = b + 256 * le_value bs"

fun le_bytes :: "nat \<Rightarrow> nat \<Rightarrow> bytes" where
  "le_bytes 0 v = []"
| "le_bytes (Suc k) v = (v mod 256) # le_bytes k (v div 256)"

definition pt_compress :: "point \<Rightarrow> bytes" where
  "pt_compress p =
     (case p of (x, y, z, _) \<Rightarrow>
        let zi = ed_inv z; x = x * zi mod ed_P; y = y * zi mod ed_P
        in le_bytes 32 (nat y OR push_bit 255 (nat x AND 1)))"

definition pt_decompress :: "bytes \<Rightarrow> point option" where
  "pt_decompress s =
     (if length s \<noteq> 32 then None
      else
        let v = le_value s;
            sign = v div 2 ^ 255;
            y = int (v mod 2 ^ 255)
        in if y \<ge> ed_P then None
           else
             let xx = (y * y - 1) * ed_inv (ed_D * y * y + 1) mod ed_P;
                 x = pow_mod xx (nat ((ed_P + 3) div 8)) ed_P;
                 x = (if (x * x - xx) mod ed_P \<noteq> 0 then x * ed_I mod ed_P else x)
             in if (x * x - xx) mod ed_P \<noteq> 0 then None
                else if x = 0 \<and> sign \<noteq> 0 then None
                else
                  let x = (if x mod 2 \<noteq> int sign then ed_P - x else x)
                  in Some (x, y, 1, x * y mod ed_P))"

text \<open>\<open>a &= (1 << 254) - 8; a |= 1 << 254\<close>.\<close>

definition clamp :: "nat \<Rightarrow> nat" where
  "clamp a = (a AND (2 ^ 254 - 8)) OR 2 ^ 254"

definition ed25519_public_key :: "(bytes \<Rightarrow> bytes) \<Rightarrow> bytes \<Rightarrow> bytes" where
  "ed25519_public_key H5 seed = pt_compress (pt_mul (clamp (le_value (take 32 (H5 seed)))) ed_B)"

definition ed25519_sign :: "(bytes \<Rightarrow> bytes) \<Rightarrow> bytes \<Rightarrow> bytes \<Rightarrow> bytes" where
  "ed25519_sign H5 seed msg =
     (let h = H5 seed;
          a = clamp (le_value (take 32 h));
          prefix = drop 32 h;
          pub = pt_compress (pt_mul a ed_B);
          r = le_value (H5 (prefix @ msg)) mod nat ed_L;
          rp = pt_compress (pt_mul r ed_B);
          k = le_value (H5 (rp @ pub @ msg)) mod nat ed_L;
          s = (r + k * a) mod nat ed_L
      in rp @ le_bytes 32 s)"

definition ed25519_verify :: "(bytes \<Rightarrow> bytes) \<Rightarrow> bytes \<Rightarrow> bytes \<Rightarrow> bytes \<Rightarrow> bool" where
  "ed25519_verify H5 pub msg sg =
     (if length sg \<noteq> 64 then False
      else (case pt_decompress pub of
        None \<Rightarrow> False
      | Some a \<Rightarrow>
          (case pt_decompress (take 32 sg) of
             None \<Rightarrow> False
           | Some rp \<Rightarrow>
               let s = le_value (drop 32 sg) in
               if int s \<ge> ed_L then False
               else
                 let k = le_value (H5 (take 32 sg @ pub @ msg)) mod nat ed_L
                 in pt_eq (pt_mul s ed_B) (pt_add rp (pt_mul k a)))))"

text \<open>\<open>derive_test_keys\<close>: the published recipe, role by role.\<close>

record test_key =
  key_seed :: bytes
  key_public :: bytes
  key_id :: ustr

definition key_roles :: "ustr list" where
  "key_roles = [lit ''substrate-observation-test'', lit ''wrong-signer-test'', lit ''statement-test'']"

definition pinned_role :: ustr where
  "pinned_role = lit ''substrate-observation-test''"

definition derive_test_keys ::
  "(bytes \<Rightarrow> bytes) \<Rightarrow> (bytes \<Rightarrow> bytes) \<Rightarrow> (ustr \<times> test_key) list" where
  "derive_test_keys H H5 =
     map (\<lambda>role.
       let sd = H (lit ''in-toto-aee-test-key/'' @ role @ lit ''/v1'');
           pub = ed25519_public_key H5 sd
       in (role, \<lparr>key_seed = sd, key_public = pub, key_id = hex_of_bytes (H pub)\<rparr>)) key_roles"

subsection \<open>Encodings\<close>

lemma length_le_bytes [simp]: "length (le_bytes k v) = k"
  by (induction k arbitrary: v) auto

lemma le_bytes_ok [simp]: "bytes_ok (le_bytes k v)"
  by (induction k arbitrary: v) auto

lemma le_value_bytes: "le_value (le_bytes k v) = v mod 256 ^ k"
proof (induction k arbitrary: v)
  case (Suc k)
  have "v mod (256 * 256 ^ k) = v mod 256 + 256 * (v div 256 mod 256 ^ k)"
    by (simp add: mod_mult2_eq)
  then show ?case using Suc by simp
qed simp

lemma le_bytes_value: "bytes_ok bs \<Longrightarrow> le_bytes (length bs) (le_value bs) = bs"
  by (induction bs) auto

lemma le_value_inj: "bytes_ok a \<Longrightarrow> bytes_ok b \<Longrightarrow> length a = length b \<Longrightarrow> le_value a = le_value b \<Longrightarrow> a = b"
  by (metis le_bytes_value)

subsection \<open>Scalar multiplication\<close>

text \<open>The point a bit string selects: the accumulator plus the doublings its set bits name.\<close>

fun doublings :: "nat \<Rightarrow> point \<Rightarrow> point list" where
  "doublings s p =
     (if s = 0 then [] else (if odd s then [p] else []) @ doublings (s div 2) (pt_add p p))"

declare doublings.simps [simp del]

lemma pt_mul_loop_doublings: "pt_mul_loop s p q = foldl pt_add q (doublings s p)"
proof (induction s p q rule: pt_mul_loop.induct)
  case (1 s p q)
  show ?case
  proof (cases "s = 0")
    case True
    then show ?thesis by (simp add: pt_mul_loop.simps doublings.simps)
  next
    case False
    have "pt_mul_loop s p q = pt_mul_loop (s div 2) (pt_add p p) (if odd s then pt_add q p else q)"
      using False by (subst pt_mul_loop.simps) simp
    also have "\<dots> = foldl pt_add (if odd s then pt_add q p else q) (doublings (s div 2) (pt_add p p))"
      using 1 [OF False] .
    also have "\<dots> = foldl pt_add q (doublings s p)"
      using False by (subst (2) doublings.simps) simp
    finally show ?thesis .
  qed
qed

lemma pt_add_commute: "pt_add p q = pt_add q p"
  by (cases p; cases q) (simp add: pt_add_def Let_def algebra_simps)

lemma pt_eq_refl [simp]: "pt_eq p p"
  by (cases p) (simp add: algebra_simps)

lemma pt_eq_sym: "pt_eq p q \<Longrightarrow> pt_eq q p"
proof -
  have n: "(a - b) mod ed_P = 0 \<Longrightarrow> (b - a) mod ed_P = 0" for a b :: int
    by (metis dvd_eq_mod_eq_0 dvd_minus_iff minus_diff_eq)
  assume "pt_eq p q"
  then show ?thesis by (cases p; cases q) (auto intro: n)
qed

subsection \<open>What an accepted signature looks like\<close>

text \<open>
  Only one encoding of the scalar half is accepted: it is reduced modulo the group order,
  and the point half and the public key are reduced modulo the field prime.
\<close>

lemma pt_decompress_canonical:
  assumes "pt_decompress s = Some p"
  shows "length s = 32 \<and> int (le_value s mod 2 ^ 255) < ed_P"
proof -
  have "length s = 32" using assms by (rule contrapos_pp) (simp add: pt_decompress_def)
  moreover have "\<not> ed_P \<le> int (le_value s mod 2 ^ 255)"
  proof
    assume "ed_P \<le> int (le_value s mod 2 ^ 255)"
    then have "pt_decompress s = None"
      unfolding pt_decompress_def by (simp only: Let_def if_True if_cancel)
    with assms show False by simp
  qed
  ultimately show ?thesis by simp
qed

lemma ed25519_verify_canonical:
  assumes "ed25519_verify H5 pub msg sg"
  shows "length sg = 64 \<and> length pub = 32 \<and> int (le_value (drop 32 sg)) < ed_L \<and>
    int (le_value (take 32 sg) mod 2 ^ 255) < ed_P \<and> int (le_value pub mod 2 ^ 255) < ed_P"
proof -
  have l: "length sg = 64" using assms by (rule contrapos_pp) (simp add: ed25519_verify_def)
  from assms l obtain a rp where d: "pt_decompress pub = Some a" "pt_decompress (take 32 sg) = Some rp"
    by (cases "pt_decompress pub"; cases "pt_decompress (take 32 sg)") (simp_all add: ed25519_verify_def)
  have "\<not> ed_L \<le> int (le_value (drop 32 sg))"
  proof
    assume "ed_L \<le> int (le_value (drop 32 sg))"
    then have "\<not> ed25519_verify H5 pub msg sg" using d l by (simp only: ed25519_verify_def Let_def option.case if_True if_False simp_thms)
    with assms show False by simp
  qed
  with l pt_decompress_canonical [OF d(1)] pt_decompress_canonical [OF d(2)] show ?thesis by simp
qed

text \<open>Adding a multiple of the group order to the scalar half makes a signature invalid.\<close>

lemma ed25519_verify_not_malleable:
  assumes "ed25519_verify H5 pub msg sg" "length sg' = 64" "0 < j"
    "int (le_value (drop 32 sg')) = int (le_value (drop 32 sg)) + j * ed_L"
  shows "\<not> ed25519_verify H5 pub' msg' sg'"
proof
  assume "ed25519_verify H5 pub' msg' sg'"
  then have "int (le_value (drop 32 sg')) < ed_L" using ed25519_verify_canonical by blast
  moreover have "ed_L \<le> j * ed_L" using assms(3) by (simp add: ed_L_def)
  ultimately show False using assms(4) by simp
qed

lemma ed25519_sign_length: "length (ed25519_sign H5 sd msg) = 64"
  by (simp add: ed25519_sign_def Let_def pt_compress_def split: prod.split)

lemma ed25519_sign_reduced: "int (le_value (drop 32 (ed25519_sign H5 sd msg))) < ed_L"
proof -
  have L: "0 < nat ed_L" "nat ed_L \<le> 256 ^ 32" by (simp_all add: ed_L_def)
  have "length (pt_compress p) = 32" for p by (simp add: pt_compress_def Let_def split: prod.split)
  moreover have "n mod nat ed_L mod 256 ^ 32 = n mod nat ed_L" for n
    using L mod_less_divisor [OF L(1), of n] by (intro mod_less) linarith
  moreover have "int (n mod nat ed_L) < ed_L" for n
    using mod_less_divisor [OF L(1), of n] by simp
  ultimately show ?thesis by (simp add: ed25519_sign_def Let_def le_value_bytes)
qed

end
