(* ===== verification/Timestamps.thy ===== *)
theory Timestamps
  imports Py_Codec
begin

section \<open>Carried timestamps\<close>

text \<open>
  \<open>_timestamp_ok\<close> and \<open>_rfc3339_key\<close> of \<open>packaging/run_vectors.py\<close>, with the part of
  \<open>datetime.fromisoformat\<close> they reach: a calendar date from year 1 on, no hour 24 and no
  leap second, a fraction cut at six digits, an offset below a day.  The pattern's
  \<open>\d\<close> is read as the ASCII digits; \<open>fromisoformat\<close> refuses every other digit.
\<close>

record stamp =
  year :: nat
  month :: nat
  day :: nat
  hour :: nat
  minute :: nat
  second :: nat
  micro :: nat
  utcoffset :: int

text \<open>Exactly \<open>k\<close> digits, and one given character.\<close>

definition digits_n :: "nat \<Rightarrow> ustr \<Rightarrow> (nat \<times> ustr) option" where
  "digits_n k s =
     (if k \<le> length s \<and> list_all is_digit (take k s) then Some (dec_value (take k s), drop k s) else None)"

definition mark :: "nat \<Rightarrow> (nat \<times> ustr) option \<Rightarrow> (nat \<times> ustr) option" where
  "mark c r =
     (case r of
        Some (v, d # s) \<Rightarrow> if d = c then Some (v, s) else None
      | _ \<Rightarrow> None)"

text \<open>The zone designator at the end, in minutes; \<open>$\<close> lets one newline follow it.\<close>

definition at_end :: "ustr \<Rightarrow> bool" where
  "at_end s \<longleftrightarrow> s = [] \<or> s = [0x0A]"

definition zone_match :: "ustr \<Rightarrow> int option" where
  "zone_match s =
     (case s of
        [] \<Rightarrow> None
      | c # r \<Rightarrow>
          if c = 0x5A then (if at_end r then Some 0 else None)
          else if c = 0x2B \<or> c = 0x2D then
            (case mark 0x3A (digits_n 2 r) of
               None \<Rightarrow> None
             | Some (hh, r1) \<Rightarrow>
                 (case digits_n 2 r1 of
                    None \<Rightarrow> None
                  | Some (mm, r2) \<Rightarrow>
                      if at_end r2
                      then Some (if c = 0x2D then - int (60 * hh + mm) else int (60 * hh + mm))
                      else None))
          else None)"

text \<open>The first six digits of a fraction, in microseconds.\<close>

definition micros :: "ustr \<Rightarrow> nat" where
  "micros ds = dec_value (take 6 (ds @ replicate 6 0x30))"

definition fraction_match :: "ustr \<Rightarrow> (nat \<times> ustr) option" where
  "fraction_match s =
     (case s of
        p # d # r \<Rightarrow>
          if p \<noteq> 0x2E then Some (0, s)
          else if is_digit d then Some (micros (d # takeWhile is_digit r), dropWhile is_digit r)
          else None
      | _ \<Rightarrow> Some (0, s))"

text \<open>\<open>RFC3339_RE.match\<close> with the fields it delimits.\<close>

definition rfc3339_match :: "ustr \<Rightarrow> stamp option" where
  "rfc3339_match s =
     Option.bind (mark 0x2D (digits_n 4 s)) (\<lambda>(y, s1).
     Option.bind (mark 0x2D (digits_n 2 s1)) (\<lambda>(mo, s2).
     Option.bind (mark 0x54 (digits_n 2 s2)) (\<lambda>(d, s3).
     Option.bind (mark 0x3A (digits_n 2 s3)) (\<lambda>(h, s4).
     Option.bind (mark 0x3A (digits_n 2 s4)) (\<lambda>(mi, s5).
     Option.bind (digits_n 2 s5) (\<lambda>(sec, s6).
     Option.bind (fraction_match s6) (\<lambda>(us, s7).
     Option.bind (zone_match s7) (\<lambda>z.
       Some \<lparr>year = y, month = mo, day = d, hour = h, minute = mi, second = sec,
             micro = us, utcoffset = z\<rparr>))))))))"

definition leap :: "nat \<Rightarrow> bool" where
  "leap y \<longleftrightarrow> y mod 4 = 0 \<and> (y mod 100 \<noteq> 0 \<or> y mod 400 = 0)"

definition days_in_month :: "nat \<Rightarrow> nat \<Rightarrow> nat" where
  "days_in_month y m =
     (if m = 2 then (if leap y then 29 else 28) else if m = 4 \<or> m = 6 \<or> m = 9 \<or> m = 11 then 30 else 31)"

definition stamp_valid :: "stamp \<Rightarrow> bool" where
  "stamp_valid t \<longleftrightarrow> 1 \<le> year t \<and> 1 \<le> month t \<and> month t \<le> 12 \<and> 1 \<le> day t \<and>
     day t \<le> days_in_month (year t) (month t) \<and> hour t < 24 \<and> minute t < 60 \<and> second t < 60 \<and>
     \<bar>utcoffset t\<bar> < 24 * 60"

definition rfc3339_key :: "ustr \<Rightarrow> stamp option" where
  "rfc3339_key s =
     (case rfc3339_match s of
        Some t \<Rightarrow> if stamp_valid t then Some t else None
      | None \<Rightarrow> None)"

definition timestamp_ok :: "json \<Rightarrow> bool" where
  "timestamp_ok v =
     (case v of
        JStr s \<Rightarrow> (case rfc3339_key s of Some t \<Rightarrow> utcoffset t = 0 | None \<Rightarrow> False)
      | _ \<Rightarrow> False)"

text \<open>\<open>a > b\<close> for two keys in UTC.\<close>

definition stamp_fields :: "stamp \<Rightarrow> nat list" where
  "stamp_fields t = [year t, month t, day t, hour t, minute t, second t, micro t]"

definition stamp_later :: "stamp \<Rightarrow> stamp \<Rightarrow> bool" where
  "stamp_later a b \<longleftrightarrow> stamp_fields b < stamp_fields a"

subsection \<open>Facts\<close>

lemma timestamp_ok_str: "timestamp_ok v \<Longrightarrow> \<exists>s t. v = JStr s \<and> rfc3339_key s = Some t \<and> utcoffset t = 0"
  by (auto simp: timestamp_ok_def split: json.splits option.splits)

lemma stamp_later_order: "stamp_later a b \<Longrightarrow> \<not> stamp_later b a"
  "stamp_later a b \<Longrightarrow> stamp_later b c \<Longrightarrow> stamp_later a c"
  by (auto simp: stamp_later_def intro: less_trans)

lemma mark_ascii: "mark c r = Some (v, s) \<Longrightarrow> \<exists>w. r = Some (v, c # s) \<and> w = v"
  by (auto simp: mark_def split: option.splits list.splits if_splits)

text \<open>The separator and the zone designator are uppercase, or the value is not a timestamp.\<close>

lemma at_end_newline: "at_end s \<Longrightarrow> at_end (s @ [0x0A]) \<longleftrightarrow> s = []"
  by (auto simp: at_end_def)

end
