(* ===== verification/Codec_Properties.thy ===== *)
theory Codec_Properties
  imports Ijson_Laws Ed25519 Timestamps
begin

section \<open>Properties of the codecs, the hashes and the signatures\<close>

text \<open>
  What the lower half of \<open>packaging/run_vectors.py\<close> promises the verifier: the strict
  payload parser and the canonical serializer, the byte-level string scan, the integer
  rule, base64, the pre-authentication encoding, the Merkle root and Ed25519.
\<close>

subsection \<open>Canonical JSON\<close>

text \<open>C8: \<open>strict_payload_parse\<close> returns an object exactly when the bytes are the canonical
  serialization of that object, the object is inside the integer-only I-JSON profile (unique
  BMP member names, canonical order, no lone surrogate or noncharacter, safe integers, no
  floats) and the two resource bounds hold.  So each accepted payload has exactly one byte form.\<close>

theorem strict_payload_accepts:
  "strict_payload_parse b = Inr d \<longleftrightarrow>
     profile_object d \<and> jcs_dumps (JObj d) = Inr b \<and> length b \<le> max_parse_bytes \<and>
     (\<exists>s. utf8_decode b = Some s \<and> max_json_depth s \<le> max_parse_depth)"
  by (rule strict_payload_parse_iff)

text \<open>C23: what the canonical serializer writes for a profile value within the resource bounds,
  the strict parser reads back as that value in canonical member order.\<close>

theorem jcs_dumps_parse_round_trip:
  assumes "jcs_value v" "ijson_strings v" "jcs_dumps v = Inr b" "length b \<le> max_parse_bytes"
    and "utf8_decode b = Some s" "max_json_depth s \<le> max_parse_depth"
  shows "parse_json_value b = Inr (canon v)"
proof -
  from assms(3) obtain u where u: "jcs_ser v = Inr u" "scans u" "b = utf8_bytes u"
    unfolding jcs_dumps_text [OF assms(1,2)] by blast
  then have su: "scalars u" and sc: "check_string_scalars (utf8_bytes u @ []) = Inr ()"
    by (simp_all only: scans_def check_string_scalars.simps)
  have "s = u" using assms(5) su u(3) by (simp add: utf8_decode_encode)
  moreover have "json_loads safe_integer_literal reject_dup_pairs u = Inr (canon v)"
    by (rule jcs_ser_parses [OF assms(1) keeps_distinct_hooks(1) u(1)])
  ultimately show ?thesis
    using assms(4-6) sc u(3) by (simp add: parse_json_value_Inr)
qed

definition swapped_members :: json where
  "swapped_members = JObj [(lit ''b'', JInt 1), (lit ''a'', JStr (lit ''x''))]"

lemma swapped_facts:
  "jcs_value swapped_members" "ijson_strings swapped_members"
  "jcs_dumps swapped_members = Inr (lit ''{\"a\":\"x\",\"b\":1}'')"
  "length (lit ''{\"a\":\"x\",\"b\":1}'') \<le> max_parse_bytes"
  "utf8_decode (lit ''{\"a\":\"x\",\"b\":1}'') = Some (lit ''{\"a\":\"x\",\"b\":1}'')"
  "max_json_depth (lit ''{\"a\":\"x\",\"b\":1}'') \<le> max_parse_depth"
  by code_simp+

theorem jcs_dumps_parse_round_trip_witness:
  "parse_json_value (lit ''{\"a\":\"x\",\"b\":1}'') = Inr (canon swapped_members)"
  by (rule jcs_dumps_parse_round_trip [OF swapped_facts])

text \<open>Two profile values have the same canonical bytes exactly when they are the same
  value up to the order of object members.\<close>

theorem jcs_dumps_identifies_values:
  assumes "jcs_value v" "ijson_strings v" "jcs_value w" "ijson_strings w"
  shows "jcs_dumps v = jcs_dumps w \<longleftrightarrow> canon v = canon w"
proof -
  obtain t u where t: "jcs_ser v = Inr t" "jcs_ser w = Inr u"
    using jcs_ser_reads [OF assms(1) keeps_distinct_hooks(1)] jcs_ser_reads [OF assms(3) keeps_distinct_hooks(1)] by blast
  have s: "scans t" "scans u"
    using scans_jcs_ser [OF assms(2,1) t(1)] scans_jcs_ser [OF assms(4,3) t(2)] by auto
  then have "jcs_dumps v = jcs_dumps w \<longleftrightarrow> utf8_bytes t = utf8_bytes u"
    using t by (simp add: jcs_dumps_def scans_def utf8_encode_scalars)
  also have "\<dots> \<longleftrightarrow> t = u" using s utf8_bytes_inj by (auto simp: scans_def)
  also have "\<dots> \<longleftrightarrow> canon v = canon w" using jcs_ser_eq_iff [OF assms(1,3)] t by simp
  finally show ?thesis .
qed

definition sorted_members :: json where
  "sorted_members = JObj [(lit ''a'', JStr (lit ''x'')), (lit ''b'', JInt 1)]"

lemma sorted_facts: "jcs_value sorted_members" "ijson_strings sorted_members" "canon swapped_members = canon sorted_members"
  by code_simp+

theorem jcs_dumps_identifies_values_witness: "jcs_dumps swapped_members = jcs_dumps sorted_members"
  using jcs_dumps_identifies_values [OF swapped_facts(1,2) sorted_facts(1,2)] sorted_facts(3) by blast

text \<open>C24: the statement-wide strict pass never raises: on every byte string it answers.\<close>

theorem strict_pass_answers: "\<exists>fault. statement_strict_fault b = Inr fault"
  by (rule statement_strict_fault_total)

text \<open>A statement the strict pass lets through is well-formed UTF-8 within the resource
  bounds, parses, has no duplicate member name at any depth, and every string it decodes to,
  member names included, holds Unicode scalar values only and no noncharacter.\<close>

theorem strict_pass_sound:
  assumes "statement_strict_fault b = Inr False"
  shows "\<exists>s v. utf8_decode b = Some s \<and> length b \<le> max_parse_bytes \<and> max_json_depth s \<le> max_parse_depth \<and>
    json_loads_default s = Inr v \<and> \<not> has_dup v \<and> ijson_strings v"
  using statement_strict_fault_sound [OF assms] by blast

lemma strict_pass_example: "statement_strict_fault (lit ''{\"a\":[true,1.5]}'') = Inr False"
  by code_simp

theorem strict_pass_sound_witness:
  "\<exists>s v. utf8_decode (lit ''{\"a\":[true,1.5]}'') = Some s \<and> json_loads_default s = Inr v \<and> ijson_strings v"
  using strict_pass_sound [OF strict_pass_example] by blast

text \<open>C25: a number literal with a fraction or an exponent is accepted exactly when its value is
  in the range of the decimal context and is an integer of magnitude below 2 to the 53, and
  then it denotes that integer; so the integer is never the rounding of another number.\<close>

theorem integer_literal_exact:
  "safe_integer_literal s = Inr v \<longleftrightarrow>
     literal_in_range s \<and> (\<exists>i. literal_value s = of_int i \<and> \<bar>i\<bar> < safe_int_limit \<and> v = JInt i)"
  by (rule safe_integer_literal_iff)

text \<open>Outside that range the parse raises \<open>decimal.InvalidOperation\<close>, which is not one of the
  exceptions the payload parser turns into a failure code.\<close>

theorem integer_literal_raises:
  "\<not> literal_in_range s \<and> safe_integer_literal s = Inl DecimalInvalidOperation \<or> literal_in_range s"
  using safe_integer_literal_raises by blast

subsection \<open>Byte encodings\<close>

text \<open>Strict base64 decoding accepts exactly the encoder's output, so no two strings
  decode to the same bytes and no byte string lacks one.\<close>

theorem base64_strict: "strict_b64decode s = Inr b \<longleftrightarrow> bytes_ok b \<and> s = b64_encode b"
  by (rule strict_b64decode_iff)

text \<open>UTF-8 decoding inverts encoding on Unicode scalar values and accepts nothing else:
  no surrogate, no overlong form, no value above U+10FFFF.\<close>

theorem utf8_exact: "utf8_decode b = Some s \<longleftrightarrow> scalars s \<and> b = utf8_bytes s"
  by (rule utf8_decode_iff)

text \<open>The digest pattern accepts a 64-digit lowercase hexadecimal string, and also such a
  string followed by one newline, which the pattern's end anchor lets through.\<close>

theorem hex64_pattern: "hex64_match s \<longleftrightarrow> hex64 s \<or> (\<exists>t. hex64 t \<and> s = t @ [0x0A])"
  using hex64_match_iff [of s] by simp

text \<open>On strings inside the basic multilingual plane, ordering by UTF-16 code units (the
  canonical order) is ordering by code points.\<close>

theorem utf16_order_on_bmp:
  assumes "bmp s" "bmp t"
  shows "utf16_be s < utf16_be t \<longleftrightarrow> s < t"
  using assms by (rule utf16_be_less_bmp)

theorem utf16_order_on_bmp_witness: "utf16_be (lit ''a'') < utf16_be (lit ''b'') \<longleftrightarrow> lit ''a'' < lit ''b''"
proof (rule utf16_order_on_bmp)
  show "bmp (lit ''a'')" "bmp (lit ''b'')" by code_simp+
qed

subsection \<open>Authenticated encodings\<close>

text \<open>The pre-authentication encoding determines the payload type and the payload, so a
  signature over it is a signature over exactly one pair.\<close>

theorem pae_determines_pair:
  assumes "pae t p = Inr x" "pae u q = Inr x" "scalars t" "scalars u"
  shows "t = u \<and> p = q"
  using assms by (intro pae_inj) simp_all

theorem pae_determines_pair_witness:
  "\<exists>x. pae (lit ''a'') [7] = Inr x \<and> (\<forall>u q. scalars u \<longrightarrow> pae u q = Inr x \<longrightarrow> u = lit ''a'' \<and> q = [7])"
proof -
  have s: "scalars (lit ''a'')" by code_simp
  obtain x where x: "pae (lit ''a'') [7] = Inr x" using s by (simp add: pae_def utf8_encode_scalars)
  with pae_determines_pair [OF _ x _ s] show ?thesis by blast
qed

text \<open>The root that the index recursion of \<open>merkle_root_hex\<close> computes is the RFC 6962 tree
  hash of the leaf list, for every leaf list that is not empty.\<close>

theorem merkle_root_is_tree_hash:
  "merkle_root_hex H (x # xs) = Inr (hex_of_bytes (tree_hash H (x # xs)))"
  by (rule merkle_root_hex_eq) simp

text \<open>C22: a SHA-256 Merkle root binds the whole list of leaves, order and length included,
  unless two of the strings hashed on the way collide.\<close>

theorem merkle_root_binds_leaves:
  assumes "merkle_root_hex sha256 xs = Inr r" "merkle_root_hex sha256 ys = Inr r"
    and "inj_on sha256 (set (hash_inputs sha256 xs) \<union> set (hash_inputs sha256 ys))"
  shows "xs = ys"
  using assms by (rule sha.merkle_root_binds)

theorem merkle_root_binds_leaves_witness:
  "\<exists>r. merkle_root_hex sha256 [[1, 2]] = Inr r \<and>
     (\<forall>ys. merkle_root_hex sha256 ys = Inr r \<and>
        inj_on sha256 (set (hash_inputs sha256 [[1, 2]]) \<union> set (hash_inputs sha256 ys)) \<longrightarrow> [[1, 2]] = ys) \<and>
     inj_on sha256 (set (hash_inputs sha256 [[1, 2]]) \<union> set (hash_inputs sha256 [[1, 2]]))"
proof -
  obtain r where r: "merkle_root_hex sha256 [[1, 2]] = Inr r" by (simp add: merkle_root_hex_eq)
  moreover have "inj_on sha256 (set (hash_inputs sha256 [[1, 2]]) \<union> set (hash_inputs sha256 [[1, 2]]))"
    by (simp add: hash_inputs.simps)
  ultimately show ?thesis using merkle_root_binds_leaves [OF r] by blast
qed






end
