(* ===== verification/Records.thy ===== *)
theory Records
  imports Ijson Timestamps Merkle
begin

section \<open>Observation records and the run binding\<close>

text \<open>
  The shape helpers of \<open>packaging/run_vectors.py\<close>, its \<open>RecordView\<close>, the observed-set
  digest and the version-2 run binding.  A set of Python values is the list of its
  elements with membership \<open>jin\<close>; putting an unhashable value into one raises
  \<open>TypeError\<close>, and the functions that can do so return a result.
\<close>

subsection \<open>Outcomes\<close>

record outcome =
  codes :: "ustr list"
  out_result :: json
  tiers_with_key :: "ustr list option"
  tiers_without_key :: "ustr list option"

definition new_outcome :: outcome where
  "new_outcome = \<lparr>codes = [], out_result = JNull, tiers_with_key = None, tiers_without_key = None\<rparr>"

definition verdict :: "outcome \<Rightarrow> ustr" where
  "verdict out = (if codes out \<noteq> [] then lit ''invalid'' else lit ''valid'')"

text \<open>\<open>Outcome.add\<close>, on a code given as the ASCII literal of the source.\<close>

definition add_code :: "ustr \<Rightarrow> outcome \<Rightarrow> outcome" where
  "add_code c out = (if c \<in> set (codes out) then out else out\<lparr>codes := codes out @ [c]\<rparr>)"

definition add :: "string \<Rightarrow> outcome \<Rightarrow> outcome" where
  "add c = add_code (lit c)"

definition add_if :: "bool \<Rightarrow> string \<Rightarrow> outcome \<Rightarrow> outcome" where
  "add_if b c out = (if b then add c out else out)"

text \<open>Codes are only ever appended, never twice, and nothing else of the outcome changes.\<close>

definition grows :: "outcome \<Rightarrow> outcome \<Rightarrow> bool" where
  "grows o1 o2 \<longleftrightarrow>
     (\<exists>cs. o2 = o1\<lparr>codes := codes o1 @ cs\<rparr> \<and> (distinct (codes o1) \<longrightarrow> distinct (codes o1 @ cs)))"

lemma grows_refl [grow_intros]: "grows out out"
  unfolding grows_def by (rule exI [of _ "[]"]) simp

lemma grows_trans: "grows o1 o2 \<Longrightarrow> grows o2 o3 \<Longrightarrow> grows o1 o3"
  by (force simp: grows_def)

lemma set_add_code [simp]: "set (codes (add_code c out)) = insert c (set (codes out))"
  by (auto simp: add_code_def)

lemma set_add [simp]: "set (codes (add c out)) = insert (lit c) (set (codes out))"
  by (simp add: add_def)

lemma grows_add_code [grow_intros]: "grows o1 o2 \<Longrightarrow> grows o1 (add_code c o2)"
proof (erule grows_trans)
  show "grows o2 (add_code c o2)"
    using grows_refl [of o2] by (cases "c \<in> set (codes o2)") (auto simp: add_code_def grows_def)
qed

lemma grows_add [grow_intros]: "grows o1 o2 \<Longrightarrow> grows o1 (add c o2)"
  by (simp add: add_def grows_add_code)

lemma grows_add_if [grow_intros]: "grows o1 o2 \<Longrightarrow> grows o1 (add_if b c o2)"
  by (simp add: add_if_def grows_add)

lemma grows_clean: "grows o1 o2 \<Longrightarrow> codes o2 = [] \<Longrightarrow> codes o1 = []"
  by (auto simp: grows_def)

lemma add_not_clean [simp]: "codes (add c out) \<noteq> []"
proof -
  have "lit c \<in> set (codes (add c out))" by simp
  then show ?thesis by (metis empty_iff empty_set)
qed

lemma add_if_clean [simp]: "codes (add_if b c out) = [] \<longleftrightarrow> \<not> b \<and> codes out = []"
  by (simp add: add_if_def)

lemma add_if_simps [simp]: "add_if False c out = out" "add_if True c out = add c out"
  by (simp_all add: add_if_def)

subsection \<open>Shape helpers\<close>

definition need_hash :: "json \<Rightarrow> unit res" where
  "need_hash v = raise_if (\<not> hashable v) TypeError"

definition need_hash_all :: "json list \<Rightarrow> unit res" where
  "need_hash_all vs = raise_if (\<not> list_all hashable vs) TypeError"

definition is_hex64_lower :: "json \<Rightarrow> bool" where
  "is_hex64_lower v = (case v of JStr s \<Rightarrow> hex64_match s | _ \<Rightarrow> False)"

definition digest_of :: "json \<Rightarrow> json" where
  "digest_of obj =
     (case obj of
        JObj o1 \<Rightarrow> (case dget o1 (lit ''digest'') of JObj d \<Rightarrow> dget d (lit ''sha256'') | _ \<Rightarrow> JNull)
      | _ \<Rightarrow> JNull)"

definition sorted_no_dupes :: "ustr list \<Rightarrow> bool res" where
  "sorted_no_dupes vs =
     rbind (rmap utf16_sort_key vs) (\<lambda>keys. Inr (successively (<) keys))"

definition attack_id_array_ok :: "json \<Rightarrow> ustr list \<Rightarrow> bool res" where
  "attack_id_array_ok v declared =
     (case v of
        JArr vs \<Rightarrow>
          if \<not> all_strs vs then Inr False
          else rbind (sorted_no_dupes (map the_str vs)) (\<lambda>s.
            Inr (s \<and> list_all (\<lambda>x. the_str x \<in> set declared) vs))
      | _ \<Rightarrow> Inr False)"

definition commitment_array_ok :: "json \<Rightarrow> bool res" where
  "commitment_array_ok v =
     (case v of
        JArr vs \<Rightarrow>
          if vs = [] then Inr False
          else if \<not> list_all is_hex64_lower vs then Inr False
          else sorted_no_dupes (map the_str vs)
      | _ \<Rightarrow> Inr False)"

definition expected_payloads_ok :: "json \<Rightarrow> ustr list \<Rightarrow> bool res" where
  "expected_payloads_ok v declared =
     (case v of
        JObj d \<Rightarrow>
          rfold (\<lambda>b m. if \<not> b then Inr False
                       else if fst m \<notin> set declared then Inr False
                       else commitment_array_ok (snd m)) True d
      | _ \<Rightarrow> Inr False)"

subsection \<open>Record views\<close>

record record_view =
  idx :: nat
  raw :: json
  payload_type :: json
  payload_bytes :: "bytes option"
  pae_bytes :: "bytes option"
  payload :: "dict option"
  payload_error :: "ustr option"
  decode_err :: bool
  media_ok :: bool
  signature_count :: nat

text \<open>\<open>rec.get(k) if isinstance(rec, dict) else None\<close>.\<close>

definition member :: "json \<Rightarrow> string \<Rightarrow> json" where
  "member v k = dget (the_obj v) (lit k)"

text \<open>The first \<open>try\<close>: the bytes, and whether decoding them failed.\<close>

definition view_bytes :: "json \<Rightarrow> bytes option \<times> bool" where
  "view_bytes rec =
     (case member rec ''payload'' of
        JStr s \<Rightarrow> (case strict_b64decode s of Inl _ \<Rightarrow> (None, True) | Inr b \<Rightarrow> (Some b, False))
      | _ \<Rightarrow> (None, False))"

text \<open>The second: \<open>except IJsonError\<close> keeps the code, anything else propagates.\<close>

definition view_payload :: "bytes option \<Rightarrow> (dict option \<times> ustr option) res" where
  "view_payload pb =
     (case pb of
        None \<Rightarrow> Inr (None, None)
      | Some b \<Rightarrow>
          (case strict_payload_parse b of
             Inr d \<Rightarrow> Inr (Some d, None)
           | Inl (IJsonError code) \<Rightarrow> Inr (None, Some code)
           | Inl e \<Rightarrow> Inl e))"

definition view_pae :: "json \<Rightarrow> bytes option \<Rightarrow> bytes option res" where
  "view_pae pt pb =
     (case (pb, pt) of
        (Some b, JStr t) \<Rightarrow> rbind (pae t b) (\<lambda>p. Inr (Some p))
      | _ \<Rightarrow> Inr None)"

definition new_record_view :: "nat \<Rightarrow> json \<Rightarrow> record_view res" where
  "new_record_view i rec =
     (let pt = member rec ''payloadType'';
          pb = fst (view_bytes rec)
      in rbind (view_pae pt pb) (\<lambda>pb'.
         rbind (view_payload pb) (\<lambda>pp.
           Inr \<lparr>idx = i, raw = rec, payload_type = pt, payload_bytes = pb, pae_bytes = pb',
                payload = fst pp, payload_error = snd pp, decode_err = snd (view_bytes rec),
                media_ok = (case pt of JStr t \<Rightarrow> ends_with (lit ''+json'') t | _ \<Rightarrow> False),
                signature_count = (case member rec ''signatures'' of JArr s \<Rightarrow> length s | _ \<Rightarrow> 0)\<rparr>)))"

text \<open>\<open>rv.payload or {}\<close> and the two properties.\<close>

definition pl :: "record_view \<Rightarrow> dict" where
  "pl rv = (case payload rv of None \<Rightarrow> [] | Some d \<Rightarrow> d)"

definition pget :: "record_view \<Rightarrow> string \<Rightarrow> json" where
  "pget rv k = dget (pl rv) (lit k)"

definition kind :: "record_view \<Rightarrow> json" where
  "kind rv = pget rv ''aeeKind''"

definition rec_method :: "record_view \<Rightarrow> json" where
  "rec_method rv = pget rv ''aeeMethod''"

definition str :: "string \<Rightarrow> json" where
  "str s = JStr (lit s)"

lemma str_inj [simp]: "str s = str t \<longleftrightarrow> s = t"
  by (simp add: str_def)

lemma jin_str [simp]: "jin v (map str ss) \<longleftrightarrow> (\<exists>s \<in> set ss. v = str s)"
  by (auto simp: jin_def list_ex_iff str_def)

subsection \<open>The observed set\<close>

definition leaf_hex :: "(bytes \<Rightarrow> bytes) \<Rightarrow> bytes \<Rightarrow> ustr" where
  "leaf_hex H p = hex_of_bytes (H (0x00 # p))"

definition observed_leaves :: "(bytes \<Rightarrow> bytes) \<Rightarrow> record_view list \<Rightarrow> ustr list" where
  "observed_leaves H views =
     sort (remdups (map (\<lambda>rv. leaf_hex H (the (pae_bytes rv)))
       (filter (\<lambda>rv. pae_bytes rv \<noteq> None \<and> (kind rv = str ''interception'' \<or> kind rv = str ''examination'')) views)))"

definition observed_set_digest :: "(bytes \<Rightarrow> bytes) \<Rightarrow> record_view list \<Rightarrow> ustr res" where
  "observed_set_digest H views =
     rbind (jcs_dumps (JArr (map JStr (observed_leaves H views)))) (\<lambda>b. Inr (sha256_hex H b))"

subsection \<open>The run binding\<close>

definition binding_version :: string where
  "binding_version = ''2''"

definition egress_postures :: "string list" where
  "egress_postures = [''no_network'', ''allowlist'', ''sinkhole'', ''unsafe_bypass_egress'']"

definition posture_preimage_digest :: "(bytes \<Rightarrow> bytes) \<Rightarrow> dict \<Rightarrow> ustr" where
  "posture_preimage_digest H env =
     (case dget env (lit ''networkPosture'') of
        JObj d \<Rightarrow> (case jcs_dumps (JObj d) of Inl _ \<Rightarrow> [] | Inr b \<Rightarrow> sha256_hex H b)
      | _ \<Rightarrow> [])"

text \<open>\<open>v[k]\<close>: an absent member, or a value that is not a dict, raises and is caught as None.\<close>

definition item :: "json \<Rightarrow> string \<Rightarrow> json option" where
  "item v k = (case v of JObj d \<Rightarrow> map_of d (lit k) | _ \<Rightarrow> None)"

definition env_digest :: "dict \<Rightarrow> string \<Rightarrow> json option" where
  "env_digest env k =
     Option.bind (item (JObj env) k) (\<lambda>v. Option.bind (item v ''digest'') (\<lambda>d. item d ''sha256''))"

definition binding_preimage :: "(bytes \<Rightarrow> bytes) \<Rightarrow> dict \<Rightarrow> json \<Rightarrow> dict option" where
  "binding_preimage H env subject_sha =
     Option.bind (env_digest env ''catchPolicy'') (\<lambda>cp.
     Option.bind (env_digest env ''corpus'') (\<lambda>co.
     Option.bind (env_digest env ''observationVocabulary'') (\<lambda>ov.
     Option.bind (env_digest env ''runEntropy'') (\<lambda>re.
     Option.bind (env_digest env ''substrate'') (\<lambda>su.
       Some [(lit ''aeeBindingVersion'', str binding_version),
             (lit ''catchPolicy'', cp),
             (lit ''corpus'', co),
             (lit ''networkPosture'', JStr (posture_preimage_digest H env)),
             (lit ''observationVocabulary'', ov),
             (lit ''runEntropy'', re),
             (lit ''subject'', subject_sha),
             (lit ''substrate'', su)])))))"

end
