(* ===== verification/Gate0.thy ===== *)
theory Gate0
  imports Records
begin

section \<open>GATE 0: statement well-formedness\<close>

text \<open>
  The verifier's state (\<open>_VerifyState\<close>) and the methods of \<open>ReferenceVerifier\<close> that run
  before any record is read: statement type, environment, vocabulary, corpus, rows,
  coverage, per-row members, binding inputs and the fail-closed rows.  A method takes the
  state and the outcome and returns both, or the exception that leaves it.
\<close>

text \<open>What the verifier is run with: the hash, the signature check and Python's \<open>repr\<close>.\<close>

record runtime =
  rt_sha :: "bytes \<Rightarrow> bytes"
  rt_sig :: "bytes \<Rightarrow> bytes \<Rightarrow> bytes \<Rightarrow> bool"
  rt_repr :: "json \<Rightarrow> ustr"

text \<open>\<open>str(v)\<close>, and the format of a value in an f-string.\<close>

definition py_str :: "runtime \<Rightarrow> json \<Rightarrow> ustr" where
  "py_str R v = (case v of JStr s \<Rightarrow> s | _ \<Rightarrow> rt_repr R v)"

record vstate =
  st_stmt :: json
  st_pred :: dict
  st_result :: json
  st_issued_at :: json
  st_env :: dict
  st_vocab :: "dict option"
  st_labels :: "json list option"
  st_caught :: "json list option"
  st_corpus :: json
  st_manifest_classes :: "dict option"
  st_rows :: "dict list"
  st_has_substrate :: bool
  st_coverage :: json
  st_fail_closed_rows :: "nat list"
  st_has_records :: bool
  st_views :: "record_view list"
  st_derived_binding :: "ustr option"
  st_pinned_posture :: json
  st_row_covering :: "nat \<Rightarrow> record_view list option"
  st_declared_attacks :: "ustr list"
  st_expected_payloads :: json

definition new_vstate :: "json \<Rightarrow> vstate" where
  "new_vstate stmt =
     \<lparr>st_stmt = stmt, st_pred = [], st_result = JNull, st_issued_at = JNull, st_env = [],
      st_vocab = None, st_labels = None, st_caught = None, st_corpus = JNull,
      st_manifest_classes = None, st_rows = [], st_has_substrate = False, st_coverage = JNull,
      st_fail_closed_rows = [], st_has_records = False, st_views = [], st_derived_binding = None,
      st_pinned_posture = JNull, st_row_covering = (\<lambda>_. None), st_declared_attacks = [],
      st_expected_payloads = JNull\<rparr>"

definition rget :: "dict \<Rightarrow> string \<Rightarrow> json" where
  "rget r k = dget r (lit k)"

definition rhas :: "dict \<Rightarrow> string \<Rightarrow> bool" where
  "rhas r k = dmem r (lit k)"

definition aee_predicate_type :: string where
  "aee_predicate_type = ''https://in-toto.io/attestation/adversarial-execution-evidence/v0.7''"

definition statement_type :: string where
  "statement_type = ''https://in-toto.io/Statement/v1''"

definition result_order :: "string list" where
  "result_order = [''fail'', ''degraded'', ''pass_indirect'', ''pass'']"

definition in_result_order :: "json \<Rightarrow> bool" where
  "in_result_order v \<longleftrightarrow> jin v (map str result_order)"

text \<open>\<open>_check_statement_type\<close>: whether to stop, and the predicate.\<close>

definition check_statement_type :: "vstate \<Rightarrow> outcome \<Rightarrow> bool \<times> vstate \<times> outcome" where
  "check_statement_type st out =
     (case st_stmt st of
        JObj s \<Rightarrow>
          let out = add_if (rget s ''_type'' \<noteq> str statement_type) ''statement-type-unsupported'' out;
              out = add_if (rget s ''predicateType'' \<noteq> str aee_predicate_type) ''predicate-type-unsupported'' out
          in (case rget s ''predicate'' of
                JObj p \<Rightarrow> (False, st\<lparr>st_pred := p\<rparr>, out)
              | _ \<Rightarrow> (True, st, add ''predicate-type-unsupported'' out))
      | _ \<Rightarrow> (True, st, add ''statement-type-unsupported'' out))"

text \<open>\<open>_check_gate0_wellformed\<close>.\<close>

definition env_members :: "string list" where
  "env_members = [''substrate'', ''corpus'', ''catchPolicy'', ''networkPosture'']"

definition posture_registered :: "dict \<Rightarrow> bool" where
  "posture_registered e =
     (case rget e ''networkPosture'' of
        JObj p \<Rightarrow> (case rget p ''posture'' of JStr s \<Rightarrow> s \<in> set (map lit egress_postures) | _ \<Rightarrow> False)
      | _ \<Rightarrow> True)"

definition check_issued_at :: "json \<Rightarrow> outcome \<Rightarrow> outcome" where
  "check_issued_at v out =
     (if v = JNull then add ''issued-at-missing'' out
      else add_if (\<not> timestamp_ok v) ''issued-at-malformed'' out)"

definition check_gate0_wellformed :: "vstate \<Rightarrow> outcome \<Rightarrow> (vstate \<times> outcome) res" where
  "check_gate0_wellformed st out =
     (let p = st_pred st;
          out = add_if (rhas p ''does_not_assert'') ''member-spelling'' out;
          r = rget p ''result''
      in rbind (need_hash r) (\<lambda>_.
         let out = add_if (\<not> in_result_order r) ''result-vocabulary'' out;
             ia = rget p ''issuedAt'';
             out = check_issued_at ia out;
             e = the_obj (rget p ''observationEnvironment'');
             out = add_if (\<not> list_all (rhas e) env_members) ''environment-incomplete'' out;
             voc = (case rget e ''observationVocabulary'' of JObj v \<Rightarrow> Some v | _ \<Rightarrow> None);
             out = add_if (voc = None) ''vocabulary-missing'' out;
             out = add_if (\<not> posture_registered e) ''posture-vocabulary'' out
         in Inr (st\<lparr>st_result := r, st_issued_at := ia, st_env := e, st_vocab := voc\<rparr>, out)))"

subsection \<open>Vocabulary\<close>

text \<open>\<open>sorted(arr, key=_utf16_sort_key) != arr\<close>, over strings.\<close>

definition utf16_sorted :: "ustr list \<Rightarrow> bool res" where
  "utf16_sorted ss = rbind (rmap utf16_sort_key ss) (\<lambda>_. Inr (sort_key utf16_be ss = ss))"

definition vocab_array_ok :: "json \<Rightarrow> bool res" where
  "vocab_array_ok v =
     (case v of
        JArr xs \<Rightarrow>
          if \<not> all_strs xs then Inr False
          else let ss = map the_str xs in
            rbind (utf16_sorted ss) (\<lambda>s. Inr (s \<and> distinct ss \<and> all_bmp ss))
      | _ \<Rightarrow> Inr False)"

definition vocab_shape_ok :: "json \<Rightarrow> json \<Rightarrow> bool res" where
  "vocab_shape_ok ls ca =
     rbind (vocab_array_ok ls) (\<lambda>a. if \<not> a then Inr False else vocab_array_ok ca)"

definition vocab_digest :: "(bytes \<Rightarrow> bytes) \<Rightarrow> json list \<Rightarrow> json list \<Rightarrow> ustr res" where
  "vocab_digest H ca ls =
     rbind (jcs_dumps (JObj [(lit ''caught'', JArr ca), (lit ''labels'', JArr ls)])) (\<lambda>b.
       Inr (sha256_hex H b))"

definition vocab_check_pairs :: "runtime \<Rightarrow> outcome \<Rightarrow> dict \<Rightarrow> json \<Rightarrow> json \<Rightarrow> outcome res" where
  "vocab_check_pairs R out voc ls ca =
     (case (ls, ca) of
        (JArr l, JArr c) \<Rightarrow>
          rbind (need_hash_all (c @ l)) (\<lambda>_.
            let out = add_if (\<not> list_all (\<lambda>x. jin x l) c) ''vocabulary-caught-not-subset'' out in
            rbind (vocab_digest (rt_sha R) c l) (\<lambda>expect.
              Inr (add_if (digest_of (JObj voc) \<noteq> JStr expect) ''vocabulary-digest-mismatch'' out)))
      | _ \<Rightarrow> Inr out)"

definition check_vocabulary :: "runtime \<Rightarrow> vstate \<Rightarrow> outcome \<Rightarrow> (vstate \<times> outcome) res" where
  "check_vocabulary R st out =
     (case st_vocab st of
        None \<Rightarrow> Inr (st\<lparr>st_labels := None, st_caught := None\<rparr>, out)
      | Some voc \<Rightarrow>
          let ls = rget voc ''labels''; ca = rget voc ''caught'' in
          rbind (vocab_shape_ok ls ca) (\<lambda>ok.
            let out = add_if (\<not> ok) ''vocabulary-not-canonical'' out in
            rbind (vocab_check_pairs R out voc ls ca) (\<lambda>out.
              (case (ls, ca) of
                 (JArr l, JArr c) \<Rightarrow> Inr (st\<lparr>st_labels := Some l, st_caught := Some c\<rparr>, out)
               | _ \<Rightarrow> Inr (st\<lparr>st_labels := None, st_caught := None\<rparr>, out)))))"

subsection \<open>Corpus\<close>

fun catch_jcs_error :: "'a res \<Rightarrow> 'a \<Rightarrow> 'a res" where
  "catch_jcs_error (Inl JcsError) v = Inr v"
| "catch_jcs_error r v = r"

definition corpus_digest :: "runtime \<Rightarrow> outcome \<Rightarrow> json \<Rightarrow> dict \<Rightarrow> outcome res" where
  "corpus_digest R out corpus manifest =
     catch_jcs_error
       (rbind (jcs_dumps (JObj manifest)) (\<lambda>b.
          Inr (add_if (digest_of corpus \<noteq> JStr (sha256_hex (rt_sha R) b)) ''corpus-digest-mismatch'' out)))
       (add ''corpus-digest-mismatch'' out)"

text \<open>Every attack identifier the classes list, in order.\<close>

definition class_ids :: "dict \<Rightarrow> json list" where
  "class_ids classes = concat (map (\<lambda>m. the_arr (snd m)) classes)"

definition corpus_declares_attack :: "outcome \<Rightarrow> json \<Rightarrow> outcome" where
  "corpus_declares_attack out classes =
     add_if (class_ids (the_obj classes) = []) ''corpus-manifest-no-attacks'' out"

definition corpus_dupes :: "outcome \<Rightarrow> dict \<Rightarrow> outcome res" where
  "corpus_dupes out classes =
     rbind (rfold (\<lambda>(seen, out) aid.
         rbind (need_hash aid) (\<lambda>_.
           Inr (aid # seen, add_if (jin aid seen) ''manifest-duplicate-attack'' out)))
       ([], out) (class_ids classes)) (\<lambda>(_, out). Inr out)"

definition declared_attack_ids :: "dict \<Rightarrow> ustr list" where
  "declared_attack_ids classes = map the_str (filter is_str (class_ids classes))"

definition check_corpus :: "runtime \<Rightarrow> vstate \<Rightarrow> outcome \<Rightarrow> (vstate \<times> outcome) res" where
  "check_corpus R st out =
     (let co = rget (st_env st) ''corpus''; st = st\<lparr>st_corpus := co\<rparr> in
      case co of
        JObj c \<Rightarrow>
          let mani = rget c ''manifest'';
              classes = rget (the_obj mani) ''classes'';
              out = add_if (mani = JNull) ''environment-incomplete'' out
          in rbind (case mani of
                      JObj m \<Rightarrow> rbind (corpus_digest R out co m) (\<lambda>out. Inr (corpus_declares_attack out classes))
                    | _ \<Rightarrow> Inr out) (\<lambda>out.
             rbind (case classes of JObj cl \<Rightarrow> corpus_dupes out cl | _ \<Rightarrow> Inr out) (\<lambda>out.
             let st = (case classes of
                         JObj cl \<Rightarrow> st\<lparr>st_manifest_classes := Some cl, st_declared_attacks := declared_attack_ids cl\<rparr>
                       | _ \<Rightarrow> st\<lparr>st_manifest_classes := None\<rparr>)
             in (case mani of
                   JObj m \<Rightarrow>
                     if rhas m ''expectedPayloads'' then
                       let expected = rget m ''expectedPayloads'' in
                       rbind (expected_payloads_ok expected (st_declared_attacks st)) (\<lambda>ok.
                         if ok then Inr (st\<lparr>st_expected_payloads := expected\<rparr>, out)
                         else Inr (st, add ''manifest-expected-payloads-malformed'' out))
                     else Inr (st, out)
                 | _ \<Rightarrow> Inr (st, out))))
      | _ \<Rightarrow> Inr (st\<lparr>st_manifest_classes := None\<rparr>, out))"

subsection \<open>Rows and coverage\<close>

definition check_rows_setup :: "vstate \<Rightarrow> vstate" where
  "check_rows_setup st =
     (let rs = map the_obj (filter is_obj (the_arr (rget (st_pred st) ''attackResults''))) in
      st\<lparr>st_rows := rs, st_has_substrate := list_ex (\<lambda>r. rget r ''basis'' = str ''substrate'') rs\<rparr>)"

definition check_subject_cardinality :: "vstate \<Rightarrow> outcome \<Rightarrow> outcome" where
  "check_subject_cardinality st out =
     add_if (length (the_arr (rget (the_obj (st_stmt st)) ''subject'')) \<noteq> 1) ''subject-cardinality'' out"

text \<open>A dict whose keys are values: \<open>acct.get(c, 0)\<close> and \<open>acct[c] = n\<close>.\<close>

fun jget :: "(json \<times> 'a) list \<Rightarrow> json \<Rightarrow> 'a option" where
  "jget [] k = None"
| "jget ((k', v) # d) k = (if py_same k k' then Some v else jget d k)"

fun jset :: "(json \<times> 'a) list \<Rightarrow> json \<Rightarrow> 'a \<Rightarrow> (json \<times> 'a) list" where
  "jset [] k v = [(k, v)]"
| "jset ((k', v') # d) k v = (if py_same k k' then (k', v) # d else (k', v') # jset d k v)"

definition count_of :: "(json \<times> nat) list \<Rightarrow> json \<Rightarrow> nat" where
  "count_of acct c = (case jget acct c of None \<Rightarrow> 0 | Some n \<Rightarrow> n)"

definition account :: "json list \<Rightarrow> (json \<times> nat) list" where
  "account cs = foldl (\<lambda>acct c. jset acct c (count_of acct c + 1)) [] cs"

definition key_values :: "dict \<Rightarrow> json list" where
  "key_values d = map (\<lambda>m. JStr (fst m)) d"

definition coverage_partition_ok :: "dict \<Rightarrow> json list \<Rightarrow> dict \<Rightarrow> dict \<Rightarrow> bool res" where
  "coverage_partition_ok classes assessed oos routed =
     rbind (need_hash_all assessed) (\<lambda>_.
       let acct = account (assessed @ key_values oos @ key_values routed) in
       Inr (list_all (\<lambda>m. snd m = 1 \<and> jin (fst m) (key_values classes)) acct \<and>
            list_all (\<lambda>c. count_of acct c = 1) (key_values classes)))"

text \<open>\<open>_coverage_index\<close>: the first class of each attack, and the attacks the assessed classes list.\<close>

definition attack_class_index :: "dict \<Rightarrow> (json \<times> ustr) list res" where
  "attack_class_index classes =
     rbind (need_hash_all (class_ids classes)) (\<lambda>_.
       Inr (concat (map (\<lambda>m. map (\<lambda>aid. (aid, fst m)) (the_arr (snd m))) classes)))"

definition class_lookup :: "dict \<Rightarrow> json \<Rightarrow> json" where
  "class_lookup classes c = (case c of JStr s \<Rightarrow> dget classes s | _ \<Rightarrow> JNull)"

definition expected_attack_ids :: "dict \<Rightarrow> json list \<Rightarrow> json list" where
  "expected_attack_ids classes assessed = concat (map (\<lambda>c. the_arr (class_lookup classes c)) assessed)"

definition coverage_row ::
  "(json \<times> ustr) list \<Rightarrow> json list \<Rightarrow> json list \<times> outcome \<Rightarrow> dict \<Rightarrow> (json list \<times> outcome) res" where
  "coverage_row index assessed acc r =
     (case acc of (row_ids, out) \<Rightarrow>
        let aid = rget r ''attackId'' in
        rbind (need_hash aid) (\<lambda>_.
          let out = add_if (jin aid row_ids) ''statement-malformed'' out in
          Inr (aid # row_ids,
            (case jget index aid of
               None \<Rightarrow> add ''row-attack-unknown'' out
             | Some cls \<Rightarrow> add_if (\<not> jin (JStr cls) assessed) ''coverage-incomplete'' out))))"

definition coverage_check_rows :: "vstate \<Rightarrow> outcome \<Rightarrow> dict \<Rightarrow> json list \<Rightarrow> outcome res" where
  "coverage_check_rows st out classes assessed =
     rbind (attack_class_index classes) (\<lambda>index.
     rbind (rfold (coverage_row index assessed) ([], out) (st_rows st)) (\<lambda>(row_ids, out).
       Inr (add_if (list_ex (\<lambda>i. \<not> (jin i row_ids \<and> jget index i \<noteq> None))
                     (expected_attack_ids classes assessed)) ''coverage-incomplete'' out)))"

definition check_coverage :: "vstate \<Rightarrow> outcome \<Rightarrow> (vstate \<times> outcome) res" where
  "check_coverage st out =
     (let cov = rget (st_pred st) ''coverage''; st = st\<lparr>st_coverage := cov\<rparr> in
      case cov of
        JObj c \<Rightarrow>
          (case st_manifest_classes st of
             None \<Rightarrow> Inr (st, out)
           | Some classes \<Rightarrow>
               let assessed = the_arr (rget c ''assessedClasses'');
                   oos = the_obj (rget c ''outOfScope'');
                   routed = the_obj (rget c ''routedElsewhere'')
               in rbind (coverage_partition_ok classes assessed oos routed) (\<lambda>ok.
                  rbind (coverage_check_rows st (add_if (\<not> ok) ''coverage-incomplete'' out) classes assessed)
                    (\<lambda>out. Inr (st, out))))
      | _ \<Rightarrow> Inr (st, add ''coverage-missing'' out))"

subsection \<open>Per-row members\<close>

definition row_members :: "string list" where
  "row_members = [''attackId'', ''containmentObserved'', ''basis'', ''method'', ''actualLayer'']"

definition row_typed :: "dict \<Rightarrow> bool" where
  "row_typed r \<longleftrightarrow> list_all (\<lambda>m. rhas r m \<longrightarrow> is_str (rget r m)) row_members"

text \<open>\<open>x in xs\<close> where the list may be absent.\<close>

definition in_opt :: "json \<Rightarrow> json list option \<Rightarrow> bool" where
  "in_opt v xs = (case xs of None \<Rightarrow> False | Some l \<Rightarrow> jin v l)"

definition clean_label :: "json \<Rightarrow> json list \<Rightarrow> json list \<Rightarrow> bool" where
  "clean_label lab ls ca \<longleftrightarrow> jin lab ls \<and> \<not> jin lab ca"

definition clean_layer_bad :: "json list \<Rightarrow> json list \<Rightarrow> dict \<Rightarrow> bool" where
  "clean_layer_bad ls ca r \<longleftrightarrow>
     clean_label (rget r ''containmentObserved'') ls ca \<and> rhas r ''actualLayer'' \<and>
     rget r ''actualLayer'' \<noteq> str ''none''"

definition check_per_row_statements :: "vstate \<Rightarrow> outcome \<Rightarrow> outcome" where
  "check_per_row_statements st out =
     (let rs = st_rows st;
          out = add_if (\<not> list_all row_typed rs) ''statement-malformed'' out;
          out = add_if (\<not> list_all (\<lambda>r. rhas r ''actualLayer'') rs) ''malformed-missing-actual-layer'' out
      in (case (st_labels st, st_caught st) of
            (Some ls, Some ca) \<Rightarrow> add_if (list_ex (clean_layer_bad ls ca) rs) ''clean-row-layer-not-none'' out
          | _ \<Rightarrow> out))"

subsection \<open>Binding inputs and fail-closed rows\<close>

definition digest_not_canonical :: "json \<Rightarrow> bool" where
  "digest_not_canonical v \<longleftrightarrow> v \<noteq> JNull \<and> \<not> is_hex64_lower v"

definition binding_inputs :: "dict \<Rightarrow> json \<Rightarrow> json list" where
  "binding_inputs e subj =
     [subj, digest_of (rget e ''substrate''), digest_of (rget e ''corpus''), digest_of (rget e ''catchPolicy''),
      digest_of (rget e ''networkPosture''), digest_of (rget e ''runEntropy'')]"

definition check_substrate_binding_inputs :: "vstate \<Rightarrow> outcome \<Rightarrow> outcome" where
  "check_substrate_binding_inputs st out =
     (if \<not> st_has_substrate st then out
      else
        let subject = the_arr (rget (the_obj (st_stmt st)) ''subject'');
            subj = (case subject of [] \<Rightarrow> JNull | s # _ \<Rightarrow> digest_of s);
            out = add_if (subject \<noteq> [] \<and> subj = JNull) ''subject-sha256-missing'' out;
            out = add_if (\<not> rhas (st_env st) ''runEntropy'') ''run-entropy-missing'' out
        in add_if (list_ex digest_not_canonical (binding_inputs (st_env st) subj)) ''digest-not-canonical'' out)"

definition basis_known :: "dict \<Rightarrow> bool" where
  "basis_known r \<longleftrightarrow> jin (rget r ''basis'') (map str [''substrate'', ''artifact''])"

definition method_known :: "dict \<Rightarrow> bool" where
  "method_known r \<longleftrightarrow> jin (rget r ''method'') (map str [''intercepted'', ''reconstructed''])"

definition attribution_known :: "dict \<Rightarrow> bool" where
  "attribution_known r \<longleftrightarrow> jin (rget r ''attribution'') (map str [''pinned'', ''paired''])"

definition row_fails_closed :: "json list option \<Rightarrow> dict \<Rightarrow> bool" where
  "row_fails_closed ls r \<longleftrightarrow>
     (case ls of None \<Rightarrow> False | Some l \<Rightarrow> \<not> jin (rget r ''containmentObserved'') l) \<or>
     \<not> basis_known r \<or> \<not> method_known r \<or> \<not> attribution_known r"

definition is_substrate :: "dict \<Rightarrow> bool" where
  "is_substrate r \<longleftrightarrow> rget r ''basis'' = str ''substrate''"

definition check_fail_closed_rows :: "vstate \<Rightarrow> outcome \<Rightarrow> vstate \<times> outcome" where
  "check_fail_closed_rows st out =
     (st\<lparr>st_fail_closed_rows :=
           map fst (filter (\<lambda>(i, r). row_fails_closed (st_labels st) r) (enumerate 0 (st_rows st)))\<rparr>,
      add_if (list_ex (\<lambda>r. row_fails_closed (st_labels st) r \<and> is_substrate r) (st_rows st))
        ''fail-closed-substrate-row'' out)"

end
