(* ===== verification/Gate1.thy ===== *)
theory Gate1
  imports Gate0
begin

section \<open>Records, run binding and GATE 1\<close>

text \<open>
  The statement-level record checks of \<open>ReferenceVerifier\<close>, the derivation of the run
  binding and the per-row coverage gate: what each kind of record must satisfy to cover a
  row, and which records cover which row.
\<close>

subsection \<open>Statement-level record checks\<close>

fun catch_repr :: "runtime \<Rightarrow> json \<Rightarrow> bytes res \<Rightarrow> bytes res" where
  "catch_repr R v (Inl JcsError) = utf8_encode (rt_repr R v)"
| "catch_repr R v r = r"

definition jcs_dumps_safe :: "runtime \<Rightarrow> json \<Rightarrow> bytes res" where
  "jcs_dumps_safe R v = catch_repr R v (jcs_dumps v)"

definition records_batch_root :: "runtime \<Rightarrow> outcome \<Rightarrow> dict \<Rightarrow> record_view list \<Rightarrow> outcome res" where
  "records_batch_root R out p vs =
     (let root = rget p ''batchRoot'' in
      if root = JNull then Inr (add ''batch-root-missing'' out)
      else if list_all (\<lambda>v. pae_bytes v \<noteq> None) vs then
        rbind (merkle_root_hex (rt_sha R) (map (\<lambda>v. the (pae_bytes v)) vs)) (\<lambda>h.
          Inr (add_if (JStr h \<noteq> root) ''batch-root-mismatch'' out))
      else Inr (add ''batch-root-mismatch'' out))"

definition duplicate_step ::
  "runtime \<Rightarrow> bytes list \<times> outcome \<Rightarrow> record_view \<Rightarrow> (bytes list \<times> outcome) res" where
  "duplicate_step R acc v =
     (case acc of (seen, out) \<Rightarrow>
        if decode_err v then Inr (seen, out)
        else rbind (case pae_bytes v of Some p \<Rightarrow> Inr p | None \<Rightarrow> jcs_dumps_safe R (raw v)) (\<lambda>key.
          Inr (key # seen, add_if (key \<in> set seen) ''duplicate-record'' out)))"

definition records_duplicates :: "runtime \<Rightarrow> outcome \<Rightarrow> record_view list \<Rightarrow> outcome res" where
  "records_duplicates R out vs = rbind (rfold (duplicate_step R) ([], out) vs) (\<lambda>(_, out). Inr out)"

definition build_views :: "json list \<Rightarrow> record_view list res" where
  "build_views recs = rmap (\<lambda>(i, rec). new_record_view i rec) (enumerate 0 recs)"

definition check_records :: "runtime \<Rightarrow> vstate \<Rightarrow> outcome \<Rightarrow> (vstate \<times> outcome) res" where
  "check_records R st out =
     (let p = st_pred st; recs = the_arr (rget p ''observationRecords'') in
      if recs \<noteq> [] then
        rbind (build_views recs) (\<lambda>vs.
          let out = add_if (list_ex (\<lambda>v. signature_count v = 0) vs) ''record-signatures-empty'' out in
          rbind (if list_ex decode_err vs then Inr (add ''record-undecodable'' out)
                 else records_batch_root R out p vs) (\<lambda>out.
          rbind (records_duplicates R out vs) (\<lambda>out.
            Inr (st\<lparr>st_has_records := True, st_views := vs\<rparr>, out))))
      else
        Inr (st\<lparr>st_has_records := False, st_views := []\<rparr>,
             add_if (rget p ''batchRoot'' \<noteq> JNull) ''batch-root-orphaned'' out))"

subsection \<open>Run binding\<close>

definition subject_sha :: "json \<Rightarrow> json option" where
  "subject_sha stmt =
     (case rget (the_obj stmt) ''subject'' of
        JArr (s # _) \<Rightarrow> Option.bind (item s ''digest'') (\<lambda>d. item d ''sha256'')
      | _ \<Rightarrow> None)"

definition derive_binding :: "(bytes \<Rightarrow> bytes) \<Rightarrow> json \<Rightarrow> dict \<Rightarrow> ustr option res" where
  "derive_binding H stmt e =
     (case Option.bind (subject_sha stmt) (binding_preimage H e) of
        None \<Rightarrow> Inr None
      | Some vals \<Rightarrow>
          if list_all (\<lambda>m. is_str (snd m)) vals
          then rbind (jcs_dumps (JObj vals)) (\<lambda>b. Inr (Some (sha256_hex H b)))
          else Inr None)"

definition check_run_binding :: "runtime \<Rightarrow> vstate \<Rightarrow> vstate res" where
  "check_run_binding R st =
     (if st_has_substrate st
      then rbind (derive_binding (rt_sha R) (st_stmt st) (st_env st)) (\<lambda>d. Inr (st\<lparr>st_derived_binding := d\<rparr>))
      else Inr (st\<lparr>st_derived_binding := None\<rparr>))"

text \<open>\<open>None\<close> compares equal to an absent member.\<close>

definition opt_str :: "ustr option \<Rightarrow> json" where
  "opt_str s = (case s of None \<Rightarrow> JNull | Some t \<Rightarrow> JStr t)"

subsection \<open>Record kinds\<close>

definition chain_scope_vocab :: "string list" where
  "chain_scope_vocab = [''subject'', ''corpus'', ''networkPosture'']"

definition dhas :: "dict \<Rightarrow> string \<Rightarrow> bool" where
  "dhas p k = dmem p (lit k)"

definition chain_scope_ok :: "json \<Rightarrow> bool res" where
  "chain_scope_ok v =
     (case v of
        JArr toks \<Rightarrow>
          rbind (need_hash_all (takeWhile (\<lambda>t. hashable t \<longrightarrow> jin t (map str chain_scope_vocab)) toks)) (\<lambda>_.
            if \<not> list_all (\<lambda>t. jin t (map str chain_scope_vocab)) toks then Inr False
            else Inr (sort_key utf16_be (map the_str toks) = map the_str toks \<and> distinct (map the_str toks)))
      | _ \<Rightarrow> Inr False)"

definition arming_chain_ok :: "dict \<Rightarrow> bool res" where
  "arming_chain_ok p =
     (let has_seq = dhas p ''aeeRunSeq''; has_prev = dhas p ''aeePrevRunBinding'';
          has_scope = dhas p ''aeeChainScope'' in
      if \<not> has_seq then Inr (\<not> has_prev \<and> \<not> has_scope)
      else (case as_int (rget p ''aeeRunSeq'') of
        None \<Rightarrow> Inr False
      | Some seq \<Rightarrow>
          if seq < 1 then Inr False
          else rbind (chain_scope_ok (rget p ''aeeChainScope'')) (\<lambda>ok.
            if \<not> ok then Inr False
            else if seq = 1 then Inr (\<not> has_prev)
            else Inr (is_hex64_lower (rget p ''aeePrevRunBinding'')))))"

text \<open>\<open>a > b\<close> between two carried timestamps, when the second is one.\<close>

definition armed_after :: "json \<Rightarrow> json \<Rightarrow> bool" where
  "armed_after armed issued =
     (timestamp_ok issued \<and>
      (case (armed, issued) of
         (JStr a, JStr b) \<Rightarrow>
           (case (rfc3339_key a, rfc3339_key b) of (Some x, Some y) \<Rightarrow> stamp_later x y | _ \<Rightarrow> False)
       | _ \<Rightarrow> False))"

definition arming_ok :: "record_view \<Rightarrow> json \<Rightarrow> json \<Rightarrow> ustr list \<Rightarrow> bool res" where
  "arming_ok rv pinned issued declared =
     (let p = pl rv; armed = rget p ''armedAt''; bv = rget p ''aeeBindingVersion'' in
      if \<not> timestamp_ok armed then Inr False
      else if armed_after armed issued then Inr False
      else if \<not> py_eq (rget p ''aeePostureDigest'') pinned then Inr False
      else if rget p ''aeeMethod'' \<noteq> str ''intercepted'' then Inr False
      else if bv \<noteq> JNull \<and> bv \<noteq> str binding_version then Inr False
      else rbind (arming_chain_ok p) (\<lambda>ok.
        if \<not> ok then Inr False else attack_id_array_ok (rget p ''aeeAssessedAttacks'') declared))"

definition drops_ok :: "dict \<Rightarrow> bool" where
  "drops_ok p =
     (case as_int (rget p ''aeeDropCount'') of
        None \<Rightarrow> False
      | Some drops \<Rightarrow>
          0 \<le> drops \<and>
          (0 < drops \<longrightarrow>
             (case as_int (rget p ''aeeDropBound'') of None \<Rightarrow> False | Some bound \<Rightarrow> drops \<le> bound)))"

definition sealed_commitments_ok :: "dict \<Rightarrow> ustr list \<Rightarrow> bool res" where
  "sealed_commitments_ok p declared =
     (if \<not> is_hex64_lower (rget p ''aeeObservedSet'') then Inr False
      else attack_id_array_ok (rget p ''aeeObservedAttacks'') declared)"

definition sealed_ok :: "record_view \<Rightarrow> json \<Rightarrow> ustr list \<Rightarrow> ustr list \<Rightarrow> bool res" where
  "sealed_ok rv pinned arming_postures declared =
     (let p = pl rv; posture = rget p ''aeePostureDigest'' in
      if rget p ''aeeStillArmed'' \<noteq> JBool True then Inr False
      else if \<not> drops_ok p then Inr False
      else if \<not> py_eq posture pinned then Inr False
      else if list_ex (\<lambda>ap. posture \<noteq> JStr ap) arming_postures then Inr False
      else if rget p ''aeeMethod'' \<noteq> str ''intercepted'' then Inr False
      else sealed_commitments_ok p declared)"

definition examination_ok :: "record_view \<Rightarrow> bool" where
  "examination_ok rv \<longleftrightarrow> pget rv ''aeeMethod'' = str ''reconstructed''"

text \<open>\<open>_record_verifies\<close>: some entry decodes and verifies under some pinned key.\<close>

definition sig_verifies :: "runtime \<Rightarrow> bytes list \<Rightarrow> bytes \<Rightarrow> json \<Rightarrow> bool" where
  "sig_verifies R pubs p sg =
     (case sg of
        JObj d \<Rightarrow>
          (case rget d ''sig'' of
             JStr s \<Rightarrow>
               (case strict_b64decode s of
                  Inl _ \<Rightarrow> False
                | Inr b \<Rightarrow> list_ex (\<lambda>pub. rt_sig R pub p b) pubs)
           | _ \<Rightarrow> False)
      | _ \<Rightarrow> False)"

definition record_verifies :: "runtime \<Rightarrow> bytes list \<Rightarrow> record_view \<Rightarrow> bool" where
  "record_verifies R pubs rv =
     (case pae_bytes rv of
        None \<Rightarrow> False
      | Some p \<Rightarrow> list_ex (sig_verifies R pubs p) (the_arr (member (raw rv) ''signatures'')))"

subsection \<open>Resolving references\<close>

definition refs_in_range :: "nat \<Rightarrow> dict \<Rightarrow> bool" where
  "refs_in_range n r \<longleftrightarrow>
     list_all (\<lambda>ref. case as_int ref of None \<Rightarrow> True | Some i \<Rightarrow> i < int n)
       (the_arr (rget r ''observationRefs''))"

definition check_refs_in_range :: "vstate \<Rightarrow> outcome \<Rightarrow> outcome" where
  "check_refs_in_range st out =
     add_if (\<not> list_all (refs_in_range (length (st_views st))) (st_rows st)) ''ref-out-of-range'' out"

definition ref_malformed :: "json \<Rightarrow> bool" where
  "ref_malformed ref = (case as_int ref of None \<Rightarrow> True | Some i \<Rightarrow> i < 0)"

definition ref_beyond :: "nat \<Rightarrow> json \<Rightarrow> bool" where
  "ref_beyond n ref = (case as_int ref of None \<Rightarrow> False | Some i \<Rightarrow> int n \<le> i)"

definition resolve_ref :: "record_view list \<Rightarrow> json \<Rightarrow> record_view list" where
  "resolve_ref vs ref =
     (case as_int ref of
        None \<Rightarrow> []
      | Some i \<Rightarrow> if 0 \<le> i \<and> i < int (length vs) then [vs ! nat i] else [])"

text \<open>\<open>_gate1_resolve_refs\<close>; \<open>None\<close> when some index failed and none resolved.\<close>

definition gate1_resolve_refs ::
  "vstate \<Rightarrow> outcome \<Rightarrow> json list \<Rightarrow> record_view list option \<times> outcome" where
  "gate1_resolve_refs st out refs =
     (let vs = st_views st;
          out' = foldl (\<lambda>out ref. add_if (ref_beyond (length vs) ref) ''ref-out-of-range''
                            (add_if (ref_malformed ref) ''ref-malformed'' out)) out refs;
          ref_views = concat (map (resolve_ref vs) refs);
          refs_ok = list_all (\<lambda>ref. \<not> ref_malformed ref \<and> \<not> ref_beyond (length vs) ref) refs
      in (if \<not> refs_ok \<and> ref_views = [] then None else Some ref_views, out'))"

subsection \<open>Payload validity of a referenced record\<close>

definition reserved_members :: "string list" where
  "reserved_members = [''aeeRunBinding'', ''aeeKind'', ''aeeMethod'']"

definition gate1_check_payload :: "ustr option \<Rightarrow> outcome \<Rightarrow> record_view \<Rightarrow> outcome" where
  "gate1_check_payload derived out rv =
     (let out = add_if (\<not> media_ok rv) ''payload-media-type'' out in
      case payload_error rv of
        Some code \<Rightarrow> add_code code out
      | None \<Rightarrow>
          (case payload rv of
             None \<Rightarrow> add ''payload-not-canonical'' out
           | Some p \<Rightarrow>
               add_if (derived \<noteq> None \<and> dhas p ''aeeRunBinding'' \<and> rget p ''aeeRunBinding'' \<noteq> opt_str derived)
                 ''run-binding-mismatch''
                 (add_if (\<not> list_all (dhas p) reserved_members) ''payload-missing-reserved'' out)))"

subsection \<open>Class match\<close>

definition covering_kinds :: "string list" where
  "covering_kinds = [''interception'', ''arming'', ''sealed'', ''examination'']"

definition covering_kind :: "record_view \<Rightarrow> bool" where
  "covering_kind rv \<longleftrightarrow> jin (kind rv) (map str covering_kinds)"

text \<open>\<open>_covers_nothing\<close>: the lookup \<open>get(rv.kind or "")\<close> raises on an unhashable kind.\<close>

definition kind_covers_nothing :: "record_view \<Rightarrow> string option res" where
  "kind_covers_nothing rv =
     rbind (raise_if (truthy (kind rv) \<and> \<not> hashable (kind rv)) TypeError) (\<lambda>_.
       Inr (if kind rv = str ''moat-drop'' then Some ''moat-drop-covers-nothing''
            else if kind rv = str ''uncommitted-observation''
            then Some ''uncommitted-observation-covers-nothing''
            else if \<not> covering_kind rv then Some ''record-kind-unknown-covers-nothing''
            else None))"

fun covers_nothing :: "record_view list \<Rightarrow> string option res" where
  "covers_nothing [] = Inr None"
| "covers_nothing (rv # rvs) =
     rbind (kind_covers_nothing rv) (\<lambda>c. case c of Some code \<Rightarrow> Inr (Some code) | None \<Rightarrow> covers_nothing rvs)"

definition uncovered_code :: "string option \<Rightarrow> string \<Rightarrow> string" where
  "uncovered_code cn specific = (case cn of None \<Rightarrow> specific | Some c \<Rightarrow> c)"

fun rfilter :: "('a \<Rightarrow> bool res) \<Rightarrow> 'a list \<Rightarrow> 'a list res" where
  "rfilter f [] = Inr []"
| "rfilter f (x # xs) = rbind (f x) (\<lambda>b. rbind (rfilter f xs) (\<lambda>ys. Inr (if b then x # ys else ys)))"

definition of_kind :: "string \<Rightarrow> record_view list \<Rightarrow> record_view list" where
  "of_kind k rvs = filter (\<lambda>rv. kind rv = str k) rvs"

text \<open>What a cover rule reports when no record of its kind is there, or none is good.\<close>

definition cover_code ::
  "string option \<Rightarrow> string \<Rightarrow> string \<Rightarrow> record_view list \<Rightarrow> record_view list \<Rightarrow> outcome \<Rightarrow> outcome" where
  "cover_code cn uncovered nothing found good out =
     (if found = [] then add (uncovered_code cn uncovered) out
      else add_if (good = []) nothing out)"

definition gate1_cover_reconstructed ::
  "outcome \<Rightarrow> record_view list \<Rightarrow> string option \<Rightarrow> record_view list \<times> outcome" where
  "gate1_cover_reconstructed out usable cn =
     (let exams = of_kind ''examination'' usable; good = filter examination_ok exams in
      (good, cover_code cn ''reconstructed-row-uncovered'' ''examination-covers-nothing'' exams good out))"

definition caught_step ::
  "record_view list \<times> outcome \<Rightarrow> record_view \<Rightarrow> (record_view list \<times> outcome) res" where
  "caught_step acc rv =
     (case acc of (good, out) \<Rightarrow>
        let v = pget rv ''aeePayloadCommitment'' in
        if v = JNull then Inr (good, add ''payload-missing-reserved'' out)
        else rbind (commitment_array_ok v) (\<lambda>ok.
          if \<not> ok then Inr (good, add ''payload-commitment-malformed'' out)
          else Inr (good @ [rv], out)))"

definition gate1_cover_caught ::
  "outcome \<Rightarrow> record_view list \<Rightarrow> string option \<Rightarrow> (record_view list \<times> outcome) res" where
  "gate1_cover_caught out usable cn =
     (let inters = of_kind ''interception'' usable in
      if inters = [] then Inr ([], add (uncovered_code cn ''caught-row-uncovered'') out)
      else rfold caught_step ([], out) inters)"

definition gate1_clean_arm ::
  "vstate \<Rightarrow> outcome \<Rightarrow> record_view list \<Rightarrow> string option \<Rightarrow> json \<Rightarrow> (record_view list \<times> outcome) res" where
  "gate1_clean_arm st out usable cn pinned =
     (let armings = of_kind ''arming'' usable in
      rbind (rfilter (\<lambda>rv. arming_ok rv pinned (st_issued_at st) (st_declared_attacks st)) armings) (\<lambda>good.
        Inr (good, cover_code cn ''clean-row-uncovered'' ''arming-covers-nothing'' armings good out)))"

definition posture_claims :: "record_view list \<Rightarrow> ustr list" where
  "posture_claims rvs =
     map the_str (filter is_str (map (\<lambda>rv. pget rv ''aeePostureDigest'') (of_kind ''arming'' rvs)))"

definition gate1_clean_seal ::
  "vstate \<Rightarrow> outcome \<Rightarrow> record_view list \<Rightarrow> string option \<Rightarrow> json \<Rightarrow> (record_view list \<times> outcome) res" where
  "gate1_clean_seal st out usable cn pinned =
     (let seals = of_kind ''sealed'' usable in
      rbind (rfilter (\<lambda>rv. sealed_ok rv pinned (posture_claims usable) (st_declared_attacks st)) seals) (\<lambda>good.
        Inr (good, cover_code cn ''clean-row-uncovered'' ''sealed-covers-nothing'' seals good out)))"

definition gate1_cover_clean ::
  "vstate \<Rightarrow> outcome \<Rightarrow> record_view list \<Rightarrow> string option \<Rightarrow> json \<Rightarrow> (record_view list \<times> outcome) res" where
  "gate1_cover_clean st out usable cn pinned =
     rbind (gate1_clean_arm st out usable cn pinned) (\<lambda>(good_arm, out).
     rbind (gate1_clean_seal st out usable cn pinned) (\<lambda>(good_seal, out).
       Inr (good_arm @ good_seal, out)))"

definition usable_views :: "record_view list \<Rightarrow> record_view list" where
  "usable_views rvs = filter (\<lambda>rv. payload rv \<noteq> None \<and> media_ok rv) rvs"

definition gate1_class_match ::
  "vstate \<Rightarrow> outcome \<Rightarrow> dict \<Rightarrow> record_view list \<Rightarrow> json \<Rightarrow> (record_view list \<times> outcome) res" where
  "gate1_class_match st out r ref_views pinned =
     (let usable = usable_views ref_views in
      rbind (covers_nothing usable) (\<lambda>cn.
        if rget r ''method'' = str ''reconstructed'' then Inr (gate1_cover_reconstructed out usable cn)
        else if in_opt (rget r ''containmentObserved'') (st_caught st) then gate1_cover_caught out usable cn
        else gate1_cover_clean st out usable cn pinned))"

subsection \<open>Method cap\<close>

definition method_rank :: "json \<Rightarrow> nat option" where
  "method_rank v =
     (if v = str ''reconstructed'' then Some 0 else if v = str ''intercepted'' then Some 1 else None)"

definition gate1_method_cap :: "outcome \<Rightarrow> dict \<Rightarrow> record_view list \<Rightarrow> outcome res" where
  "gate1_method_cap out r covering =
     (if covering = [] then Inr out
      else rbind (need_hash_all (map rec_method covering)) (\<lambda>_.
        let methods = List.map_filter (\<lambda>rv. method_rank (rec_method rv)) covering in
        if methods = [] then Inr out
        else rbind (need_hash (rget r ''method'')) (\<lambda>_.
          Inr (case method_rank (rget r ''method'') of
                 None \<Rightarrow> out
               | Some m \<Rightarrow> add_if (fold min (tl methods) (hd methods) < m) ''method-cap-exceeded'' out))))"

subsection \<open>The gate over the rows\<close>

definition gate1_row :: "vstate \<times> outcome \<Rightarrow> nat \<times> dict \<Rightarrow> (vstate \<times> outcome) res" where
  "gate1_row acc row =
     (case acc of (st, out) \<Rightarrow> case row of (i, r) \<Rightarrow>
        if \<not> is_substrate r \<or> i \<in> set (st_fail_closed_rows st) then Inr (st, out)
        else if \<not> st_has_records st then Inr (st, add ''records-absent'' out)
        else (case rget r ''observationRefs'' of
          JArr (ref # refs) \<Rightarrow>
            (case gate1_resolve_refs st out (ref # refs) of
               (None, out) \<Rightarrow> Inr (st, out)
             | (Some ref_views, out) \<Rightarrow>
                 let out = foldl (gate1_check_payload (st_derived_binding st)) out ref_views in
                 rbind (gate1_class_match st out r ref_views (st_pinned_posture st)) (\<lambda>(covering, out).
                   let st = st\<lparr>st_row_covering := (st_row_covering st)(i \<mapsto> covering)\<rparr> in
                   rbind (gate1_method_cap out r covering) (\<lambda>out. Inr (st, out))))
        | _ \<Rightarrow>
            Inr (st, add_if (in_opt (rget r ''containmentObserved'') (st_caught st)) ''caught-row-uncovered''
                       (add ''refs-empty'' out))))"

definition check_gate1_coverage :: "vstate \<Rightarrow> outcome \<Rightarrow> (vstate \<times> outcome) res" where
  "check_gate1_coverage st out =
     (let st = st\<lparr>st_pinned_posture := digest_of (rget (st_env st) ''networkPosture''),
                  st_row_covering := (\<lambda>_. None)\<rparr>;
          out = (if st_has_records st then check_refs_in_range st out else out)
      in rfold gate1_row (st, out) (enumerate 0 (st_rows st)))"

end
