(* ===== verification/Commitments.thy ===== *)
theory Commitments
  imports Gate1
begin

section \<open>Statement-level commitments, recompute and tiers\<close>

text \<open>
  The rules of \<open>_check_commitments\<close>, which hold on the statement or on every row, the
  pure recompute of \<open>result\<close>, the per-row evidence tiers, and \<open>ReferenceVerifier.verify\<close>
  itself as the composition of every check in the order of the code.
\<close>

definition resolved_views :: "vstate \<Rightarrow> dict \<Rightarrow> record_view list" where
  "resolved_views st r = concat (map (resolve_ref (st_views st)) (the_arr (rget r ''observationRefs'')))"

definition row_label :: "dict \<Rightarrow> json" where
  "row_label r = rget r ''containmentObserved''"

definition is_interception :: "record_view \<Rightarrow> bool" where
  "is_interception rv \<longleftrightarrow> kind rv = str ''interception''"

definition clean_contradicted :: "vstate \<Rightarrow> json list \<Rightarrow> json list \<Rightarrow> dict \<Rightarrow> bool" where
  "clean_contradicted st ls ca r \<longleftrightarrow>
     clean_label (row_label r) ls ca \<and> list_ex is_interception (resolved_views st r)"

definition commit_clean_row_contradicted :: "vstate \<Rightarrow> outcome \<Rightarrow> outcome" where
  "commit_clean_row_contradicted st out =
     (case (st_labels st, st_caught st) of
        (Some ls, Some ca) \<Rightarrow> add_if (list_ex (clean_contradicted st ls ca) (st_rows st)) ''clean-row-contradicted'' out
      | _ \<Rightarrow> out)"

definition caught_resolved :: "vstate \<Rightarrow> json list \<Rightarrow> nat list" where
  "caught_resolved st ca =
     concat (map (\<lambda>r. map idx (resolved_views st r)) (filter (\<lambda>r. jin (row_label r) ca) (st_rows st)))"

definition commit_interception_orphaned :: "vstate \<Rightarrow> outcome \<Rightarrow> outcome" where
  "commit_interception_orphaned st out =
     (case st_caught st of
        None \<Rightarrow> out
      | Some ca \<Rightarrow>
          if \<not> st_has_records st then out
          else add_if (list_ex (\<lambda>rv. is_interception rv \<and> idx rv \<notin> set (caught_resolved st ca)) (st_views st))
                 ''interception-record-orphaned'' out)"

text \<open>\<open>rv.payload.get("aeeRunBinding") != st.derived_binding\<close>, negated.\<close>

definition binds :: "vstate \<Rightarrow> record_view \<Rightarrow> bool" where
  "binds st rv \<longleftrightarrow> payload rv \<noteq> None \<and> pget rv ''aeeRunBinding'' = opt_str (st_derived_binding st)"

definition bound_of_kind :: "vstate \<Rightarrow> string \<Rightarrow> record_view list" where
  "bound_of_kind st k = filter (binds st) (of_kind k (st_views st))"

definition commit_observed_set :: "runtime \<Rightarrow> vstate \<Rightarrow> outcome \<Rightarrow> outcome res" where
  "commit_observed_set R st out =
     (let got = filter is_hex64_lower (map (\<lambda>rv. pget rv ''aeeObservedSet'') (bound_of_kind st ''sealed'')) in
      if got = [] then Inr out
      else rbind (observed_set_digest (rt_sha R) (st_views st)) (\<lambda>want.
        Inr (add_if (list_ex (\<lambda>g. g \<noteq> JStr want) got) ''observed-set-mismatch'' out)))"

text \<open>The first sealed record that satisfies its kind ends the search.\<close>

fun some_sealed_ok :: "vstate \<Rightarrow> ustr list \<Rightarrow> record_view list \<Rightarrow> bool res" where
  "some_sealed_ok st postures [] = Inr False"
| "some_sealed_ok st postures (rv # rvs) =
     rbind (sealed_ok rv (st_pinned_posture st) postures (st_declared_attacks st)) (\<lambda>ok.
       if ok then Inr True else some_sealed_ok st postures rvs)"

definition commit_sealed_present :: "vstate \<Rightarrow> outcome \<Rightarrow> outcome res" where
  "commit_sealed_present st out =
     rbind (some_sealed_ok st (posture_claims (st_views st)) (filter media_ok (bound_of_kind st ''sealed''))) (\<lambda>ok.
       Inr (add_if (\<not> ok) ''sealed-record-absent'' out))"

definition carried_record_fault :: "record_view \<Rightarrow> vstate \<Rightarrow> string option res" where
  "carried_record_fault rv st =
     (if kind rv = str ''sealed'' then
        rbind (sealed_ok rv (st_pinned_posture st) [] (st_declared_attacks st)) (\<lambda>ok.
          Inr (if ok then None else Some ''sealed-covers-nothing''))
      else if kind rv = str ''arming'' then
        rbind (arming_ok rv (st_pinned_posture st) (st_issued_at st) (st_declared_attacks st)) (\<lambda>ok.
          Inr (if ok then None else Some ''arming-covers-nothing''))
      else if kind rv = str ''examination'' then
        Inr (if examination_ok rv then None else Some ''examination-covers-nothing'')
      else
        let has = dhas (pl rv) ''aeePayloadCommitment'' in
        rbind (if has then commitment_array_ok (pget rv ''aeePayloadCommitment'') else Inr True) (\<lambda>ok.
          if \<not> ok then Inr (Some ''payload-commitment-malformed'')
          else rbind (need_hash (rec_method rv)) (\<lambda>_.
            Inr (if method_rank (rec_method rv) = None \<or> \<not> has then Some ''payload-missing-reserved'' else None))))"

definition carried_candidate :: "vstate \<Rightarrow> record_view \<Rightarrow> bool" where
  "carried_candidate st rv \<longleftrightarrow>
     payload rv \<noteq> None \<and> media_ok rv \<and> list_all (dhas (pl rv)) reserved_members \<and> binds st rv \<and> covering_kind rv"

definition carried_step :: "vstate \<Rightarrow> outcome \<Rightarrow> record_view \<Rightarrow> outcome res" where
  "carried_step st out rv =
     (if \<not> carried_candidate st rv then Inr out
      else rbind (carried_record_fault rv st) (\<lambda>c.
        Inr (case c of None \<Rightarrow> out | Some code \<Rightarrow> add code out)))"

definition commit_carried_cover :: "vstate \<Rightarrow> outcome \<Rightarrow> outcome res" where
  "commit_carried_cover st out = rfold (carried_step st) out (st_views st)"

text \<open>The string entries of the arrays that pass the attack-identifier shape rule.\<close>

definition attack_lists :: "vstate \<Rightarrow> string \<Rightarrow> string \<Rightarrow> ustr list list res" where
  "attack_lists st k m =
     rbind (rfilter (\<lambda>v. attack_id_array_ok v (st_declared_attacks st))
              (map (\<lambda>rv. pget rv m) (bound_of_kind st k))) (\<lambda>vs.
       Inr (map (\<lambda>v. map the_str (the_arr v)) vs))"

definition commit_seal_attacks :: "vstate \<Rightarrow> outcome \<Rightarrow> outcome res" where
  "commit_seal_attacks st out =
     (case st_caught st of
        None \<Rightarrow> Inr out
      | Some ca \<Rightarrow>
          let caught_ids = map (\<lambda>r. rget r ''attackId'') (filter (\<lambda>r. jin (row_label r) ca) (st_rows st)) in
          rbind (need_hash_all caught_ids) (\<lambda>_.
          rbind (attack_lists st ''sealed'' ''aeeObservedAttacks'') (\<lambda>lists.
            Inr (add_if (list_ex (list_ex (\<lambda>a. \<not> jin (JStr a) caught_ids)) lists) ''observed-attack-uncaught'' out))))"

definition assessed_attacks :: "dict \<Rightarrow> json list \<Rightarrow> ustr list" where
  "assessed_attacks classes cs = map the_str (filter is_str (expected_attack_ids classes cs))"

definition commit_assessed_subset :: "vstate \<Rightarrow> outcome \<Rightarrow> outcome res" where
  "commit_assessed_subset st out =
     (case (rget (the_obj (st_coverage st)) ''assessedClasses'', st_manifest_classes st) of
        (JArr cs, Some classes) \<Rightarrow>
          rbind (need_hash_all cs) (\<lambda>_.
          rbind (attack_lists st ''arming'' ''aeeAssessedAttacks'') (\<lambda>lists.
            Inr (add_if (list_ex (\<lambda>declared. \<not> set (assessed_attacks classes cs) \<subseteq> set declared) lists)
                   ''assessed-set-exceeds-declaration'' out)))
      | _ \<Rightarrow> Inr out)"

text \<open>The first fault of a row that claims \<open>attribution: pinned\<close>.\<close>

definition pin_unmatched :: "json list \<Rightarrow> record_view \<Rightarrow> bool" where
  "pin_unmatched expected rv \<longleftrightarrow>
     (case pget rv ''aeePayloadCommitment'' of
        JArr vs \<Rightarrow> \<not> list_ex (\<lambda>v. jin v expected) vs
      | _ \<Rightarrow> False)"

definition pinned_row_fault :: "vstate \<Rightarrow> dict \<Rightarrow> dict \<Rightarrow> string option res" where
  "pinned_row_fault st expected_map r =
     (let inters = filter is_interception (resolved_views st r) in
      if inters = [] then Inr (Some ''attribution-pinned-recordless'')
      else rbind (need_hash (rget r ''attackId'')) (\<lambda>_.
        Inr (case class_lookup expected_map (rget r ''attackId'') of
               JArr (e # es) \<Rightarrow>
                 if list_ex (pin_unmatched (e # es)) inters then Some ''attribution-pin-unmatched'' else None
             | _ \<Rightarrow> Some ''attribution-unpinnable'')))"

fun first_pinned_fault :: "vstate \<Rightarrow> dict \<Rightarrow> dict list \<Rightarrow> string option res" where
  "first_pinned_fault st em [] = Inr None"
| "first_pinned_fault st em (r # rs) =
     (if rget r ''attribution'' \<noteq> str ''pinned'' then first_pinned_fault st em rs
      else rbind (pinned_row_fault st em r) (\<lambda>c.
        case c of Some code \<Rightarrow> Inr (Some code) | None \<Rightarrow> first_pinned_fault st em rs))"

definition commit_attribution :: "vstate \<Rightarrow> outcome \<Rightarrow> outcome res" where
  "commit_attribution st out =
     rbind (first_pinned_fault st (the_obj (st_expected_payloads st)) (st_rows st)) (\<lambda>c.
       Inr (case c of None \<Rightarrow> out | Some code \<Rightarrow> add code out))"

definition check_commitments :: "runtime \<Rightarrow> vstate \<Rightarrow> outcome \<Rightarrow> outcome res" where
  "check_commitments R st out =
     (let out = commit_interception_orphaned st (commit_clean_row_contradicted st out) in
      rbind (commit_attribution st out) (\<lambda>out.
        if \<not> st_has_substrate st \<or> \<not> st_has_records st then Inr out
        else rbind (commit_observed_set R st out) (\<lambda>out.
             rbind (commit_sealed_present st out) (\<lambda>out.
             rbind (commit_carried_cover st out) (\<lambda>out.
             rbind (commit_seal_attacks st out) (\<lambda>out.
               commit_assessed_subset st out))))))"

subsection \<open>The result recompute\<close>

definition row_forces_fail :: "json list \<Rightarrow> json list \<Rightarrow> dict \<Rightarrow> bool" where
  "row_forces_fail ls ca r \<longleftrightarrow>
     \<not> jin (row_label r) ls \<or> jin (row_label r) ca \<or>
     \<not> basis_known r \<or> \<not> method_known r \<or> \<not> attribution_known r"

definition row_indirect :: "json list \<Rightarrow> json list \<Rightarrow> dict \<Rightarrow> bool" where
  "row_indirect ls ca r \<longleftrightarrow>
     \<not> row_forces_fail ls ca r \<and> (\<not> is_substrate r \<or> rget r ''method'' \<noteq> str ''intercepted'')"

definition result_rank :: "string \<Rightarrow> nat" where
  "result_rank s = (if s = ''fail'' then 0 else if s = ''degraded'' then 1 else if s = ''pass_indirect'' then 2 else 3)"

definition recompute :: "dict list \<Rightarrow> json list \<Rightarrow> json list \<Rightarrow> json \<Rightarrow> string" where
  "recompute rs ls ca cov =
     (let c = the_obj cov;
          candidates =
            [if list_ex (row_forces_fail ls ca) rs then ''fail'' else ''pass'',
             if truthy (rget c ''outOfScope'') \<or> truthy (rget c ''routedElsewhere'') then ''degraded'' else ''pass'',
             if list_ex (row_indirect ls ca) rs then ''pass_indirect'' else ''pass'']
      in arg_min_list result_rank candidates)"

definition check_result_recompute :: "vstate \<Rightarrow> outcome \<Rightarrow> outcome res" where
  "check_result_recompute st out =
     (case (st_labels st, st_caught st) of
        (Some ls, Some ca) \<Rightarrow>
          if st_rows st = [] then Inr out
          else rbind (need_hash (st_result st)) (\<lambda>_.
            Inr (add_if (\<not> in_result_order (st_result st) \<or>
                         str (recompute (st_rows st) ls ca (st_coverage st)) \<noteq> st_result st)
                   ''result-recompute-mismatch'' out))
      | _ \<Rightarrow> Inr out)"

subsection \<open>GATE 2: tiers\<close>

definition row_tier :: "runtime \<Rightarrow> bytes list \<Rightarrow> bool \<Rightarrow> (nat \<Rightarrow> record_view list option) \<Rightarrow> nat \<times> dict \<Rightarrow> ustr" where
  "row_tier R pubs with_keys covering row =
     (if rget (snd row) ''basis'' = str ''artifact'' then lit ''declared''
      else if \<not> with_keys \<or> pubs = [] then lit ''unattested''
      else (case covering (fst row) of
              Some (rv # rvs) \<Rightarrow>
                if list_all (record_verifies R pubs) (rv # rvs) then lit ''attested'' else lit ''unattested''
            | _ \<Rightarrow> lit ''unattested''))"

definition tiers ::
  "runtime \<Rightarrow> bytes list \<Rightarrow> dict list \<Rightarrow> (nat \<Rightarrow> record_view list option) \<Rightarrow> bool \<Rightarrow> ustr list" where
  "tiers R pubs rs covering with_keys = map (row_tier R pubs with_keys covering) (enumerate 0 rs)"

definition check_gate2_tiers :: "runtime \<Rightarrow> bytes list \<Rightarrow> vstate \<Rightarrow> outcome \<Rightarrow> outcome" where
  "check_gate2_tiers R pubs st out =
     out\<lparr>out_result := st_result st,
         tiers_with_key := Some (tiers R pubs (st_rows st) (st_row_covering st) True),
         tiers_without_key := Some (tiers R pubs (st_rows st) (st_row_covering st) False)\<rparr>"

subsection \<open>The verifier\<close>

text \<open>Every check between the statement type and the tiers, in the order of \<open>verify\<close>.\<close>

definition run_checks :: "runtime \<Rightarrow> vstate \<Rightarrow> outcome \<Rightarrow> (vstate \<times> outcome) res" where
  "run_checks R st out =
     rbind (check_gate0_wellformed st out) (\<lambda>(st, out).
     rbind (check_vocabulary R st out) (\<lambda>(st, out).
     rbind (check_corpus R st out) (\<lambda>(st, out).
       let st = check_rows_setup st; out = check_subject_cardinality st out in
     rbind (check_coverage st out) (\<lambda>(st, out).
       let out = check_substrate_binding_inputs st (check_per_row_statements st out) in
       case check_fail_closed_rows st out of (st, out) \<Rightarrow>
     rbind (check_records R st out) (\<lambda>(st, out).
     rbind (check_run_binding R st) (\<lambda>st.
     rbind (check_gate1_coverage st out) (\<lambda>(st, out).
     rbind (check_commitments R st out) (\<lambda>out.
     rbind (check_result_recompute st out) (\<lambda>out. Inr (st, out))))))))))"

definition verify_state :: "runtime \<Rightarrow> bytes list \<Rightarrow> json \<Rightarrow> outcome res" where
  "verify_state R pubs stmt =
     (case check_statement_type (new_vstate stmt) new_outcome of
        (stop, st, out) \<Rightarrow>
          if stop then Inr out
          else rbind (run_checks R st out) (\<lambda>(st, out).
            if codes out \<noteq> [] then Inr out else Inr (check_gate2_tiers R pubs st out)))"

definition verify :: "runtime \<Rightarrow> bytes list \<Rightarrow> json \<Rightarrow> bytes option \<Rightarrow> outcome res" where
  "verify R pubs stmt b =
     (case b of
        None \<Rightarrow> verify_state R pubs stmt
      | Some bs \<Rightarrow>
          rbind (statement_strict_fault bs) (\<lambda>fault.
            if fault then Inr (add ''statement-malformed'' new_outcome) else verify_state R pubs stmt))"

end
