(* ===== verification/Gate0_Laws.thy ===== *)
theory Gate0_Laws
  imports Commitments
begin

section \<open>What a clean GATE 0 has established\<close>

text \<open>
  One lemma per check of \<open>Gate0\<close>: when the check returns and the codes are empty
  afterwards, they were empty before, the state is the old one with the named fields set, and
  every condition the check tests holds.  Together they turn a valid verdict into the
  conjunction of the rules.
\<close>

subsection \<open>GATE 0, one check at a time\<close>

lemma check_issued_at_clean [simp]:
  "codes (check_issued_at v out) = [] \<longleftrightarrow> timestamp_ok v \<and> codes out = []"
  by (auto simp: check_issued_at_def timestamp_ok_def)

lemma statement_type_stop: "check_statement_type st out = (True, st', out') \<Longrightarrow> codes out' \<noteq> []"
  by (auto simp: check_statement_type_def Let_def split: json.splits)

lemma statement_type_clean:
  assumes "check_statement_type st out = (False, st', out')" "codes out' = []"
  shows "\<exists>s p. st_stmt st = JObj s \<and> rget s ''_type'' = str statement_type \<and>
    rget s ''predicateType'' = str aee_predicate_type \<and> rget s ''predicate'' = JObj p \<and>
    st' = st\<lparr>st_pred := p\<rparr> \<and> codes out = []"
  using assms by (auto simp: check_statement_type_def Let_def split: json.splits)

lemma gate0_clean:
  assumes "check_gate0_wellformed st out = Inr (st', out')" "codes out' = []"
  defines "p \<equiv> st_pred st"
  defines "e \<equiv> the_obj (rget p ''observationEnvironment'')"
  shows "codes out = [] \<and> in_result_order (rget p ''result'') \<and> timestamp_ok (rget p ''issuedAt'') \<and>
    list_all (rhas e) env_members \<and> posture_registered e \<and> \<not> rhas p ''does_not_assert'' \<and>
    (\<exists>v. rget e ''observationVocabulary'' = JObj v \<and>
      st' = st\<lparr>st_result := rget p ''result'', st_issued_at := rget p ''issuedAt'', st_env := e, st_vocab := Some v\<rparr>)"
  using assms(1,2) unfolding p_def e_def
  by (auto simp: check_gate0_wellformed_def Let_def rbind_eq_Inr split: json.splits)

lemma vocab_array_ok_Inr:
  assumes "vocab_array_ok v = Inr True"
  shows "\<exists>ss. v = JArr (map JStr ss) \<and> sort_key utf16_be ss = ss \<and> distinct ss \<and> all_bmp ss"
proof -
  from assms obtain xs where x: "v = JArr xs" "all_strs xs" "sort_key utf16_be (map the_str xs) = map the_str xs"
    "distinct (map the_str xs)" "all_bmp (map the_str xs)"
    by (auto simp: vocab_array_ok_def utf16_sorted_def Let_def rbind_eq_Inr split: json.splits if_splits)
  then have "xs = map JStr (map the_str xs)" using all_strs_map by simp
  with x show ?thesis by blast
qed

lemma all_jin_strs: "list_all (\<lambda>x. jin x (map JStr ls)) (map JStr ca) \<longleftrightarrow> set ca \<subseteq> set ls"
  by (auto simp: list_all_iff jin_JStr)

lemma vocabulary_clean:
  assumes "check_vocabulary R st out = Inr (st', out')" "codes out' = []" "st_vocab st = Some voc"
  shows "codes out = [] \<and> (\<exists>ls ca d.
    rget voc ''labels'' = JArr (map JStr ls) \<and> rget voc ''caught'' = JArr (map JStr ca) \<and>
    sort_key utf16_be ls = ls \<and> distinct ls \<and> all_bmp ls \<and>
    sort_key utf16_be ca = ca \<and> distinct ca \<and> all_bmp ca \<and> set ca \<subseteq> set ls \<and>
    vocab_digest (rt_sha R) (map JStr ca) (map JStr ls) = Inr d \<and> digest_of (JObj voc) = JStr d \<and>
    st' = st\<lparr>st_labels := Some (map JStr ls), st_caught := Some (map JStr ca)\<rparr>)"
proof -
  let ?l = "rget voc ''labels''" and ?c = "rget voc ''caught''"
  let ?p = "\<lambda>ok. vocab_check_pairs R (add_if (\<not> ok) ''vocabulary-not-canonical'' out) voc ?l ?c"
  note def = check_vocabulary_def Let_def assms(3) option.case
  obtain ok where ok: "vocab_shape_ok ?l ?c = Inr ok"
    using assms(1) unfolding def by (rule rbind_InrE)
  obtain o2 where p: "?p ok = Inr o2"
    using assms(1) unfolding def ok rbind.simps by (rule rbind_InrE)
  have rest: "(case (?l, ?c) of
                 (JArr l, JArr c) \<Rightarrow> Inr (st\<lparr>st_labels := Some l, st_caught := Some c\<rparr>, o2)
               | _ \<Rightarrow> Inr (st\<lparr>st_labels := None, st_caught := None\<rparr>, o2)) = Inr (st', out')"
    using assms(1) unfolding def ok rbind.simps p by (auto split: json.splits)
  from rest have o2: "o2 = out'" by (auto split: json.splits)
  have ok1: "ok \<and> codes out = []"
    using p assms(2) unfolding o2
    by (auto simp: vocab_check_pairs_def Let_def rbind_eq_Inr split: json.splits)
  then have "vocab_array_ok ?l = Inr True" "vocab_array_ok ?c = Inr True"
    using ok by (auto simp: vocab_shape_ok_def rbind_eq_Inr split: if_splits)
  then obtain ls ca where l: "?l = JArr (map JStr ls)" "sort_key utf16_be ls = ls" "distinct ls" "all_bmp ls"
    and c: "?c = JArr (map JStr ca)" "sort_key utf16_be ca = ca" "distinct ca" "all_bmp ca"
    using vocab_array_ok_Inr by meson
  from p assms(2) l(1) c(1) obtain d where
    "vocab_digest (rt_sha R) (map JStr ca) (map JStr ls) = Inr d" "digest_of (JObj voc) = JStr d" "set ca \<subseteq> set ls"
    unfolding o2 by (auto simp: vocab_check_pairs_def Let_def rbind_eq_Inr all_jin_strs)
  with ok1 l c rest show ?thesis by auto
qed

lemma rfold_grows:
  assumes "rfold f s xs = Inr t" "\<And>x s s'. x \<in> set xs \<Longrightarrow> f s x = Inr s' \<Longrightarrow> grows (snd s) (snd s')"
  shows "grows (snd s) (snd t)"
  by (rule rfold_invariant [OF assms(1), where P = "\<lambda>t. grows (snd s) (snd t)"])
    (auto intro: grows_refl grows_trans assms(2))

text \<open>No two entries of the list are equal as Python values.\<close>

definition no_repeats :: "json list \<Rightarrow> bool" where
  "no_repeats vs \<longleftrightarrow> sorted_wrt (\<lambda>x y. \<not> py_same y x) vs"

lemma corpus_dupes_fold:
  assumes "rfold (\<lambda>(seen, out) aid. rbind (need_hash aid) (\<lambda>_.
      Inr (aid # seen, add_if (jin aid seen) c out))) (seen, out) ids = Inr (seen', out')" "codes out' = []"
    "sorted_wrt (\<lambda>x y. \<not> py_same y x) (rev seen)"
  shows "codes out = [] \<and> sorted_wrt (\<lambda>x y. \<not> py_same y x) (rev seen @ ids)"
  using assms
proof (induction ids arbitrary: seen out)
  case (Cons a ids)
  from Cons.prems(1) have "rfold (\<lambda>(seen, out) aid. rbind (need_hash aid) (\<lambda>_.
      Inr (aid # seen, add_if (jin aid seen) c out))) (a # seen, add_if (jin a seen) c out) ids = Inr (seen', out')"
    by (auto simp: rbind_eq_Inr)
  note step = this
  have "codes (add_if (jin a seen) c out) = []"
  proof (rule grows_clean [OF _ Cons.prems(2)])
    show "grows (add_if (jin a seen) c out) out'"
      by (rule rfold_grows [OF step, unfolded snd_conv]) (auto simp: rbind_eq_Inr grows_add_if grows_refl)
  qed
  then have c: "\<not> jin a seen" "codes out = []" by auto
  then have "sorted_wrt (\<lambda>x y. \<not> py_same y x) (rev (a # seen))"
    using Cons.prems(3) by (auto simp: sorted_wrt_append jin_def list_ex_iff)
  from Cons.IH [OF step Cons.prems(2) this] c show ?case by simp
qed simp

lemma corpus_dupes_clean:
  "corpus_dupes out classes = Inr out' \<Longrightarrow> codes out' = [] \<Longrightarrow> codes out = [] \<and> no_repeats (class_ids classes)"
  using corpus_dupes_fold [of "''manifest-duplicate-attack''" "[]" out "class_ids classes"]
  by (fastforce simp: corpus_dupes_def rbind_eq_Inr no_repeats_def)

lemma catch_jcs_error_Inr: "catch_jcs_error r v = Inr x \<Longrightarrow> x \<noteq> v \<Longrightarrow> r = Inr x"
  by (cases "(r, v)" rule: catch_jcs_error.cases) auto

lemma corpus_digest_clean:
  assumes "corpus_digest R out co m = Inr out'" "codes out' = []"
  shows "codes out = [] \<and> (\<exists>b. jcs_dumps (JObj m) = Inr b \<and> digest_of co = JStr (sha256_hex (rt_sha R) b))"
proof -
  from assms(2) have "out' \<noteq> add ''corpus-digest-mismatch'' out" by auto
  from catch_jcs_error_Inr [OF assms(1) [unfolded corpus_digest_def] this] assms(2) show ?thesis
    by (auto simp: rbind_eq_Inr)
qed

text \<open>The manifest and its classes, when they are objects.\<close>

definition corpus_manifest :: "dict \<Rightarrow> json" where
  "corpus_manifest e = rget (the_obj (rget e ''corpus'')) ''manifest''"

definition classes_of :: "dict \<Rightarrow> dict option" where
  "classes_of e = (case rget (the_obj (corpus_manifest e)) ''classes'' of JObj cl \<Rightarrow> Some cl | _ \<Rightarrow> None)"

lemma corpus_clean:
  assumes "check_corpus R st out = Inr (st', out')" "codes out' = []"
  defines "e \<equiv> st_env st"
  shows "codes out = [] \<and>
    (\<forall>m. corpus_manifest e = JObj m \<longrightarrow>
       (\<exists>b cl. jcs_dumps (JObj m) = Inr b \<and> digest_of (rget e ''corpus'') = JStr (sha256_hex (rt_sha R) b) \<and>
          classes_of e = Some cl \<and> class_ids cl \<noteq> [] \<and> no_repeats (class_ids cl))) \<and>
    (\<exists>ep. st' = st\<lparr>st_corpus := rget e ''corpus'', st_manifest_classes := classes_of e,
       st_declared_attacks := (case classes_of e of None \<Rightarrow> st_declared_attacks st | Some cl \<Rightarrow> declared_attack_ids cl),
       st_expected_payloads := ep\<rparr>)"
proof (cases "rget e ''corpus''")
  case (JObj c)
  let ?m = "rget c ''manifest''" and ?cl = "rget (the_obj (rget c ''manifest'')) ''classes''"
  have e: "corpus_manifest e = ?m" "classes_of e = (case ?cl of JObj cl \<Rightarrow> Some cl | _ \<Rightarrow> None)"
    using JObj by (simp_all add: corpus_manifest_def classes_of_def)
  let ?o1 = "case ?m of JObj m \<Rightarrow> rbind (corpus_digest R (add_if (?m = JNull) ''environment-incomplete'' out) (JObj c) m)
            (\<lambda>out. Inr (corpus_declares_attack out ?cl)) | _ \<Rightarrow> Inr (add_if (?m = JNull) ''environment-incomplete'' out)"
  let ?o2 = "\<lambda>o1. case ?cl of JObj cl \<Rightarrow> corpus_dupes o1 cl | _ \<Rightarrow> Inr o1"
  note def = check_corpus_def Let_def e_def [symmetric] JObj json.case
  obtain o1 where o1: "?o1 = Inr o1" using assms(1) unfolding def by (rule rbind_InrE)
  obtain o2 where o2: "?o2 o1 = Inr o2" using assms(1) unfolding def o1 rbind.simps by (rule rbind_InrE)
  note fin = assms(1) [unfolded def o1 rbind.simps o2]
  let ?st = "st\<lparr>st_corpus := rget e ''corpus'', st_manifest_classes := classes_of e,
       st_declared_attacks := (case classes_of e of None \<Rightarrow> st_declared_attacks st | Some cl \<Rightarrow> declared_attack_ids cl)\<rparr>"
  have st1: "(case ?cl of
       JObj cl \<Rightarrow> st\<lparr>st_corpus := JObj c, st_manifest_classes := Some cl, st_declared_attacks := declared_attack_ids cl\<rparr>
     | _ \<Rightarrow> st\<lparr>st_corpus := JObj c, st_manifest_classes := None\<rparr>) = ?st"
    unfolding e JObj by (cases ?cl) simp_all
  have "codes o2 = [] \<and> (\<exists>ep. st' = ?st\<lparr>st_expected_payloads := ep\<rparr>)"
  proof (cases ?m)
    case (JObj m)
    show ?thesis
    proof (cases "rhas m ''expectedPayloads''")
      case True
      with fin [unfolded st1] JObj obtain ok where ok: "expected_payloads_ok (rget m ''expectedPayloads'') (st_declared_attacks ?st) = Inr ok"
        by (auto elim!: rbind_InrE)
      from fin [unfolded st1] JObj True ok assms(2) show ?thesis by (cases ok) auto
    next
      case False
      with fin [unfolded st1] JObj assms(2) have "st' = ?st\<lparr>st_expected_payloads := st_expected_payloads ?st\<rparr>" "o2 = out'"
        by simp_all
      with assms(2) show ?thesis by blast
    qed
  qed (use fin [unfolded st1] assms(2) in \<open>force intro!: exI [of _ "st_expected_payloads ?st"]\<close>)+
  then have c2: "codes o2 = []" and st: "\<exists>ep. st' = ?st\<lparr>st_expected_payloads := ep\<rparr>" by auto
  have c1: "codes o1 = [] \<and> (\<forall>cl. ?cl = JObj cl \<longrightarrow> no_repeats (class_ids cl))"
    using o2 c2 corpus_dupes_clean by (auto split: json.splits)
  show ?thesis
  proof (cases "?m")
    case (JObj m)
    with o1 obtain o3 where d: "corpus_digest R out (rget e ''corpus'') m = Inr o3" "o1 = corpus_declares_attack o3 ?cl"
      using \<open>rget e ''corpus'' = JObj c\<close> by (auto simp: rbind_eq_Inr)
    with c1 have o3: "corpus_digest R out (rget e ''corpus'') m = Inr o3" "codes o3 = []" "class_ids (the_obj ?cl) \<noteq> []"
      by (auto simp: corpus_declares_attack_def)
    then have "\<exists>cl. ?cl = JObj cl" by (cases ?cl) (auto simp: class_ids_def)
    with corpus_digest_clean [OF o3(1,2)] o3(3) c1 st JObj show ?thesis unfolding e by auto
  qed (use o1 c1 st in \<open>auto simp: e\<close>)
qed (use assms in \<open>auto simp: check_corpus_def corpus_manifest_def classes_of_def rget_def Let_def intro!: exI [of _ "st_expected_payloads st"]\<close>)

lemma rows_setup_eq:
  "check_rows_setup st = st\<lparr>st_rows := map the_obj (filter is_obj (the_arr (rget (st_pred st) ''attackResults''))),
     st_has_substrate := list_ex is_substrate (map the_obj (filter is_obj (the_arr (rget (st_pred st) ''attackResults''))))\<rparr>"
  by (simp add: check_rows_setup_def is_substrate_def [abs_def] Let_def)

subsection \<open>Coverage\<close>

lemma coverage_row_grows: "coverage_row index assessed acc r = Inr acc' \<Longrightarrow> grows (snd acc) (snd acc')"
  by (auto simp: coverage_row_def Let_def rbind_eq_Inr grows_add grows_add_if grows_refl split: prod.splits option.splits)

lemma coverage_rows_clean:
  assumes "rfold (coverage_row index assessed) (ids, out) rs = Inr (ids', out')" "codes out' = []"
  shows "codes out = [] \<and> ids' = rev (map (\<lambda>r. rget r ''attackId'') rs) @ ids \<and>
    (\<forall>r \<in> set rs. \<exists>cls. jget index (rget r ''attackId'') = Some cls \<and> jin (JStr cls) assessed) \<and>
    sorted_wrt (\<lambda>x y. \<not> py_same y x) (map (\<lambda>r. rget r ''attackId'') rs) \<and>
    (\<forall>r \<in> set rs. \<not> jin (rget r ''attackId'') ids)"
  using assms
proof (induction rs arbitrary: ids out)
  case (Cons r rs)
  let ?a = "rget r ''attackId''"
  from Cons.prems(1) obtain acc where acc: "coverage_row index assessed (ids, out) r = Inr acc"
    "rfold (coverage_row index assessed) acc rs = Inr (ids', out')" by (auto simp: rbind_eq_Inr)
  obtain i1 o1 where a: "acc = (i1, o1)" by (cases acc)
  from Cons.IH [OF acc(2) [unfolded a] Cons.prems(2)]
  have ih: "codes o1 = []" "ids' = rev (map (\<lambda>r. rget r ''attackId'') rs) @ i1"
    "\<forall>r \<in> set rs. \<exists>cls. jget index (rget r ''attackId'') = Some cls \<and> jin (JStr cls) assessed"
    "sorted_wrt (\<lambda>x y. \<not> py_same y x) (map (\<lambda>r. rget r ''attackId'') rs)"
    "\<forall>r \<in> set rs. \<not> jin (rget r ''attackId'') i1" by auto
  from acc(1) ih(1) have "i1 = ?a # ids" "codes out = []" "\<not> jin ?a ids"
    "\<exists>cls. jget index ?a = Some cls \<and> jin (JStr cls) assessed"
    by (auto simp: a coverage_row_def Let_def rbind_eq_Inr split: option.splits)
  with ih show ?case by auto
qed simp

text \<open>
  The declarative reading of clean coverage: the three sets of the coverage object split the
  manifest's classes, the rows are distinct attacks of assessed classes, and every attack of
  an assessed class has a row.
\<close>

definition coverage_cells :: "dict \<Rightarrow> json list" where
  "coverage_cells c = the_arr (rget c ''assessedClasses'') @ key_values (the_obj (rget c ''outOfScope''))
     @ key_values (the_obj (rget c ''routedElsewhere''))"

definition row_attacks :: "dict list \<Rightarrow> json list" where
  "row_attacks rs = map (\<lambda>r. rget r ''attackId'') rs"

lemma coverage_clean:
  assumes "check_coverage st out = Inr (st', out')" "codes out' = []"
  shows "codes out = [] \<and> (\<exists>c. rget (st_pred st) ''coverage'' = JObj c \<and>
    st' = st\<lparr>st_coverage := JObj c\<rparr> \<and>
    (\<forall>cl. st_manifest_classes st = Some cl \<longrightarrow>
       (let assessed = the_arr (rget c ''assessedClasses'') in
        coverage_partition_ok cl assessed (the_obj (rget c ''outOfScope'')) (the_obj (rget c ''routedElsewhere'')) = Inr True \<and>
        (\<exists>index. attack_class_index cl = Inr index \<and>
           (\<forall>r \<in> set (st_rows st). \<exists>cls. jget index (rget r ''attackId'') = Some cls \<and> jin (JStr cls) assessed)) \<and>
        no_repeats (row_attacks (st_rows st)) \<and>
        list_all (\<lambda>a. jin a (row_attacks (st_rows st))) (expected_attack_ids cl assessed))))"
proof -
  from assms obtain c where c: "rget (st_pred st) ''coverage'' = JObj c"
    by (auto simp: check_coverage_def Let_def split: json.splits)
  show ?thesis
  proof (cases "st_manifest_classes st")
    case None
    then show ?thesis using assms c by (auto simp: check_coverage_def)
  next
    case (Some cl)
    let ?a = "the_arr (rget c ''assessedClasses'')"
    let ?p = "coverage_partition_ok cl ?a (the_obj (rget c ''outOfScope'')) (the_obj (rget c ''routedElsewhere''))"
    from assms(1) c Some obtain ok where ok: "?p = Inr ok"
      by (auto simp: check_coverage_def Let_def rbind_eq_Inr)
    from assms(1) c Some ok have st: "st' = st\<lparr>st_coverage := JObj c\<rparr>"
      and rows: "coverage_check_rows (st\<lparr>st_coverage := JObj c\<rparr>) (add_if (\<not> ok) ''coverage-incomplete'' out) cl ?a = Inr out'"
      by (auto simp: check_coverage_def Let_def rbind_eq_Inr)
    from rows obtain index ids o1 where ix: "attack_class_index cl = Inr index"
      and f: "rfold (coverage_row index ?a) ([], add_if (\<not> ok) ''coverage-incomplete'' out) (st_rows st) = Inr (ids, o1)"
      and o: "out' = add_if (list_ex (\<lambda>i. \<not> (jin i ids \<and> jget index i \<noteq> None)) (expected_attack_ids cl ?a)) ''coverage-incomplete'' o1"
      by (auto simp: coverage_check_rows_def rbind_eq_Inr)
    from o assms(2) have o1: "codes o1 = []" and ex: "list_all (\<lambda>i. jin i ids) (expected_attack_ids cl ?a)"
      by (auto simp: list_ex_iff list_all_iff)
    from coverage_rows_clean [OF f o1] ex have "codes out = []" "ok"
      "\<forall>r \<in> set (st_rows st). \<exists>cls. jget index (rget r ''attackId'') = Some cls \<and> jin (JStr cls) ?a"
      "no_repeats (row_attacks (st_rows st))" "list_all (\<lambda>a. jin a (row_attacks (st_rows st))) (expected_attack_ids cl ?a)"
      by (auto simp: no_repeats_def row_attacks_def jin_def)
    with c st Some ok ix show ?thesis by (auto simp: Let_def)
  qed
qed

subsection \<open>Per-row statements\<close>

lemma per_row_clean:
  assumes "codes (check_per_row_statements st out) = []"
  shows "codes out = [] \<and> list_all row_typed (st_rows st) \<and> list_all (\<lambda>r. rhas r ''actualLayer'') (st_rows st) \<and>
    (\<forall>ls ca. st_labels st = Some ls \<longrightarrow> st_caught st = Some ca \<longrightarrow>
       \<not> list_ex (clean_layer_bad ls ca) (st_rows st))"
  using assms by (auto simp: check_per_row_statements_def Let_def split: option.splits)

lemma binding_inputs_clean:
  assumes "codes (check_substrate_binding_inputs st out) = []"
  shows "codes out = [] \<and> (st_has_substrate st \<longrightarrow> rhas (st_env st) ''runEntropy'' \<and>
    (let subject = the_arr (rget (the_obj (st_stmt st)) ''subject'');
         subj = (case subject of [] \<Rightarrow> JNull | s # _ \<Rightarrow> digest_of s) in
     (subject \<noteq> [] \<longrightarrow> subj \<noteq> JNull) \<and>
     \<not> list_ex digest_not_canonical (binding_inputs (st_env st) subj)))"
  using assms by (auto simp: check_substrate_binding_inputs_def Let_def split: if_splits)

lemma fail_closed_clean:
  assumes "check_fail_closed_rows st out = (st', out')" "codes out' = []"
  shows "codes out = [] \<and> (\<forall>r \<in> set (st_rows st). is_substrate r \<longrightarrow> \<not> row_fails_closed (st_labels st) r) \<and>
    st' = st\<lparr>st_fail_closed_rows := st_fail_closed_rows st'\<rparr> \<and>
    (\<forall>i. i \<in> set (st_fail_closed_rows st') \<longleftrightarrow> i < length (st_rows st) \<and> row_fails_closed (st_labels st) (st_rows st ! i))"
  using assms by (auto simp: check_fail_closed_rows_def list_ex_iff in_set_enumerate_eq image_iff)

end
