(* ===== verification/Gate1_Laws.thy ===== *)
theory Gate1_Laws
  imports Gate0_Laws
begin

section \<open>What clean record checks and a clean GATE 1 have established\<close>

text \<open>
  The record views are the carried records in order; the batch root is the Merkle root of
  their PAE bytes; and every substrate row resolves to records whose payloads are valid,
  bind to the run and satisfy the kind the row needs.
\<close>


subsection \<open>Records\<close>

lemma build_views_nth:
  assumes "build_views recs = Inr vs"
  shows "length vs = length recs \<and> (\<forall>i < length recs. new_record_view i (recs ! i) = Inr (vs ! i))"
  using assms by (auto simp: build_views_def rmap_eq_Inr list_all2_conv_all_nth nth_enumerate_eq)

lemma new_record_view_fields:
  assumes "new_record_view i rec = Inr rv"
  shows "idx rv = i \<and> raw rv = rec \<and> payload_type rv = member rec ''payloadType'' \<and>
    payload_bytes rv = fst (view_bytes rec) \<and> decode_err rv = snd (view_bytes rec) \<and>
    view_pae (member rec ''payloadType'') (payload_bytes rv) = Inr (pae_bytes rv) \<and>
    view_payload (payload_bytes rv) = Inr (payload rv, payload_error rv) \<and>
    media_ok rv = (case payload_type rv of JStr t \<Rightarrow> ends_with (lit ''+json'') t | _ \<Rightarrow> False) \<and>
    signature_count rv = length (the_arr (member rec ''signatures''))"
  using assms
  by (auto simp: new_record_view_def Let_def rbind_eq_Inr split: json.splits)

text \<open>A record with a PAE carries the two strings it was computed from.\<close>

lemma view_pae_Some:
  assumes "new_record_view i rec = Inr rv" "pae_bytes rv = Some p"
  obtains t s b where "member rec ''payloadType'' = JStr t" "member rec ''payload'' = JStr s"
    "strict_b64decode s = Inr b" "pae t b = Inr p" "payload_bytes rv = Some b"
proof -
  note f = new_record_view_fields [OF assms(1)]
  from f assms(2) obtain t b where tb: "member rec ''payloadType'' = JStr t" "payload_bytes rv = Some b" "pae t b = Inr p"
    by (auto simp: view_pae_def rbind_eq_Inr split: option.splits json.splits)
  moreover from tb(2) f obtain s where "member rec ''payload'' = JStr s" "strict_b64decode s = Inr b"
    by (auto simp: view_bytes_def split: json.splits sum.splits)
  ultimately show ?thesis using that by blast
qed

lemma payload_strict:
  assumes "new_record_view i rec = Inr rv" "payload rv = Some d"
  obtains b where "payload_bytes rv = Some b" "strict_payload_parse b = Inr d"
  using new_record_view_fields [OF assms(1)] assms(2)
  by (auto simp: view_payload_def split: option.splits sum.splits exn.splits)

lemma duplicate_step_grows: "duplicate_step R acc v = Inr acc' \<Longrightarrow> grows (snd acc) (snd acc')"
  by (auto simp: duplicate_step_def rbind_eq_Inr grows_add_if grows_refl split: prod.splits if_splits)

lemma duplicates_fold_clean:
  assumes "rfold (duplicate_step R) (seen, out) vs = Inr (seen', out')" "codes out' = []"
    "\<forall>v \<in> set vs. \<not> decode_err v \<and> pae_bytes v \<noteq> None"
  shows "codes out = [] \<and> distinct (map pae_bytes vs) \<and> (\<forall>v \<in> set vs. the (pae_bytes v) \<notin> set seen)"
  using assms
proof (induction vs arbitrary: seen out)
  case (Cons v vs)
  then obtain p where p: "pae_bytes v = Some p" "\<not> decode_err v" by auto
  then have "duplicate_step R (seen, out) v = Inr (p # seen, add_if (p \<in> set seen) ''duplicate-record'' out)"
    by (simp add: duplicate_step_def)
  with Cons.prems(1) have "rfold (duplicate_step R) (p # seen, add_if (p \<in> set seen) ''duplicate-record'' out) vs = Inr (seen', out')"
    by simp
  from Cons.IH [OF this Cons.prems(2)] Cons.prems(3) p show ?case by force
qed simp

lemma records_clean:
  assumes "check_records R st out = Inr (st', out')" "codes out' = []"
  defines "recs \<equiv> the_arr (rget (st_pred st) ''observationRecords'')"
  shows "codes out = [] \<and> (\<exists>vs. st' = st\<lparr>st_has_records := (recs \<noteq> []), st_views := vs\<rparr> \<and>
    build_views recs = Inr vs \<and> list_all (\<lambda>v. 0 < signature_count v \<and> \<not> decode_err v) vs \<and>
    (recs = [] \<longrightarrow> rget (st_pred st) ''batchRoot'' = JNull) \<and>
    (recs \<noteq> [] \<longrightarrow> list_all (\<lambda>v. pae_bytes v \<noteq> None) vs \<and> distinct (map pae_bytes vs) \<and>
       (\<exists>h. merkle_root_hex (rt_sha R) (map (\<lambda>v. the (pae_bytes v)) vs) = Inr h \<and>
            rget (st_pred st) ''batchRoot'' = JStr h)))"
proof (cases "recs = []")
  case True
  with assms(1,2) show ?thesis
    unfolding check_records_def Let_def recs_def [symmetric] by (auto simp: build_views_def)
next
  case False
  let ?o1 = "\<lambda>vs. add_if (list_ex (\<lambda>v. signature_count v = 0) vs) ''record-signatures-empty'' out"
  let ?o2 = "\<lambda>vs. if list_ex decode_err vs then Inr (add ''record-undecodable'' (?o1 vs))
                 else records_batch_root R (?o1 vs) (st_pred st) vs"
  note def = check_records_def Let_def recs_def [symmetric] if_P [OF False]
  obtain vs where vs: "build_views recs = Inr vs" using assms(1) unfolding def by (rule rbind_InrE)
  obtain o2 where o2: "?o2 vs = Inr o2" using assms(1) unfolding def vs rbind.simps by (rule rbind_InrE)
  obtain o3 where o3: "records_duplicates R o2 vs = Inr o3"
    using assms(1) unfolding def vs rbind.simps o2 by (rule rbind_InrE)
  have fin: "st' = st\<lparr>st_has_records := True, st_views := vs\<rparr>" "out' = o3"
    using assms(1) unfolding def vs rbind.simps o2 o3 by auto
  from o3 obtain seen where dup: "rfold (duplicate_step R) ([], o2) vs = Inr (seen, o3)"
    by (auto simp: records_duplicates_def rbind_eq_Inr)
  have "grows o2 o3" using rfold_grows [OF dup] duplicate_step_grows by fastforce
  with assms(2) fin(2) have c2: "codes o2 = []" using grows_clean by blast
  then have dec: "\<not> list_ex decode_err vs" using o2 by auto
  with o2 have root: "records_batch_root R (?o1 vs) (st_pred st) vs = Inr o2" by simp
  with c2 have all: "list_all (\<lambda>v. pae_bytes v \<noteq> None) vs" and "codes (?o1 vs) = []"
    and h: "\<exists>h. merkle_root_hex (rt_sha R) (map (\<lambda>v. the (pae_bytes v)) vs) = Inr h \<and> rget (st_pred st) ''batchRoot'' = JStr h"
    by (auto simp: records_batch_root_def Let_def rbind_eq_Inr split: if_splits)
  then have sig: "list_all (\<lambda>v. 0 < signature_count v) vs" "codes out = []" by (auto simp: list_all_iff list_ex_iff)
  have "distinct (map pae_bytes vs)"
    using duplicates_fold_clean [OF dup] assms(2) fin(2) dec all by (auto simp: list_ex_iff list_all_iff)
  with sig h all dec vs fin False show ?thesis by (auto simp: list_all_iff list_ex_iff)
qed

lemma run_binding_state:
  assumes "check_run_binding R st = Inr st'"
  shows "\<exists>d. st' = st\<lparr>st_derived_binding := d\<rparr> \<and>
    (st_has_substrate st \<longrightarrow> derive_binding (rt_sha R) (st_stmt st) (st_env st) = Inr d) \<and>
    (\<not> st_has_substrate st \<longrightarrow> d = None)"
  using assms by (auto simp: check_run_binding_def rbind_eq_Inr split: if_splits)

subsection \<open>GATE 1\<close>

lemma refs_fold_clean:
  "codes (foldl (\<lambda>out ref. add_if (ref_beyond n ref) ''ref-out-of-range''
      (add_if (ref_malformed ref) ''ref-malformed'' out)) out refs) = [] \<longleftrightarrow>
   codes out = [] \<and> list_all (\<lambda>ref. \<not> ref_malformed ref \<and> \<not> ref_beyond n ref) refs"
  by (induction refs arbitrary: out) auto

lemma resolve_refs_clean:
  assumes "gate1_resolve_refs st out refs = (rvs, out')" "codes out' = []"
  shows "codes out = [] \<and> rvs = Some (concat (map (resolve_ref (st_views st)) refs)) \<and>
    list_all (\<lambda>ref. \<not> ref_malformed ref \<and> \<not> ref_beyond (length (st_views st)) ref) refs"
  using assms by (auto simp: gate1_resolve_refs_def Let_def refs_fold_clean)

lemma add_code_not_clean [simp]: "codes (add_code c out) \<noteq> []"
  using set_add_code [of c out] by (metis empty_iff empty_set insertI1)

lemma reserved_binding: "list_all (dhas p) reserved_members \<Longrightarrow> dhas p ''aeeRunBinding''"
  by (simp add: reserved_members_def)

lemma check_payload_clean:
  "codes (gate1_check_payload d out rv) = [] \<longleftrightarrow>
     codes out = [] \<and> media_ok rv \<and> payload_error rv = None \<and>
     (\<exists>p. payload rv = Some p \<and> list_all (dhas p) reserved_members \<and>
       (d \<noteq> None \<longrightarrow> rget p ''aeeRunBinding'' = opt_str d))"
proof (cases "payload_error rv")
  case (Some code)
  then show ?thesis by (simp add: gate1_check_payload_def Let_def)
next
  case e: None
  show ?thesis
  proof (cases "payload rv")
    case None
    with e show ?thesis by (simp add: gate1_check_payload_def Let_def)
  next
    case (Some p)
    with e reserved_binding [of p] show ?thesis by (auto simp: gate1_check_payload_def Let_def)
  qed
qed

lemma check_payloads_clean:
  "codes (foldl (gate1_check_payload d) out rvs) = [] \<longleftrightarrow>
     codes out = [] \<and> (\<forall>rv \<in> set rvs. media_ok rv \<and> payload_error rv = None \<and>
     (\<exists>p. payload rv = Some p \<and> list_all (dhas p) reserved_members \<and>
       (d \<noteq> None \<longrightarrow> rget p ''aeeRunBinding'' = opt_str d)))"
  by (induction rvs arbitrary: out) (auto simp: check_payload_clean)

lemma rfilter_Inr:
  "rfilter f xs = Inr ys \<Longrightarrow> set ys = {x \<in> set xs. f x = Inr True}"
proof (induction xs arbitrary: ys)
  case (Cons x xs)
  then obtain b zs where z: "f x = Inr b" "rfilter f xs = Inr zs" "ys = (if b then x # zs else zs)"
    by (auto simp: rbind_eq_Inr)
  note s = Cons.IH [OF z(2)]
  show ?case
  proof (cases b)
    case True
    with z(1,3) s show ?thesis by (simp add: insert_Collect) blast
  next
    case False
    with z(1,3) have "ys = zs" "f x \<noteq> Inr True" by simp_all
    with s show ?thesis by fastforce
  qed
qed simp

text \<open>The records that make a row's cover, by the kind of row.\<close>

definition cover_ok :: "vstate \<Rightarrow> dict \<Rightarrow> record_view list \<Rightarrow> record_view list \<Rightarrow> bool" where
  "cover_ok st r rvs cov \<longleftrightarrow>
     cov \<noteq> [] \<and> set cov \<subseteq> set rvs \<and>
     (if rget r ''method'' = str ''reconstructed'' then
        \<forall>rv \<in> set cov. kind rv = str ''examination'' \<and> examination_ok rv
      else if in_opt (row_label r) (st_caught st) then
        (\<forall>rv \<in> set cov. kind rv = str ''interception'' \<and> commitment_array_ok (pget rv ''aeePayloadCommitment'') = Inr True)
      else
        (\<exists>rv \<in> set cov. kind rv = str ''arming'' \<and>
           arming_ok rv (st_pinned_posture st) (st_issued_at st) (st_declared_attacks st) = Inr True) \<and>
        (\<exists>rv \<in> set cov. kind rv = str ''sealed'' \<and>
           sealed_ok rv (st_pinned_posture st) (posture_claims (usable_views rvs)) (st_declared_attacks st) = Inr True))"

lemma cover_code_clean:
  "codes (cover_code cn u n found good out) = [] \<longleftrightarrow> codes out = [] \<and> found \<noteq> [] \<and> good \<noteq> []"
  by (auto simp: cover_code_def)

lemma caught_fold_clean:
  assumes "rfold caught_step (good, out) rvs = Inr (good', out')" "codes out' = []"
  shows "codes out = [] \<and> good' = good @ rvs \<and>
    (\<forall>rv \<in> set rvs. commitment_array_ok (pget rv ''aeePayloadCommitment'') = Inr True)"
  using assms
proof (induction rvs arbitrary: good out)
  case (Cons rv rvs)
  from Cons.prems(1) obtain acc where a: "caught_step (good, out) rv = Inr acc" "rfold caught_step acc rvs = Inr (good', out')"
    by (auto simp: rbind_eq_Inr)
  from Cons.IH [of "fst acc" "snd acc"] a(2) Cons.prems(2)
  have ih: "codes (snd acc) = []" "good' = fst acc @ rvs"
    "\<forall>rv \<in> set rvs. commitment_array_ok (pget rv ''aeePayloadCommitment'') = Inr True" by auto
  with a(1) show ?case by (auto simp: caught_step_def Let_def rbind_eq_Inr split: if_splits)
qed simp

lemma class_match_clean:
  assumes "gate1_class_match st out r rvs (st_pinned_posture st) = Inr (cov, out')" "codes out' = []"
  shows "codes out = [] \<and> cover_ok st r rvs cov"
proof -
  let ?u = "usable_views rvs"
  have sub: "set (of_kind k ?u) \<subseteq> {rv \<in> set rvs. kind rv = str k}" for k
    by (auto simp: of_kind_def usable_views_def)
  from assms(1) obtain cn where cn: "covers_nothing ?u = Inr cn"
    by (auto simp: gate1_class_match_def Let_def rbind_eq_Inr)
  note def = assms(1) [unfolded gate1_class_match_def Let_def cn rbind.simps]
  show ?thesis
  proof (cases "rget r ''method'' = str ''reconstructed''")
    case True
    with def assms(2) sub [of "''examination''"] show ?thesis
      by (auto simp: gate1_cover_reconstructed_def Let_def cover_code_clean cover_ok_def)
  next
    case nr: False
    show ?thesis
    proof (cases "in_opt (row_label r) (st_caught st)")
      case True
      with def nr have c: "gate1_cover_caught out ?u cn = Inr (cov, out')" by (simp add: row_label_def)
      then have ne: "of_kind ''interception'' ?u \<noteq> []" using assms(2)
        by (auto simp: gate1_cover_caught_def Let_def split: if_splits)
      with c have "rfold caught_step ([], out) (of_kind ''interception'' ?u) = Inr (cov, out')"
        by (simp add: gate1_cover_caught_def Let_def)
      from caught_fold_clean [OF this assms(2)] ne True nr sub [of "''interception''"] show ?thesis
        by (auto simp: cover_ok_def)
    next
      case False
      with def nr obtain good1 o1 good2 where a: "gate1_clean_arm st out ?u cn (st_pinned_posture st) = Inr (good1, o1)"
        and s: "gate1_clean_seal st o1 ?u cn (st_pinned_posture st) = Inr (good2, out')" and cov: "cov = good1 @ good2"
        by (auto simp: gate1_cover_clean_def rbind_eq_Inr row_label_def)
      let ?aok = "\<lambda>rv. arming_ok rv (st_pinned_posture st) (st_issued_at st) (st_declared_attacks st)"
      let ?sok = "\<lambda>rv. sealed_ok rv (st_pinned_posture st) (posture_claims ?u) (st_declared_attacks st)"
      from s assms(2) have s2: "good2 \<noteq> []" "codes o1 = []" "rfilter ?sok (of_kind ''sealed'' ?u) = Inr good2"
        by (auto simp: gate1_clean_seal_def Let_def rbind_eq_Inr cover_code_clean)
      from a s2(2) have a2: "good1 \<noteq> []" "codes out = []" "rfilter ?aok (of_kind ''arming'' ?u) = Inr good1"
        by (auto simp: gate1_clean_arm_def Let_def rbind_eq_Inr cover_code_clean)
      from rfilter_Inr [OF a2(3)] rfilter_Inr [OF s2(3)] sub [of "''arming''"] sub [of "''sealed''"]
      have "\<forall>rv \<in> set good1. rv \<in> set rvs \<and> kind rv = str ''arming'' \<and> ?aok rv = Inr True"
        "\<forall>rv \<in> set good2. rv \<in> set rvs \<and> kind rv = str ''sealed'' \<and> ?sok rv = Inr True" by auto
      moreover obtain x y where "x \<in> set good1" "y \<in> set good2" using a2(1) s2(1) by (meson last_in_set)
      ultimately show ?thesis using a2(2) nr False cov by (auto simp: cover_ok_def)
    qed
  qed
qed

lemma method_cap_clean:
  assumes "gate1_method_cap out r cov = Inr out'" "codes out' = []"
  shows "codes out = [] \<and> (\<forall>rv \<in> set cov. \<forall>m k. method_rank (rget r ''method'') = Some m \<longrightarrow>
     method_rank (rec_method rv) = Some k \<longrightarrow> m \<le> k)"
proof (cases "cov = []")
  case True
  with assms show ?thesis by (simp add: gate1_method_cap_def)
next
  case False
  let ?ms = "List.map_filter (\<lambda>rv. method_rank (rec_method rv)) cov"
  have mem: "k \<in> set ?ms" if "rv \<in> set cov" "method_rank (rec_method rv) = Some k" for rv k
    using that by (force simp: List.map_filter_def)
  have min: "fold min (tl ms) (hd ms) \<le> k" if "k \<in> set ms" for k and ms :: "nat list"
  proof -
    have "fold min xs a = Min (insert a (set xs))" for xs and a :: nat
      using Min.set_eq_fold [of a xs] by simp
    moreover have "insert (hd ms) (set (tl ms)) = set ms" using that by (cases ms) auto
    ultimately show ?thesis using that by simp
  qed
  show ?thesis
  proof (cases "?ms = []")
    case True
    with assms False mem show ?thesis by (fastforce simp: gate1_method_cap_def rbind_eq_Inr)
  next
    case ne: False
    with assms False have "codes out = []"
      "\<forall>m. method_rank (rget r ''method'') = Some m \<longrightarrow> \<not> fold min (tl ?ms) (hd ?ms) < m"
      by (auto simp: gate1_method_cap_def Let_def rbind_eq_Inr split: option.splits)
    with mem min [of _ ?ms] show ?thesis by (meson leI le_trans)
  qed
qed

end
