(* ===== verification/Commitment_Laws.thy ===== *)
theory Commitment_Laws
  imports Gate1_Laws
begin

section \<open>What the row gate, the commitments and the recompute have established\<close>

text \<open>
  The fold of GATE 1 over the rows, the statement-level commitment rules and the recompute,
  each read back from an empty list of codes.
\<close>


subsection \<open>The rows\<close>

definition resolved :: "vstate \<Rightarrow> json list \<Rightarrow> record_view list" where
  "resolved st refs = concat (map (resolve_ref (st_views st)) refs)"

definition payload_valid :: "ustr option \<Rightarrow> record_view \<Rightarrow> bool" where
  "payload_valid d rv \<longleftrightarrow> media_ok rv \<and> payload_error rv = None \<and>
     (\<exists>p. payload rv = Some p \<and> list_all (dhas p) reserved_members \<and>
       (d \<noteq> None \<longrightarrow> rget p ''aeeRunBinding'' = opt_str d))"

definition row_ok :: "vstate \<Rightarrow> dict \<Rightarrow> record_view list \<Rightarrow> bool" where
  "row_ok st r cov \<longleftrightarrow> st_has_records st \<and>
     (\<exists>refs. rget r ''observationRefs'' = JArr refs \<and>
        list_all (\<lambda>ref. \<not> ref_malformed ref \<and> \<not> ref_beyond (length (st_views st)) ref) refs \<and>
        list_all (payload_valid (st_derived_binding st)) (resolved st refs) \<and>
        cover_ok st r (resolved st refs) cov) \<and>
     (\<forall>rv \<in> set cov. \<forall>m k. method_rank (rget r ''method'') = Some m \<longrightarrow>
        method_rank (rec_method rv) = Some k \<longrightarrow> m \<le> k)"

lemma covering_update [simp]:
  "cover_ok (st\<lparr>st_row_covering := f\<rparr>) = cover_ok st" "resolved (st\<lparr>st_row_covering := f\<rparr>) = resolved st"
  "row_ok (st\<lparr>st_row_covering := f\<rparr>) = row_ok st"
  by (simp_all add: cover_ok_def [abs_def] resolved_def [abs_def] row_ok_def [abs_def])

lemma gate1_row_clean:
  assumes "gate1_row (st, out) (i, r) = Inr (st', out')" "codes out' = []"
  shows "codes out = [] \<and>
    (if is_substrate r \<and> i \<notin> set (st_fail_closed_rows st)
     then \<exists>cov. st' = st\<lparr>st_row_covering := (st_row_covering st)(i \<mapsto> cov)\<rparr> \<and> row_ok st r cov
     else st' = st)"
proof (cases "is_substrate r \<and> i \<notin> set (st_fail_closed_rows st)")
  case False
  with assms show ?thesis by (auto simp: gate1_row_def)
next
  case True
  with assms have rec: "st_has_records st" by (cases "st_has_records st") (auto simp: gate1_row_def)
  obtain ref rs where refs: "rget r ''observationRefs'' = JArr (ref # rs)"
  proof (cases "rget r ''observationRefs''")
    case (JArr xs)
    with assms True rec that show ?thesis by (cases xs) (auto simp: gate1_row_def)
  qed (use assms True rec in \<open>auto simp: gate1_row_def\<close>)
  obtain rvs o1 where res: "gate1_resolve_refs st out (ref # rs) = (rvs, o1)" by fastforce
  note def = assms(1) [unfolded gate1_row_def]
  show ?thesis
  proof (cases rvs)
    case None
    with def True rec refs res have "o1 = out'" by simp
    with resolve_refs_clean [OF res] assms(2) None show ?thesis by simp
  next
    case (Some vs)
    let ?o2 = "foldl (gate1_check_payload (st_derived_binding st)) o1 vs"
    from def True rec refs res Some obtain cov o3 where
      cm: "gate1_class_match st ?o2 r vs (st_pinned_posture st) = Inr (cov, o3)"
      and mc: "gate1_method_cap o3 r cov = Inr out'"
      and st': "st' = st\<lparr>st_row_covering := (st_row_covering st)(i \<mapsto> cov)\<rparr>"
      by (auto simp: rbind_eq_Inr)
    from method_cap_clean [OF mc assms(2)] have c3: "codes o3 = []" by blast
    from class_match_clean [OF cm c3] have c2: "codes ?o2 = []" "cover_ok st r vs cov" by auto
    from c2(1) have c1: "codes o1 = []" and pv: "\<forall>rv \<in> set vs. payload_valid (st_derived_binding st) rv"
      unfolding check_payloads_clean payload_valid_def by auto
    from resolve_refs_clean [OF res c1] Some have r: "codes out = []" "vs = resolved st (ref # rs)"
      "list_all (\<lambda>ref. \<not> ref_malformed ref \<and> \<not> ref_beyond (length (st_views st)) ref) (ref # rs)"
      by (auto simp: resolved_def)
    have "row_ok st r cov"
      unfolding row_ok_def using rec refs r(2,3) pv c2(2) method_cap_clean [OF mc assms(2)]
      by (auto simp: list_all_iff)
    with True st' r(1) show ?thesis by auto
  qed
qed

lemma gate1_rows_clean:
  assumes "rfold gate1_row (st, out) (enumerate n rs) = Inr (st', out')" "codes out' = []"
  shows "codes out = [] \<and> (\<exists>f. st' = st\<lparr>st_row_covering := f\<rparr> \<and> (\<forall>j<n. f j = st_row_covering st j) \<and>
    (\<forall>i<length rs. is_substrate (rs ! i) \<longrightarrow> n + i \<notin> set (st_fail_closed_rows st) \<longrightarrow>
       (\<exists>cov. f (n + i) = Some cov \<and> row_ok st (rs ! i) cov)))"
  using assms
proof (induction rs arbitrary: st out n)
  case Nil
  then show ?case by (auto intro: exI [of _ "st_row_covering st"])
next
  case (Cons r rs)
  from Cons.prems(1) obtain acc where a: "gate1_row (st, out) (n, r) = Inr acc"
    "rfold gate1_row acc (enumerate (Suc n) rs) = Inr (st', out')" by (auto simp: rbind_eq_Inr)
  obtain s1 o1 where acc: "acc = (s1, o1)" by (cases acc)
  from Cons.IH [OF a(2) [unfolded acc] Cons.prems(2)] obtain f where c1: "codes o1 = []"
    and f: "st' = s1\<lparr>st_row_covering := f\<rparr>" "\<forall>j<Suc n. f j = st_row_covering s1 j"
      "\<forall>i<length rs. is_substrate (rs ! i) \<longrightarrow> Suc n + i \<notin> set (st_fail_closed_rows s1) \<longrightarrow>
         (\<exists>cov. f (Suc n + i) = Some cov \<and> row_ok s1 (rs ! i) cov)" by blast
  from gate1_row_clean [OF a(1) [unfolded acc] c1] have c0: "codes out = []"
    and s1: "if is_substrate r \<and> n \<notin> set (st_fail_closed_rows st)
       then \<exists>cov. s1 = st\<lparr>st_row_covering := (st_row_covering st)(n \<mapsto> cov)\<rparr> \<and> row_ok st r cov else s1 = st" by auto
  from s1 obtain g where g: "s1 = st\<lparr>st_row_covering := g\<rparr>" "\<forall>j<n. g j = st_row_covering st j"
    "is_substrate r \<longrightarrow> n \<notin> set (st_fail_closed_rows st) \<longrightarrow> (\<exists>cov. g n = Some cov \<and> row_ok st r cov)"
  proof (cases "is_substrate r \<and> n \<notin> set (st_fail_closed_rows st)")
    case True
    with s1 obtain cov where "s1 = st\<lparr>st_row_covering := (st_row_covering st)(n \<mapsto> cov)\<rparr>" "row_ok st r cov" by auto
    then show ?thesis by (intro that) auto
  next
    case False
    with s1 have "s1 = st\<lparr>st_row_covering := st_row_covering st\<rparr>" by simp
    then show ?thesis using False by (intro that) auto
  qed
  have "st' = st\<lparr>st_row_covering := f\<rparr>" using f(1) g(1) by simp
  moreover have "\<forall>j<n. f j = st_row_covering st j" using f(2) g(1,2) by simp
  moreover have "\<exists>cov. f (n + i) = Some cov \<and> row_ok st ((r # rs) ! i) cov"
    if "i < length (r # rs)" "is_substrate ((r # rs) ! i)" "n + i \<notin> set (st_fail_closed_rows st)" for i
  proof (cases i)
    case 0
    have "f n = g n" using f(2) [rule_format, of n] g(1) by simp
    with that 0 g(3) show ?thesis by simp
  next
    case (Suc k)
    with that f(3) g(1) show ?thesis by auto
  qed
  ultimately show ?case using c0 by blast
qed

lemma gate1_clean:
  assumes "check_gate1_coverage st out = Inr (st', out')" "codes out' = []"
  defines "st1 \<equiv> st\<lparr>st_pinned_posture := digest_of (rget (st_env st) ''networkPosture'')\<rparr>"
  shows "codes out = [] \<and> (st_has_records st \<longrightarrow> list_all (refs_in_range (length (st_views st))) (st_rows st)) \<and>
    (\<exists>f. st' = st1\<lparr>st_row_covering := f\<rparr> \<and>
      (\<forall>i<length (st_rows st). is_substrate (st_rows st ! i) \<longrightarrow> i \<notin> set (st_fail_closed_rows st) \<longrightarrow>
         (\<exists>cov. f i = Some cov \<and> row_ok st1 (st_rows st ! i) cov)))"
proof -
  let ?s = "st1\<lparr>st_row_covering := (\<lambda>_. None)\<rparr>"
  let ?o = "if st_has_records st then check_refs_in_range ?s out else out"
  from assms(1) have f: "rfold gate1_row (?s, ?o) (enumerate 0 (st_rows st)) = Inr (st', out')"
    by (cases "st_has_records st") (simp_all add: check_gate1_coverage_def Let_def st1_def)
  from gate1_rows_clean [OF f assms(2)] obtain g where c: "codes ?o = []" and g: "st' = ?s\<lparr>st_row_covering := g\<rparr>"
    "\<forall>i<length (st_rows st). is_substrate (st_rows st ! i) \<longrightarrow> i \<notin> set (st_fail_closed_rows ?s) \<longrightarrow>
         (\<exists>cov. g i = Some cov \<and> row_ok ?s (st_rows st ! i) cov)" by auto
  have "st_fail_closed_rows ?s = st_fail_closed_rows st" "st_views ?s = st_views st" "st_rows ?s = st_rows st"
    by (simp_all add: st1_def)
  moreover from g(1) have "st' = st1\<lparr>st_row_covering := g\<rparr>" by simp
  moreover have "row_ok ?s = row_ok st1" by simp
  moreover from c have "codes out = [] \<and> (st_has_records st \<longrightarrow> list_all (refs_in_range (length (st_views ?s))) (st_rows ?s))"
    by (auto simp: check_refs_in_range_def split: if_splits)
  ultimately show ?thesis using g(2) by (metis (no_types, lifting))
qed

subsection \<open>Commitments\<close>

lemma opt_clean:
  "(case c of None \<Rightarrow> out | Some x \<Rightarrow> add x out) = out' \<Longrightarrow> codes out' = [] \<Longrightarrow> c = None \<and> out = out'"
  by (cases c) auto

lemma carried_fold_clean:
  assumes "rfold (carried_step st) out rvs = Inr out'" "codes out' = []"
  shows "codes out = [] \<and> (\<forall>rv \<in> set rvs. carried_candidate st rv \<longrightarrow> carried_record_fault rv st = Inr None)"
  using assms
proof (induction rvs arbitrary: out)
  case (Cons rv rvs)
  then obtain o1 where o1: "carried_step st out rv = Inr o1" "rfold (carried_step st) o1 rvs = Inr out'"
    by (auto simp: rbind_eq_Inr)
  from Cons.IH [OF o1(2) Cons.prems(2)] have c: "codes o1 = []"
    "\<forall>rv \<in> set rvs. carried_candidate st rv \<longrightarrow> carried_record_fault rv st = Inr None" by auto
  with o1(1) have "codes out = [] \<and> (carried_candidate st rv \<longrightarrow> carried_record_fault rv st = Inr None)"
  proof (cases "carried_candidate st rv")
    case True
    with o1(1) obtain d where d: "carried_record_fault rv st = Inr d" "(case d of None \<Rightarrow> out | Some x \<Rightarrow> add x out) = o1"
      by (auto simp: carried_step_def rbind_eq_Inr)
    from opt_clean [OF d(2) c(1)] d(1) c(1) show ?thesis by simp
  qed (simp add: carried_step_def)
  with c show ?case by simp
qed simp

lemma some_sealed_ok_Inr:
  "some_sealed_ok st ps rvs = Inr True \<Longrightarrow>
   \<exists>rv \<in> set rvs. sealed_ok rv (st_pinned_posture st) ps (st_declared_attacks st) = Inr True"
  by (induction rvs) (auto simp: rbind_eq_Inr split: if_splits)

lemma first_pinned_fault_None:
  "first_pinned_fault st em rs = Inr None \<Longrightarrow>
   \<forall>r \<in> set rs. rget r ''attribution'' = str ''pinned'' \<longrightarrow> pinned_row_fault st em r = Inr None"
  by (induction rs) (auto simp: rbind_eq_Inr split: if_splits option.splits)

text \<open>What the rules over every row leave.\<close>

definition rows_consistent :: "vstate \<Rightarrow> bool" where
  "rows_consistent st \<longleftrightarrow>
     (\<forall>ls ca. st_labels st = Some ls \<longrightarrow> st_caught st = Some ca \<longrightarrow>
        \<not> list_ex (clean_contradicted st ls ca) (st_rows st)) \<and>
     (\<forall>ca. st_caught st = Some ca \<longrightarrow> st_has_records st \<longrightarrow>
        (\<forall>rv \<in> set (st_views st). is_interception rv \<longrightarrow> idx rv \<in> set (caught_resolved st ca))) \<and>
     (\<forall>r \<in> set (st_rows st). rget r ''attribution'' = str ''pinned'' \<longrightarrow>
        pinned_row_fault st (the_obj (st_expected_payloads st)) r = Inr None)"

text \<open>What the rules over the carried records leave, on a statement with a substrate row and records.\<close>

definition records_consistent :: "runtime \<Rightarrow> vstate \<Rightarrow> bool" where
  "records_consistent R st \<longleftrightarrow>
     (\<forall>g \<in> set (map (\<lambda>rv. pget rv ''aeeObservedSet'') (bound_of_kind st ''sealed'')). is_hex64_lower g \<longrightarrow>
        observed_set_digest (rt_sha R) (st_views st) = Inr (the_str g) \<and> is_str g) \<and>
     (\<exists>rv \<in> set (bound_of_kind st ''sealed''). media_ok rv \<and>
        sealed_ok rv (st_pinned_posture st) (posture_claims (st_views st)) (st_declared_attacks st) = Inr True) \<and>
     (\<forall>rv \<in> set (st_views st). carried_candidate st rv \<longrightarrow> carried_record_fault rv st = Inr None) \<and>
     (\<forall>ca lists. st_caught st = Some ca \<longrightarrow> attack_lists st ''sealed'' ''aeeObservedAttacks'' = Inr lists \<longrightarrow>
        (\<forall>l \<in> set lists. \<forall>a \<in> set l.
           \<exists>r \<in> set (st_rows st). rget r ''attackId'' = JStr a \<and> jin (row_label r) ca)) \<and>
     (\<forall>cs cl lists. rget (the_obj (st_coverage st)) ''assessedClasses'' = JArr cs \<longrightarrow>
        st_manifest_classes st = Some cl \<longrightarrow> attack_lists st ''arming'' ''aeeAssessedAttacks'' = Inr lists \<longrightarrow>
        (\<forall>l \<in> set lists. set (assessed_attacks cl cs) \<subseteq> set l))"

lemma rows_rules_clean:
  assumes "commit_attribution st (commit_interception_orphaned st (commit_clean_row_contradicted st out)) = Inr out'"
    "codes out' = []"
  shows "codes out = [] \<and> rows_consistent st"
proof -
  let ?o1 = "commit_clean_row_contradicted st out" and ?o2 = "commit_interception_orphaned st (commit_clean_row_contradicted st out)"
  from assms have a: "first_pinned_fault st (the_obj (st_expected_payloads st)) (st_rows st) = Inr None" "codes ?o2 = []"
  proof -
    from assms(1) obtain c where d: "first_pinned_fault st (the_obj (st_expected_payloads st)) (st_rows st) = Inr c"
      "(case c of None \<Rightarrow> ?o2 | Some x \<Rightarrow> add x ?o2) = out'"
      by (auto simp: commit_attribution_def rbind_eq_Inr)
    from opt_clean [OF d(2) assms(2)] d(1) assms(2)
    show "first_pinned_fault st (the_obj (st_expected_payloads st)) (st_rows st) = Inr None" "codes ?o2 = []"
      by simp_all
  qed
  from a(2) have o1: "codes ?o1 = []" and orph: "\<forall>ca. st_caught st = Some ca \<longrightarrow> st_has_records st \<longrightarrow>
      (\<forall>rv \<in> set (st_views st). is_interception rv \<longrightarrow> idx rv \<in> set (caught_resolved st ca))"
    by (auto simp: commit_interception_orphaned_def list_ex_iff split: option.splits if_splits)
  from o1 have "codes out = []" "\<forall>ls ca. st_labels st = Some ls \<longrightarrow> st_caught st = Some ca \<longrightarrow>
      \<not> list_ex (clean_contradicted st ls ca) (st_rows st)"
    by (auto simp: commit_clean_row_contradicted_def split: option.splits)
  with orph first_pinned_fault_None [OF a(1)] show ?thesis by (simp add: rows_consistent_def)
qed

lemma observed_set_clean:
  assumes "commit_observed_set R st out = Inr out'" "codes out' = []"
  shows "codes out = [] \<and> (\<forall>g \<in> set (map (\<lambda>rv. pget rv ''aeeObservedSet'') (bound_of_kind st ''sealed'')).
    is_hex64_lower g \<longrightarrow> observed_set_digest (rt_sha R) (st_views st) = Inr (the_str g) \<and> is_str g)"
proof -
  let ?g = "filter is_hex64_lower (map (\<lambda>rv. pget rv ''aeeObservedSet'') (bound_of_kind st ''sealed''))"
  show ?thesis
  proof (cases "?g = []")
    case True
    with assms show ?thesis by (auto simp: commit_observed_set_def filter_empty_conv)
  next
    case False
    with assms(1) obtain want where w: "observed_set_digest (rt_sha R) (st_views st) = Inr want"
      "out' = add_if (list_ex (\<lambda>g. g \<noteq> JStr want) ?g) ''observed-set-mismatch'' out"
      by (auto simp: commit_observed_set_def Let_def rbind_eq_Inr)
    with assms(2) have "codes out = []" "\<forall>g \<in> set ?g. g = JStr want" by (auto simp: list_ex_iff)
    with w(1) show ?thesis by auto
  qed
qed

lemma seal_attacks_clean:
  assumes "commit_seal_attacks st out = Inr out'" "codes out' = []"
  shows "codes out = [] \<and> (\<forall>ca lists. st_caught st = Some ca \<longrightarrow>
    attack_lists st ''sealed'' ''aeeObservedAttacks'' = Inr lists \<longrightarrow>
    (\<forall>l \<in> set lists. \<forall>a \<in> set l. \<exists>r \<in> set (st_rows st). rget r ''attackId'' = JStr a \<and> jin (row_label r) ca))"
  using assms
  by (fastforce simp: commit_seal_attacks_def Let_def rbind_eq_Inr list_ex_iff jin_JStr split: option.splits)

lemma assessed_subset_clean:
  assumes "commit_assessed_subset st out = Inr out'" "codes out' = []"
  shows "codes out = [] \<and> (\<forall>cs cl lists. rget (the_obj (st_coverage st)) ''assessedClasses'' = JArr cs \<longrightarrow>
    st_manifest_classes st = Some cl \<longrightarrow> attack_lists st ''arming'' ''aeeAssessedAttacks'' = Inr lists \<longrightarrow>
    (\<forall>l \<in> set lists. set (assessed_attacks cl cs) \<subseteq> set l))"
proof (cases "\<exists>cs cl. rget (the_obj (st_coverage st)) ''assessedClasses'' = JArr cs \<and> st_manifest_classes st = Some cl")
  case True
  then obtain cs cl where c: "rget (the_obj (st_coverage st)) ''assessedClasses'' = JArr cs" "st_manifest_classes st = Some cl" by blast
  with assms(1) obtain lists where l: "attack_lists st ''arming'' ''aeeAssessedAttacks'' = Inr lists"
    "out' = add_if (list_ex (\<lambda>declared. \<not> set (assessed_attacks cl cs) \<subseteq> set declared) lists) ''assessed-set-exceeds-declaration'' out"
    by (auto simp: commit_assessed_subset_def rbind_eq_Inr)
  with assms(2) c show ?thesis by (auto simp: list_ex_iff)
next
  case False
  with assms have "out' = out" by (auto simp: commit_assessed_subset_def split: json.splits option.splits)
  with False assms(2) show ?thesis by blast
qed

lemma commitments_clean:
  assumes "check_commitments R st out = Inr out'" "codes out' = []"
  shows "codes out = [] \<and> rows_consistent st \<and> (st_has_substrate st \<longrightarrow> st_has_records st \<longrightarrow> records_consistent R st)"
proof -
  let ?o2 = "commit_interception_orphaned st (commit_clean_row_contradicted st out)"
  from assms(1) obtain o3 where o3: "commit_attribution st ?o2 = Inr o3"
    by (auto simp: check_commitments_def Let_def rbind_eq_Inr)
  show ?thesis
  proof (cases "st_has_substrate st \<and> st_has_records st")
    case False
    with assms o3 have "out' = o3" by (auto simp: check_commitments_def Let_def)
    with rows_rules_clean [OF o3] assms(2) False show ?thesis by auto
  next
    case True
    with assms(1) o3 obtain o4 o5 o6 o7 where s: "commit_observed_set R st o3 = Inr o4"
      "commit_sealed_present st o4 = Inr o5" "commit_carried_cover st o5 = Inr o6"
      "commit_seal_attacks st o6 = Inr o7" "commit_assessed_subset st o7 = Inr out'"
      by (auto simp: check_commitments_def Let_def rbind_eq_Inr)
    note f5 = assessed_subset_clean [OF s(5) assms(2)]
    note f4 = seal_attacks_clean [OF s(4) conjunct1 [OF f5]]
    have f3: "codes o5 = [] \<and> (\<forall>rv \<in> set (st_views st). carried_candidate st rv \<longrightarrow> carried_record_fault rv st = Inr None)"
      by (rule carried_fold_clean [OF s(3) [unfolded commit_carried_cover_def] conjunct1 [OF f4]])
    with s(2) have f2: "codes o4 = [] \<and> some_sealed_ok st (posture_claims (st_views st)) (filter media_ok (bound_of_kind st ''sealed'')) = Inr True"
      by (auto simp: commit_sealed_present_def rbind_eq_Inr)
    note f1 = observed_set_clean [OF s(1) conjunct1 [OF f2]]
    from rows_rules_clean [OF o3 conjunct1 [OF f1]] have "codes out = []" "rows_consistent st" by auto
    moreover have "records_consistent R st"
      unfolding records_consistent_def
      using f1 f3 f4 f5 some_sealed_ok_Inr [OF conjunct2 [OF f2]] by (intro conjI) (blast, auto)
    ultimately show ?thesis by blast
  qed
qed

lemma recompute_clean:
  assumes "check_result_recompute st out = Inr out'" "codes out' = []"
  shows "codes out = [] \<and> (\<forall>ls ca. st_labels st = Some ls \<longrightarrow> st_caught st = Some ca \<longrightarrow> st_rows st \<noteq> [] \<longrightarrow>
    st_result st = str (recompute (st_rows st) ls ca (st_coverage st)))"
  using assms by (auto simp: check_result_recompute_def rbind_eq_Inr split: option.splits if_splits)

end
