(* ===== verification/Verifier_Laws.thy ===== *)
theory Verifier_Laws
  imports Commitment_Laws
begin

section \<open>What a valid verdict stands for\<close>

text \<open>
  The data a statement carries, read off the statement itself, and \<open>valid_run\<close>: the
  conjunction of every rule the verifier applies, over that data.  The main lemma
  \<open>verify_valid\<close> says that a valid outcome comes from a run whose final state satisfies it.
\<close>


subsection \<open>The statement's own data\<close>

definition stmt_pred :: "json \<Rightarrow> dict" where
  "stmt_pred stmt = the_obj (rget (the_obj stmt) ''predicate'')"

definition stmt_env :: "json \<Rightarrow> dict" where
  "stmt_env stmt = the_obj (rget (stmt_pred stmt) ''observationEnvironment'')"

definition stmt_vocab :: "json \<Rightarrow> dict" where
  "stmt_vocab stmt = the_obj (rget (stmt_env stmt) ''observationVocabulary'')"

definition stmt_labels :: "json \<Rightarrow> json list" where
  "stmt_labels stmt = the_arr (rget (stmt_vocab stmt) ''labels'')"

definition stmt_caught :: "json \<Rightarrow> json list" where
  "stmt_caught stmt = the_arr (rget (stmt_vocab stmt) ''caught'')"

definition stmt_rows :: "json \<Rightarrow> dict list" where
  "stmt_rows stmt = map the_obj (filter is_obj (the_arr (rget (stmt_pred stmt) ''attackResults'')))"

definition stmt_records :: "json \<Rightarrow> json list" where
  "stmt_records stmt = the_arr (rget (stmt_pred stmt) ''observationRecords'')"

definition stmt_substrate :: "json \<Rightarrow> bool" where
  "stmt_substrate stmt \<longleftrightarrow> list_ex is_substrate (stmt_rows stmt)"

definition stmt_coverage :: "json \<Rightarrow> dict" where
  "stmt_coverage stmt = the_obj (rget (stmt_pred stmt) ''coverage'')"

definition stmt_assessed :: "json \<Rightarrow> json list" where
  "stmt_assessed stmt = the_arr (rget (stmt_coverage stmt) ''assessedClasses'')"

definition stmt_declared :: "json \<Rightarrow> ustr list" where
  "stmt_declared stmt = (case classes_of (stmt_env stmt) of None \<Rightarrow> [] | Some cl \<Rightarrow> declared_attack_ids cl)"

definition stmt_posture :: "json \<Rightarrow> json" where
  "stmt_posture stmt = digest_of (rget (stmt_env stmt) ''networkPosture'')"

text \<open>The state at the end of the checks holds the statement's data and nothing else.\<close>

definition run_state :: "runtime \<Rightarrow> json \<Rightarrow> vstate \<Rightarrow> bool" where
  "run_state R stmt st \<longleftrightarrow>
     st_stmt st = stmt \<and> st_pred st = stmt_pred stmt \<and> st_env st = stmt_env stmt \<and>
     st_result st = rget (stmt_pred stmt) ''result'' \<and> st_issued_at st = rget (stmt_pred stmt) ''issuedAt'' \<and>
     st_labels st = Some (stmt_labels stmt) \<and> st_caught st = Some (stmt_caught stmt) \<and>
     st_rows st = stmt_rows stmt \<and> st_has_substrate st = stmt_substrate stmt \<and>
     st_coverage st = JObj (stmt_coverage stmt) \<and> st_manifest_classes st = classes_of (stmt_env stmt) \<and>
     st_declared_attacks st = stmt_declared stmt \<and> st_pinned_posture st = stmt_posture stmt \<and>
     st_has_records st = (stmt_records stmt \<noteq> []) \<and> build_views (stmt_records stmt) = Inr (st_views st) \<and>
     (stmt_substrate stmt \<longrightarrow> derive_binding (rt_sha R) stmt (stmt_env stmt) = Inr (st_derived_binding st)) \<and>
     (\<not> stmt_substrate stmt \<longrightarrow> st_derived_binding st = None)"

definition types_facts :: "json \<Rightarrow> bool" where
  "types_facts stmt \<longleftrightarrow>
     (\<exists>s. stmt = JObj s \<and> rget s ''_type'' = str statement_type \<and> rget s ''predicateType'' = str aee_predicate_type \<and>
        is_obj (rget s ''predicate'') \<and> length (the_arr (rget s ''subject'')) = 1)"

definition gate0_facts :: "json \<Rightarrow> bool" where
  "gate0_facts stmt \<longleftrightarrow>
     in_result_order (rget (stmt_pred stmt) ''result'') \<and> timestamp_ok (rget (stmt_pred stmt) ''issuedAt'') \<and>
     list_all (rhas (stmt_env stmt)) env_members \<and> posture_registered (stmt_env stmt) \<and>
     \<not> rhas (stmt_pred stmt) ''does_not_assert''"

definition vocabulary_facts :: "runtime \<Rightarrow> json \<Rightarrow> bool" where
  "vocabulary_facts R stmt \<longleftrightarrow>
     (\<exists>ls ca d. stmt_labels stmt = map JStr ls \<and> stmt_caught stmt = map JStr ca \<and>
        sort_key utf16_be ls = ls \<and> distinct ls \<and> all_bmp ls \<and>
        sort_key utf16_be ca = ca \<and> distinct ca \<and> all_bmp ca \<and> set ca \<subseteq> set ls \<and>
        vocab_digest (rt_sha R) (map JStr ca) (map JStr ls) = Inr d \<and>
        digest_of (rget (stmt_env stmt) ''observationVocabulary'') = JStr d)"

definition corpus_facts :: "runtime \<Rightarrow> json \<Rightarrow> bool" where
  "corpus_facts R stmt \<longleftrightarrow>
     (\<forall>m. corpus_manifest (stmt_env stmt) = JObj m \<longrightarrow>
       (\<exists>b cl. jcs_dumps (JObj m) = Inr b \<and> digest_of (rget (stmt_env stmt) ''corpus'') = JStr (sha256_hex (rt_sha R) b) \<and>
          classes_of (stmt_env stmt) = Some cl \<and> class_ids cl \<noteq> [] \<and> no_repeats (class_ids cl)))"

definition coverage_facts :: "json \<Rightarrow> bool" where
  "coverage_facts stmt \<longleftrightarrow>
     (\<forall>cl. classes_of (stmt_env stmt) = Some cl \<longrightarrow>
        coverage_partition_ok cl (stmt_assessed stmt) (the_obj (rget (stmt_coverage stmt) ''outOfScope''))
          (the_obj (rget (stmt_coverage stmt) ''routedElsewhere'')) = Inr True \<and>
        (\<exists>index. attack_class_index cl = Inr index \<and>
           (\<forall>r \<in> set (stmt_rows stmt). \<exists>cls. jget index (rget r ''attackId'') = Some cls \<and> jin (JStr cls) (stmt_assessed stmt))) \<and>
        no_repeats (row_attacks (stmt_rows stmt)) \<and>
        list_all (\<lambda>a. jin a (row_attacks (stmt_rows stmt))) (expected_attack_ids cl (stmt_assessed stmt)))"

definition row_facts :: "json \<Rightarrow> bool" where
  "row_facts stmt \<longleftrightarrow>
     list_all row_typed (stmt_rows stmt) \<and> list_all (\<lambda>r. rhas r ''actualLayer'') (stmt_rows stmt) \<and>
     \<not> list_ex (clean_layer_bad (stmt_labels stmt) (stmt_caught stmt)) (stmt_rows stmt) \<and>
     (\<forall>r \<in> set (stmt_rows stmt). is_substrate r \<longrightarrow> \<not> row_fails_closed (Some (stmt_labels stmt)) r)"

definition binding_input_facts :: "json \<Rightarrow> bool" where
  "binding_input_facts stmt \<longleftrightarrow>
     (stmt_substrate stmt \<longrightarrow> rhas (stmt_env stmt) ''runEntropy'' \<and>
       (let subject = the_arr (rget (the_obj stmt) ''subject'');
            subj = (case subject of [] \<Rightarrow> JNull | s # _ \<Rightarrow> digest_of s) in
        (subject \<noteq> [] \<longrightarrow> subj \<noteq> JNull) \<and> \<not> list_ex digest_not_canonical (binding_inputs (stmt_env stmt) subj)))"

definition record_facts :: "runtime \<Rightarrow> json \<Rightarrow> record_view list \<Rightarrow> bool" where
  "record_facts R stmt vs \<longleftrightarrow>
     list_all (\<lambda>v. 0 < signature_count v \<and> \<not> decode_err v) vs \<and>
     (stmt_records stmt = [] \<longrightarrow> rget (stmt_pred stmt) ''batchRoot'' = JNull) \<and>
     (stmt_records stmt \<noteq> [] \<longrightarrow> list_all (\<lambda>v. pae_bytes v \<noteq> None) vs \<and> distinct (map pae_bytes vs) \<and>
       (\<exists>h. merkle_root_hex (rt_sha R) (map (\<lambda>v. the (pae_bytes v)) vs) = Inr h \<and>
            rget (stmt_pred stmt) ''batchRoot'' = JStr h))"

definition gate1_facts :: "json \<Rightarrow> vstate \<Rightarrow> bool" where
  "gate1_facts stmt st \<longleftrightarrow>
     (stmt_records stmt \<noteq> [] \<longrightarrow> list_all (refs_in_range (length (st_views st))) (stmt_rows stmt)) \<and>
     (\<forall>i < length (stmt_rows stmt). is_substrate (stmt_rows stmt ! i) \<longrightarrow>
        (\<exists>cov. st_row_covering st i = Some cov \<and> row_ok st (stmt_rows stmt ! i) cov))"

definition result_facts :: "json \<Rightarrow> bool" where
  "result_facts stmt \<longleftrightarrow>
     (stmt_rows stmt \<noteq> [] \<longrightarrow>
       rget (stmt_pred stmt) ''result'' =
         str (recompute (stmt_rows stmt) (stmt_labels stmt) (stmt_caught stmt) (JObj (stmt_coverage stmt))))"

text \<open>Everything a valid verdict stands for.\<close>

definition valid_run :: "runtime \<Rightarrow> json \<Rightarrow> vstate \<Rightarrow> bool" where
  "valid_run R stmt st \<longleftrightarrow>
     run_state R stmt st \<and> types_facts stmt \<and> gate0_facts stmt \<and> vocabulary_facts R stmt \<and> corpus_facts R stmt \<and>
     coverage_facts stmt \<and> row_facts stmt \<and> binding_input_facts stmt \<and> record_facts R stmt (st_views st) \<and>
     gate1_facts stmt st \<and> rows_consistent st \<and>
     (stmt_substrate stmt \<longrightarrow> stmt_records stmt \<noteq> [] \<longrightarrow> records_consistent R st) \<and> result_facts stmt"

lemma run_checks_stages:
  assumes "run_checks R st out = Inr (st', out')"
  shows "\<exists>s1 o1 s2 o2 s3 o3 s4 o4 s5 o5 s6 o6 s7 o8 o9.
    check_gate0_wellformed st out = Inr (s1, o1) \<and> check_vocabulary R s1 o1 = Inr (s2, o2) \<and>
    check_corpus R s2 o2 = Inr (s3, o3) \<and>
    check_coverage (check_rows_setup s3) (check_subject_cardinality (check_rows_setup s3) o3) = Inr (s4, o4) \<and>
    check_fail_closed_rows s4 (check_substrate_binding_inputs s4 (check_per_row_statements s4 o4)) = (s5, o5) \<and>
    check_records R s5 o5 = Inr (s6, o6) \<and> check_run_binding R s6 = Inr s7 \<and>
    check_gate1_coverage s7 o6 = Inr (st', o8) \<and> check_commitments R st' o8 = Inr o9 \<and>
    check_result_recompute st' o9 = Inr out'"
proof -
  note a0 = assms [unfolded run_checks_def Let_def]
  obtain s1 o1 where 1: "check_gate0_wellformed st out = Inr (s1, o1)" using a0 by (elim rbind_InrE) auto
  note a1 = a0 [unfolded 1 rbind.simps prod.case]
  obtain s2 o2 where 2: "check_vocabulary R s1 o1 = Inr (s2, o2)" using a1 by (elim rbind_InrE) auto
  note a2 = a1 [unfolded 2 rbind.simps prod.case]
  obtain s3 o3 where 3: "check_corpus R s2 o2 = Inr (s3, o3)" using a2 by (elim rbind_InrE) auto
  note a3 = a2 [unfolded 3 rbind.simps prod.case]
  obtain s4 o4 where 4: "check_coverage (check_rows_setup s3) (check_subject_cardinality (check_rows_setup s3) o3) = Inr (s4, o4)"
    using a3 by (elim rbind_InrE) auto
  note a4 = a3 [unfolded 4 rbind.simps prod.case]
  obtain s5 o5 where 5: "check_fail_closed_rows s4 (check_substrate_binding_inputs s4 (check_per_row_statements s4 o4)) = (s5, o5)"
    by fastforce
  note a5 = a4 [unfolded 5 prod.case]
  obtain s6 o6 where 6: "check_records R s5 o5 = Inr (s6, o6)" using a5 by (elim rbind_InrE) auto
  note a6 = a5 [unfolded 6 rbind.simps prod.case]
  obtain s7 where 7: "check_run_binding R s6 = Inr s7" using a6 by (elim rbind_InrE) auto
  note a7 = a6 [unfolded 7 rbind.simps prod.case]
  obtain s8 o8 where 8: "check_gate1_coverage s7 o6 = Inr (s8, o8)" using a7 by (elim rbind_InrE) auto
  note a8 = a7 [unfolded 8 rbind.simps prod.case]
  obtain o9 where 9: "check_commitments R s8 o8 = Inr o9" using a8 by (elim rbind_InrE) auto
  note a9 = a8 [unfolded 9 rbind.simps prod.case]
  have "s8 = st'" "check_result_recompute s8 o9 = Inr out'" using a9 by (auto elim!: rbind_InrE)
  with 1 2 3 4 5 6 7 8 9 show ?thesis by blast
qed

text \<open>The vocabulary check only adds codes, whether or not a vocabulary is there.\<close>

lemma vocabulary_grows: "check_vocabulary R st out = Inr (st', out') \<Longrightarrow> grows out out'"
proof -
  have pairs: "vocab_check_pairs R o1 voc l c = Inr o2 \<Longrightarrow> grows o1 o2" for o1 o2 voc l c
    by (auto simp: vocab_check_pairs_def Let_def rbind_eq_Inr grows_add_if grows_refl split: json.splits)
  assume a: "check_vocabulary R st out = Inr (st', out')"
  show ?thesis
  proof (cases "st_vocab st")
    case (Some voc)
    let ?l = "rget voc ''labels''" and ?c = "rget voc ''caught''"
    from a Some obtain ok where ok: "vocab_shape_ok ?l ?c = Inr ok"
      unfolding check_vocabulary_def Let_def Some option.case by (elim rbind_InrE) auto
    from a ok Some obtain o2 where o2: "vocab_check_pairs R (add_if (\<not> ok) ''vocabulary-not-canonical'' out) voc ?l ?c = Inr o2"
      unfolding check_vocabulary_def Let_def Some option.case ok rbind.simps by (elim rbind_InrE) auto
    from a ok Some o2 have "o2 = out'"
      by (auto simp: check_vocabulary_def Let_def split: json.splits)
    with pairs [OF o2] grows_add_if [OF grows_refl] show ?thesis by (blast intro: grows_trans)
  qed (use a in \<open>auto simp: check_vocabulary_def grows_refl\<close>)
qed

lemma run_checks_start:
  assumes "run_checks R st out = Inr (st', out')" "codes out' = []"
  shows "codes out = []"
proof -
  from run_checks_stages [OF assms(1)] obtain s1 o1 s2 o2 s3 o3 s4 o4 s5 o5 s6 o6 s7 o8 o9 where
    h: "check_gate0_wellformed st out = Inr (s1, o1)" "check_vocabulary R s1 o1 = Inr (s2, o2)"
    "check_corpus R s2 o2 = Inr (s3, o3)"
    "check_coverage (check_rows_setup s3) (check_subject_cardinality (check_rows_setup s3) o3) = Inr (s4, o4)"
    "check_fail_closed_rows s4 (check_substrate_binding_inputs s4 (check_per_row_statements s4 o4)) = (s5, o5)"
    "check_records R s5 o5 = Inr (s6, o6)" "check_gate1_coverage s7 o6 = Inr (st', o8)"
    "check_commitments R st' o8 = Inr o9" "check_result_recompute st' o9 = Inr out'" by blast
  note f7 = gate1_clean [OF h(7) conjunct1 [OF commitments_clean [OF h(8) conjunct1 [OF recompute_clean [OF h(9) assms(2)]]]]]
  note f4 = fail_closed_clean [OF h(5) conjunct1 [OF records_clean [OF h(6) conjunct1 [OF f7]]]]
  note f3 = coverage_clean [OF h(4) conjunct1 [OF per_row_clean [OF conjunct1 [OF binding_inputs_clean [OF conjunct1 [OF f4]]]]]]
  have "codes o3 = []" using conjunct1 [OF f3] by (simp add: check_subject_cardinality_def)
  from gate0_clean [OF h(1) grows_clean [OF vocabulary_grows [OF h(2)] conjunct1 [OF corpus_clean [OF h(3) this]]]]
  show ?thesis by blast
qed

text \<open>
  The state after the checks of the environment, after those of the rows, and the parts of
  \<open>valid_run\<close> each group of checks establishes on the way.
\<close>

definition opened :: "json \<Rightarrow> json \<Rightarrow> vstate" where
  "opened stmt ep = (new_vstate stmt)\<lparr>st_pred := stmt_pred stmt, st_result := rget (stmt_pred stmt) ''result'',
     st_issued_at := rget (stmt_pred stmt) ''issuedAt'', st_env := stmt_env stmt, st_vocab := Some (stmt_vocab stmt),
     st_labels := Some (stmt_labels stmt), st_caught := Some (stmt_caught stmt), st_corpus := rget (stmt_env stmt) ''corpus'',
     st_manifest_classes := classes_of (stmt_env stmt), st_declared_attacks := stmt_declared stmt,
     st_expected_payloads := ep\<rparr>"

definition with_rows :: "json \<Rightarrow> json \<Rightarrow> nat list \<Rightarrow> vstate" where
  "with_rows stmt ep fc = (opened stmt ep)\<lparr>st_rows := stmt_rows stmt, st_has_substrate := stmt_substrate stmt,
     st_coverage := JObj (stmt_coverage stmt), st_fail_closed_rows := fc\<rparr>"

lemmas opened_fields = opened_def new_vstate_def
lemmas with_rows_fields = with_rows_def opened_def new_vstate_def

lemma opening_valid:
  assumes "check_gate0_wellformed ((new_vstate stmt)\<lparr>st_pred := stmt_pred stmt\<rparr>) out = Inr (s1, o1)"
    "check_vocabulary R s1 o1 = Inr (s2, o2)" "check_corpus R s2 o2 = Inr (s3, o3)" "codes o3 = []"
  shows "codes out = [] \<and> gate0_facts stmt \<and> vocabulary_facts R stmt \<and> corpus_facts R stmt \<and> (\<exists>ep. s3 = opened stmt ep)"
proof -
  let ?s0 = "(new_vstate stmt)\<lparr>st_pred := stmt_pred stmt\<rparr>" and ?e = "stmt_env stmt"
  note f2 = corpus_clean [OF assms(3,4)]
  have c1: "codes o1 = []" by (rule grows_clean [OF vocabulary_grows [OF assms(2)] conjunct1 [OF f2]])
  note f0 = gate0_clean [OF assms(1) c1]
  have sp: "st_pred ?s0 = stmt_pred stmt" "the_obj (rget (stmt_pred stmt) ''observationEnvironment'') = ?e"
    by (simp_all add: stmt_env_def)
  from f0 [unfolded sp] obtain voc where v: "rget ?e ''observationVocabulary'' = JObj voc"
    and s1: "s1 = ?s0\<lparr>st_result := rget (stmt_pred stmt) ''result'', st_issued_at := rget (stmt_pred stmt) ''issuedAt'',
      st_env := ?e, st_vocab := Some voc\<rparr>" by blast
  have voc: "stmt_vocab stmt = voc" using v by (simp add: stmt_vocab_def)
  have "st_vocab s1 = Some voc" unfolding s1 by simp
  from vocabulary_clean [OF assms(2) conjunct1 [OF f2] this] obtain ls ca d where
    l: "rget voc ''labels'' = JArr (map JStr ls)" "rget voc ''caught'' = JArr (map JStr ca)"
      "sort_key utf16_be ls = ls" "distinct ls" "all_bmp ls" "sort_key utf16_be ca = ca" "distinct ca" "all_bmp ca"
      "set ca \<subseteq> set ls" "vocab_digest (rt_sha R) (map JStr ca) (map JStr ls) = Inr d" "digest_of (JObj voc) = JStr d"
    and s2: "s2 = s1\<lparr>st_labels := Some (map JStr ls), st_caught := Some (map JStr ca)\<rparr>" by blast
  have lab: "stmt_labels stmt = map JStr ls" "stmt_caught stmt = map JStr ca"
    using l(1,2) by (simp_all add: stmt_labels_def stmt_caught_def voc)
  have vf: "vocabulary_facts R stmt" unfolding vocabulary_facts_def lab v using l by blast
  have e2: "st_env s2 = ?e" "st_declared_attacks s2 = []" unfolding s2 s1 by (simp_all add: new_vstate_def)
  from f2 [unfolded e2] obtain ep where cf: "corpus_facts R stmt"
    and s3: "s3 = s2\<lparr>st_corpus := rget ?e ''corpus'', st_manifest_classes := classes_of ?e,
       st_declared_attacks := stmt_declared stmt, st_expected_payloads := ep\<rparr>"
    unfolding corpus_facts_def stmt_declared_def by blast
  have "s3 = opened stmt ep" unfolding s3 s2 s1 opened_def lab voc by simp
  moreover have "gate0_facts stmt" unfolding gate0_facts_def using f0 [unfolded sp] by blast
  ultimately show ?thesis using vf cf f0 by blast
qed

lemma rows_valid:
  assumes "check_coverage (check_rows_setup (opened stmt ep)) (check_subject_cardinality (check_rows_setup (opened stmt ep)) out) = Inr (s4, o4)"
    "check_fail_closed_rows s4 (check_substrate_binding_inputs s4 (check_per_row_statements s4 o4)) = (s5, o5)" "codes o5 = []"
  shows "codes out = [] \<and> length (the_arr (rget (the_obj stmt) ''subject'')) = 1 \<and> coverage_facts stmt \<and> row_facts stmt \<and>
    binding_input_facts stmt \<and>
    (\<exists>fc. s5 = with_rows stmt ep fc \<and> (\<forall>i < length (stmt_rows stmt). is_substrate (stmt_rows stmt ! i) \<longrightarrow> i \<notin> set fc))"
proof -
  let ?s3 = "check_rows_setup (opened stmt ep)"
  have s3: "?s3 = (opened stmt ep)\<lparr>st_rows := stmt_rows stmt, st_has_substrate := stmt_substrate stmt\<rparr>"
    unfolding rows_setup_eq stmt_rows_def stmt_substrate_def by (simp add: opened_def)
  note f4 = fail_closed_clean [OF assms(2,3)]
  note f4b = binding_inputs_clean [OF conjunct1 [OF f4]]
  note f4a = per_row_clean [OF conjunct1 [OF f4b]]
  note f3 = coverage_clean [OF assms(1) conjunct1 [OF f4a]]
  have p3: "st_pred ?s3 = stmt_pred stmt" "st_rows ?s3 = stmt_rows stmt" "st_manifest_classes ?s3 = classes_of (stmt_env stmt)"
    "st_stmt ?s3 = stmt"
    unfolding s3 by (simp_all add: opened_fields)
  have sub: "codes out = [] \<and> length (the_arr (rget (the_obj stmt) ''subject'')) = 1"
    using conjunct1 [OF f3] p3 by (simp add: check_subject_cardinality_def)
  from f3 [unfolded p3] obtain c where c: "rget (stmt_pred stmt) ''coverage'' = JObj c" "s4 = ?s3\<lparr>st_coverage := JObj c\<rparr>" by blast
  have c': "stmt_coverage stmt = c" using c(1) by (simp add: stmt_coverage_def)
  have covf: "coverage_facts stmt"
    using conjunct2 [OF f3, unfolded p3 c(1)] unfolding coverage_facts_def stmt_assessed_def c' Let_def by auto
  have s4: "s4 = (opened stmt ep)\<lparr>st_rows := stmt_rows stmt, st_has_substrate := stmt_substrate stmt,
      st_coverage := JObj (stmt_coverage stmt)\<rparr>" unfolding c(2) c' s3 by simp
  have p4: "st_rows s4 = stmt_rows stmt" "st_labels s4 = Some (stmt_labels stmt)" "st_caught s4 = Some (stmt_caught stmt)"
    "st_has_substrate s4 = stmt_substrate stmt" "st_env s4 = stmt_env stmt" "st_stmt s4 = stmt"
    unfolding s4 by (simp_all add: opened_fields)
  have rf: "row_facts stmt" unfolding row_facts_def using f4a f4 unfolding p4 by blast
  have bf: "binding_input_facts stmt" unfolding binding_input_facts_def using f4b unfolding p4 by blast
  have "s5 = with_rows stmt ep (st_fail_closed_rows s5)" using f4 unfolding s4 with_rows_def by simp
  moreover have "\<forall>i < length (stmt_rows stmt). is_substrate (stmt_rows stmt ! i) \<longrightarrow> i \<notin> set (st_fail_closed_rows s5)"
    using f4 unfolding p4 by auto
  ultimately show ?thesis using sub covf rf bf by blast
qed

lemma records_valid:
  assumes "check_records R (with_rows stmt ep fc) out = Inr (s6, o6)" "check_run_binding R s6 = Inr s7"
    "check_gate1_coverage s7 o6 = Inr (st, o8)" "codes o8 = []" "is_obj (rget (stmt_pred stmt) ''coverage'')"
    and fc: "\<forall>i < length (stmt_rows stmt). is_substrate (stmt_rows stmt ! i) \<longrightarrow> i \<notin> set fc"
  shows "codes out = [] \<and> run_state R stmt st \<and> record_facts R stmt (st_views st) \<and> gate1_facts stmt st"
proof -
  note f7 = gate1_clean [OF assms(3,4)]
  note f6 = run_binding_state [OF assms(2)]
  note f5 = records_clean [OF assms(1) conjunct1 [OF f7]]
  have recs: "the_arr (rget (stmt_pred stmt) ''observationRecords'') = stmt_records stmt"
    and p5: "st_pred (with_rows stmt ep fc) = stmt_pred stmt"
    by (simp_all add: with_rows_fields stmt_records_def)
  from f5 [unfolded p5 recs] obtain vs where s6: "s6 = (with_rows stmt ep fc)\<lparr>st_has_records := (stmt_records stmt \<noteq> []), st_views := vs\<rparr>"
    and bv: "build_views (stmt_records stmt) = Inr vs" and recf: "record_facts R stmt vs"
    unfolding record_facts_def by blast
  have p6: "st_has_substrate s6 = stmt_substrate stmt" "st_stmt s6 = stmt" "st_env s6 = stmt_env stmt"
    unfolding s6 by (simp_all add: with_rows_fields)
  from f6 [unfolded p6] obtain d where s7: "s7 = s6\<lparr>st_derived_binding := d\<rparr>"
    and d: "stmt_substrate stmt \<longrightarrow> derive_binding (rt_sha R) stmt (stmt_env stmt) = Inr d" "\<not> stmt_substrate stmt \<longrightarrow> d = None"
    by blast
  have p7: "st_rows s7 = stmt_rows stmt" "st_env s7 = stmt_env stmt" "st_has_records s7 = (stmt_records stmt \<noteq> [])"
    "st_views s7 = vs" "st_fail_closed_rows s7 = fc"
    unfolding s7 s6 by (simp_all add: with_rows_fields)
  let ?s7 = "s7\<lparr>st_pinned_posture := stmt_posture stmt\<rparr>"
  from f7 [unfolded p7, folded stmt_posture_def] obtain f where st: "st = ?s7\<lparr>st_row_covering := f\<rparr>"
    and rng: "stmt_records stmt \<noteq> [] \<longrightarrow> list_all (refs_in_range (length vs)) (stmt_rows stmt)"
    and rows: "\<forall>i<length (stmt_rows stmt). is_substrate (stmt_rows stmt ! i) \<longrightarrow> i \<notin> set fc \<longrightarrow>
         (\<exists>cov. f i = Some cov \<and> row_ok ?s7 (stmt_rows stmt ! i) cov)" by blast
  have "row_ok st = row_ok ?s7" unfolding st by simp
  moreover have vst: "st_views st = vs" "st_row_covering st = f" unfolding st using p7 by simp_all
  ultimately have "gate1_facts stmt st" unfolding gate1_facts_def using rng rows fc by simp
  moreover have "run_state R stmt st"
    unfolding run_state_def st s7 s6 using bv d by (simp add: with_rows_fields)
  ultimately show ?thesis using f5 recf vst by simp
qed

lemma run_checks_valid:
  assumes "run_checks R ((new_vstate stmt)\<lparr>st_pred := stmt_pred stmt\<rparr>) out = Inr (st, out')" "codes out' = []"
    "stmt = JObj s" "rget s ''_type'' = str statement_type" "rget s ''predicateType'' = str aee_predicate_type"
    "rget s ''predicate'' = JObj p"
  shows "valid_run R stmt st"
proof -
  from run_checks_stages [OF assms(1)] obtain s1 o1 s2 o2 s3 o3 s4 o4 s5 o5 s6 o6 s7 o8 o9 where
    h: "check_gate0_wellformed ((new_vstate stmt)\<lparr>st_pred := stmt_pred stmt\<rparr>) out = Inr (s1, o1)"
    "check_vocabulary R s1 o1 = Inr (s2, o2)" "check_corpus R s2 o2 = Inr (s3, o3)"
    "check_coverage (check_rows_setup s3) (check_subject_cardinality (check_rows_setup s3) o3) = Inr (s4, o4)"
    "check_fail_closed_rows s4 (check_substrate_binding_inputs s4 (check_per_row_statements s4 o4)) = (s5, o5)"
    "check_records R s5 o5 = Inr (s6, o6)" "check_run_binding R s6 = Inr s7" "check_gate1_coverage s7 o6 = Inr (st, o8)"
    "check_commitments R st o8 = Inr o9" "check_result_recompute st o9 = Inr out'" by blast
  note f9 = recompute_clean [OF h(10) assms(2)]
  note f8 = commitments_clean [OF h(9) conjunct1 [OF f9]]
  note c8 = conjunct1 [OF f8]
  have c5: "codes o5 = []" by (rule conjunct1 [OF records_clean [OF h(6) conjunct1 [OF gate1_clean [OF h(8) c8]]]])
  have c4: "codes o4 = []"
    by (rule conjunct1 [OF per_row_clean [OF conjunct1 [OF binding_inputs_clean [OF conjunct1 [OF fail_closed_clean [OF h(5) c5]]]]]])
  note f3 = coverage_clean [OF h(4) c4]
  have c3: "codes o3 = []" using conjunct1 [OF f3] by (simp add: check_subject_cardinality_def)
  from opening_valid [OF h(1-3) c3] obtain ep where a: "gate0_facts stmt" "vocabulary_facts R stmt" "corpus_facts R stmt"
    and s3: "s3 = opened stmt ep" by blast
  have cov: "is_obj (rget (stmt_pred stmt) ''coverage'')"
    using f3 unfolding s3 rows_setup_eq by (auto simp: opened_def)
  from rows_valid [OF h(4) [unfolded s3] h(5) c5] obtain fc where b: "length (the_arr (rget (the_obj stmt) ''subject'')) = 1"
    "coverage_facts stmt" "row_facts stmt" "binding_input_facts stmt" and s5: "s5 = with_rows stmt ep fc"
    and fc: "\<forall>i < length (stmt_rows stmt). is_substrate (stmt_rows stmt ! i) \<longrightarrow> i \<notin> set fc" by blast
  from records_valid [OF h(6) [unfolded s5] h(7,8) c8 cov fc] have c: "run_state R stmt st" "record_facts R stmt (st_views st)"
    "gate1_facts stmt st" by blast+
  note q = c(1) [unfolded run_state_def]
  have res: "result_facts stmt" unfolding result_facts_def using f9 q by auto
  have ty: "types_facts stmt" unfolding types_facts_def using assms(3-6) b(1) by simp
  show ?thesis unfolding valid_run_def using a b c ty f8 res q by simp
qed

text \<open>The shape of an outcome: a valid one carries the result and both tier columns, an invalid one neither.\<close>

lemma verify_state_valid:
  assumes "verify_state R pubs stmt = Inr out" "codes out = []"
  obtains st o1 where "valid_run R stmt st" "codes o1 = []" "out = check_gate2_tiers R pubs st o1"
proof -
  obtain stop st0 o0 where t: "check_statement_type (new_vstate stmt) new_outcome = (stop, st0, o0)"
    using prod_cases3 by blast
  from assms t statement_type_stop have "\<not> stop" by (auto simp: verify_state_def)
  with t have t': "check_statement_type (new_vstate stmt) new_outcome = (False, st0, o0)" by simp
  from assms(1) t \<open>\<not> stop\<close> obtain st o1 where r: "run_checks R st0 o0 = Inr (st, o1)"
    and i: "(if codes o1 \<noteq> [] then Inr o1 else Inr (check_gate2_tiers R pubs st o1)) = (Inr out :: outcome res)"
    by (auto simp: verify_state_def rbind_eq_Inr split: prod.splits)
  from i have o: "out = (if codes o1 \<noteq> [] then o1 else check_gate2_tiers R pubs st o1)"
    by (cases "codes o1 = []") auto
  with assms(2) have c: "codes o1 = []" by (auto split: if_splits)
  from statement_type_clean [OF t' run_checks_start [OF r c]] obtain s p where s: "stmt = JObj s"
    "rget s ''_type'' = str statement_type" "rget s ''predicateType'' = str aee_predicate_type" "rget s ''predicate'' = JObj p"
    "st0 = (new_vstate stmt)\<lparr>st_pred := p\<rparr>"
    by (auto simp: new_vstate_def)
  have "stmt_pred stmt = p" using s(1,4) by (simp add: stmt_pred_def)
  with r s(5) have "run_checks R ((new_vstate stmt)\<lparr>st_pred := stmt_pred stmt\<rparr>) o0 = Inr (st, o1)" by simp
  from run_checks_valid [OF this c s(1-4)] have "valid_run R stmt st" .
  with c o show ?thesis by (intro that) auto
qed

lemma verify_valid:
  assumes "verify R pubs stmt b = Inr out" "codes out = []"
  obtains st o1 where "valid_run R stmt st" "codes o1 = []" "out = check_gate2_tiers R pubs st o1"
    "verify_state R pubs stmt = Inr out" "\<forall>bs. b = Some bs \<longrightarrow> statement_strict_fault bs = Inr False"
proof -
  have v: "verify_state R pubs stmt = Inr out" "\<forall>bs. b = Some bs \<longrightarrow> statement_strict_fault bs = Inr False"
    using assms by (auto simp: verify_def rbind_eq_Inr split: option.splits if_splits)
  from verify_state_valid [OF v(1) assms(2)] v that show ?thesis by blast
qed

end
