(* ===== verification/Growth.thy ===== *)
theory Growth
  imports Verifier_Laws
begin

section \<open>What every check keeps\<close>

text \<open>
  The contract all the checks of the verifier share: a check appends failure codes to the
  outcome, none of them twice, and touches nothing else of it.  The locale \<open>check\<close> states
  the contract and what follows from it; the checks of GATE 0, the records check, GATE 1 and
  the whole sequence between the statement type and the tiers are its instances.
\<close>

locale check =
  fixes run :: "vstate \<Rightarrow> outcome \<Rightarrow> (vstate \<times> outcome) res"
  assumes run_grows: "run st out = Inr (st', out') \<Longrightarrow> grows out out'"
begin

lemma primary_kept: "run st out = Inr (st', out') \<Longrightarrow> codes out \<noteq> [] \<Longrightarrow> hd (codes out') = hd (codes out)"
  by (drule run_grows) (auto simp: grows_def)

lemma codes_distinct: "run st out = Inr (st', out') \<Longrightarrow> distinct (codes out) \<Longrightarrow> distinct (codes out')"
  by (drule run_grows) (auto simp: grows_def)

lemma answers_nothing:
  "run st out = Inr (st', out') \<Longrightarrow> out_result out' = out_result out \<and>
     tiers_with_key out' = tiers_with_key out \<and> tiers_without_key out' = tiers_without_key out"
  by (drule run_grows) (auto simp: grows_def)

end

subsection \<open>Growth of each operation\<close>

lemma grows_rbind:
  assumes "rbind m f = Inr y" "\<And>x. m = Inr x \<Longrightarrow> grows o1 (g x)" "\<And>x. m = Inr x \<Longrightarrow> f x = Inr y \<Longrightarrow> grows (g x) o2"
  shows "grows o1 o2"
  using assms by (cases m) (auto intro: grows_trans)

lemma statement_type_grows: "check_statement_type st out = (b, st', out') \<Longrightarrow> grows out out'"
  by (auto simp: check_statement_type_def Let_def split: json.splits intro!: grow_intros)

lemma issued_at_grows [grow_intros]: "grows o1 o2 \<Longrightarrow> grows o1 (check_issued_at v o2)"
  by (auto simp: check_issued_at_def intro!: grow_intros)

lemma gate0_grows: "check_gate0_wellformed st out = Inr (st', out') \<Longrightarrow> grows out out'"
  by (auto simp: check_gate0_wellformed_def Let_def rbind_eq_Inr intro!: grow_intros)

lemma catch_jcs_error_cases: "catch_jcs_error r v = Inr x \<Longrightarrow> x = v \<or> r = Inr x"
  by (metis catch_jcs_error_Inr)

lemma corpus_digest_grows: "corpus_digest R out co m = Inr out' \<Longrightarrow> grows out out'"
  unfolding corpus_digest_def by (drule catch_jcs_error_cases) (auto simp: rbind_eq_Inr intro!: grow_intros)

lemma corpus_dupes_grows: "corpus_dupes out cl = Inr out' \<Longrightarrow> grows out out'"
proof -
  assume "corpus_dupes out cl = Inr out'"
  then obtain seen where f: "rfold (\<lambda>(seen, out) aid. rbind (need_hash aid) (\<lambda>_.
      Inr (aid # seen, add_if (jin aid seen) ''manifest-duplicate-attack'' out))) ([], out) (class_ids cl) = Inr (seen, out')"
    by (auto simp: corpus_dupes_def rbind_eq_Inr)
  show ?thesis
    by (rule rfold_grows [OF f, unfolded snd_conv]) (auto simp: rbind_eq_Inr intro!: grow_intros)
qed

lemma corpus_grows: "check_corpus R st out = Inr (st', out') \<Longrightarrow> grows out out'"
proof (cases "rget (st_env st) ''corpus''")
  case (JObj c)
  let ?m = "rget c ''manifest''" and ?cl = "rget (the_obj (rget c ''manifest'')) ''classes''"
  let ?o0 = "add_if (?m = JNull) ''environment-incomplete'' out"
  let ?o1 = "case ?m of JObj m \<Rightarrow> rbind (corpus_digest R ?o0 (JObj c) m) (\<lambda>out. Inr (corpus_declares_attack out ?cl)) | _ \<Rightarrow> Inr ?o0"
  let ?o2 = "\<lambda>o1. case ?cl of JObj cl \<Rightarrow> corpus_dupes o1 cl | _ \<Rightarrow> Inr o1"
  assume a: "check_corpus R st out = Inr (st', out')"
  note def = check_corpus_def Let_def JObj json.case
  obtain o1 where o1: "?o1 = Inr o1" using a unfolding def by (rule rbind_InrE)
  obtain o2 where o2: "?o2 o1 = Inr o2" using a unfolding def o1 rbind.simps by (rule rbind_InrE)
  from o1 have "grows ?o0 o1"
    by (auto simp: rbind_eq_Inr corpus_declares_attack_def intro!: grow_intros dest: corpus_digest_grows split: json.splits)
  moreover from o2 have "grows o1 o2" by (auto intro: grow_intros dest: corpus_dupes_grows split: json.splits)
  moreover have "grows o2 out'"
    using a unfolding def o1 rbind.simps o2 by (auto simp: rbind_eq_Inr intro!: grow_intros split: json.splits if_splits)
  ultimately show ?thesis using grows_add_if [OF grows_refl] by (blast intro: grows_trans)
qed (auto simp: check_corpus_def intro: grow_intros)

lemma coverage_rows_grow: "coverage_check_rows st out cl assessed = Inr out' \<Longrightarrow> grows out out'"
proof -
  assume "coverage_check_rows st out cl assessed = Inr out'"
  then obtain index ids o1 where f: "rfold (coverage_row index assessed) ([], out) (st_rows st) = Inr (ids, o1)"
    and o: "out' = add_if (list_ex (\<lambda>i. \<not> (jin i ids \<and> jget index i \<noteq> None)) (expected_attack_ids cl assessed)) ''coverage-incomplete'' o1"
    by (auto simp: coverage_check_rows_def rbind_eq_Inr)
  from rfold_grows [OF f, unfolded snd_conv] coverage_row_grows have "grows out o1" by blast
  then show ?thesis unfolding o by (rule grows_add_if)
qed

lemma coverage_grows: "check_coverage st out = Inr (st', out') \<Longrightarrow> grows out out'"
  by (auto simp: check_coverage_def Let_def rbind_eq_Inr intro!: grow_intros dest!: coverage_rows_grow
      intro: grows_trans [OF grows_add_if [OF grows_refl]] split: json.splits option.splits)

lemma per_row_grows [grow_intros]: "grows o1 o2 \<Longrightarrow> grows o1 (check_per_row_statements st o2)"
  by (auto simp: check_per_row_statements_def Let_def intro!: grow_intros split: option.splits)

lemma binding_inputs_grow [grow_intros]: "grows o1 o2 \<Longrightarrow> grows o1 (check_substrate_binding_inputs st o2)"
  by (auto simp: check_substrate_binding_inputs_def Let_def intro!: grow_intros)

lemma fail_closed_grows: "check_fail_closed_rows st out = (st', out') \<Longrightarrow> grows out out'"
  by (auto simp: check_fail_closed_rows_def intro!: grow_intros)

lemma batch_root_grows: "records_batch_root R out p vs = Inr out' \<Longrightarrow> grows out out'"
  by (auto simp: records_batch_root_def Let_def rbind_eq_Inr intro!: grow_intros split: if_splits)

lemma duplicates_grow: "records_duplicates R out vs = Inr out' \<Longrightarrow> grows out out'"
proof -
  assume "records_duplicates R out vs = Inr out'"
  then obtain seen where f: "rfold (duplicate_step R) ([], out) vs = Inr (seen, out')"
    by (auto simp: records_duplicates_def rbind_eq_Inr)
  from rfold_grows [OF f, unfolded snd_conv] duplicate_step_grows show ?thesis by blast
qed

lemma records_grow: "check_records R st out = Inr (st', out') \<Longrightarrow> grows out out'"
proof -
  let ?recs = "the_arr (rget (st_pred st) ''observationRecords'')"
  assume a: "check_records R st out = Inr (st', out')"
  show ?thesis
  proof (cases "?recs = []")
    case True
    with a show ?thesis by (auto simp: check_records_def Let_def intro!: grow_intros)
  next
    case False
    let ?o1 = "\<lambda>vs. add_if (list_ex (\<lambda>v. signature_count v = 0) vs) ''record-signatures-empty'' out"
    from a False obtain vs o2 where "(if list_ex decode_err vs then Inr (add ''record-undecodable'' (?o1 vs))
        else records_batch_root R (?o1 vs) (st_pred st) vs) = Inr o2" and o3: "records_duplicates R o2 vs = Inr out'"
      by (auto simp: check_records_def Let_def rbind_eq_Inr)
    then have "grows (?o1 vs) o2"
      by (cases "list_ex decode_err vs") (auto intro!: grow_intros dest: batch_root_grows)
    with duplicates_grow [OF o3] grows_add_if [OF grows_refl] show ?thesis by (blast intro: grows_trans)
  qed
qed

subsection \<open>Growth of GATE 1 and of the commitments\<close>

lemma grows_foldl:
  assumes "\<And>o1 x. grows o1 (f o1 x)"
  shows "grows out (foldl f out xs)"
  by (induction xs arbitrary: out) (auto intro: grows_refl grows_trans assms)

lemma check_payload_grows: "grows out (gate1_check_payload d out rv)"
  by (auto simp: gate1_check_payload_def Let_def intro!: grow_intros split: option.splits)

lemma resolve_refs_grows: "gate1_resolve_refs st out refs = (rvs, out') \<Longrightarrow> grows out out'"
  by (auto simp: gate1_resolve_refs_def Let_def intro!: grows_foldl grow_intros)

lemma cover_code_grows [grow_intros]: "grows o1 o2 \<Longrightarrow> grows o1 (cover_code cn u n found good o2)"
  by (auto simp: cover_code_def intro!: grow_intros)

lemma caught_step_grows: "caught_step acc rv = Inr acc' \<Longrightarrow> grows (snd acc) (snd acc')"
  by (auto simp: caught_step_def Let_def rbind_eq_Inr intro!: grow_intros split: prod.splits if_splits)

lemma cover_caught_grows: "gate1_cover_caught out usable cn = Inr (cov, out') \<Longrightarrow> grows out out'"
proof -
  assume a: "gate1_cover_caught out usable cn = Inr (cov, out')"
  let ?i = "of_kind ''interception'' usable"
  show ?thesis
  proof (cases "?i = []")
    case True
    with a show ?thesis by (auto simp: gate1_cover_caught_def Let_def intro!: grow_intros)
  next
    case False
    with a have f: "rfold caught_step ([], out) ?i = Inr (cov, out')" by (simp add: gate1_cover_caught_def Let_def)
    from rfold_grows [OF f, unfolded snd_conv] caught_step_grows show ?thesis by blast
  qed
qed

lemma cover_clean_grows: "gate1_cover_clean st out usable cn pinned = Inr (cov, out') \<Longrightarrow> grows out out'"
  by (auto simp: gate1_cover_clean_def gate1_clean_arm_def gate1_clean_seal_def Let_def rbind_eq_Inr intro!: grow_intros)

lemma class_match_grows: "gate1_class_match st out r rvs pinned = Inr (cov, out') \<Longrightarrow> grows out out'"
  by (auto simp: gate1_class_match_def gate1_cover_reconstructed_def Let_def rbind_eq_Inr
      intro!: grow_intros dest: cover_caught_grows cover_clean_grows split: if_splits)

lemma method_cap_grows: "gate1_method_cap out r cov = Inr out' \<Longrightarrow> grows out out'"
  by (auto simp: gate1_method_cap_def Let_def rbind_eq_Inr intro!: grow_intros split: if_splits option.splits)

lemma gate1_row_grows: "gate1_row acc row = Inr acc' \<Longrightarrow> grows (snd acc) (snd acc')"
proof -
  obtain st out i r where e: "acc = (st, out)" "row = (i, r)" by (metis surj_pair)
  assume "gate1_row acc row = Inr acc'"
  note a = this [unfolded e gate1_row_def prod.case]
  consider (skip) "\<not> is_substrate r \<or> i \<in> set (st_fail_closed_rows st) \<or> \<not> st_has_records st"
    | (refs) ref refs where "is_substrate r" "i \<notin> set (st_fail_closed_rows st)" "st_has_records st"
        "rget r ''observationRefs'' = JArr (ref # refs)"
    | (none) "is_substrate r" "i \<notin> set (st_fail_closed_rows st)" "st_has_records st"
        "\<nexists>ref refs. rget r ''observationRefs'' = JArr (ref # refs)" by blast
  then show ?thesis
  proof cases
    case skip
    with a show ?thesis by (auto simp: e intro!: grow_intros split: if_splits)
  next
    case none
    with a have "acc' = (st, add_if (in_opt (rget r ''containmentObserved'') (st_caught st)) ''caught-row-uncovered'' (add ''refs-empty'' out))"
      by (auto split: json.splits list.splits)
    then show ?thesis by (auto simp: e intro!: grow_intros)
  next
    case refs
    obtain vs o1 where v: "gate1_resolve_refs st out (ref # refs) = (vs, o1)" by fastforce
    from resolve_refs_grows [OF v] have g1: "grows out o1" .
    show ?thesis
    proof (cases vs)
      case None
      with a refs v g1 show ?thesis by (auto simp: e)
    next
      case (Some rvs)
      let ?o2 = "foldl (gate1_check_payload (st_derived_binding st)) o1 rvs"
      from a refs v Some obtain cov o3 o4 where c: "gate1_class_match st ?o2 r rvs (st_pinned_posture st) = Inr (cov, o3)"
        "gate1_method_cap o3 r cov = Inr o4" "snd acc' = o4"
        by (auto simp: Let_def rbind_eq_Inr)
      have "grows o1 ?o2" by (rule grows_foldl) (rule check_payload_grows)
      with g1 class_match_grows [OF c(1)] method_cap_grows [OF c(2)] c(3) show ?thesis
        by (auto simp: e intro: grows_trans)
    qed
  qed
qed

lemma gate1_grows: "check_gate1_coverage st out = Inr (st', out') \<Longrightarrow> grows out out'"
proof -
  let ?s = "st\<lparr>st_pinned_posture := digest_of (rget (st_env st) ''networkPosture''), st_row_covering := (\<lambda>_. None)\<rparr>"
  let ?o = "if st_has_records st then check_refs_in_range ?s out else out"
  assume "check_gate1_coverage st out = Inr (st', out')"
  then have f: "rfold gate1_row (?s, ?o) (enumerate 0 (st_rows st)) = Inr (st', out')"
    by (cases "st_has_records st") (simp_all add: check_gate1_coverage_def Let_def)
  have "grows out ?o" by (auto simp: check_refs_in_range_def intro!: grow_intros)
  moreover have "grows ?o out'" using rfold_grows [OF f, unfolded snd_conv] gate1_row_grows by blast
  ultimately show ?thesis by (rule grows_trans)
qed

lemma opt_grows: "(case c of None \<Rightarrow> out | Some x \<Rightarrow> add x out) = out' \<Longrightarrow> grows out out'"
  by (auto intro!: grow_intros split: option.splits)

lemma carried_grows: "commit_carried_cover st out = Inr out' \<Longrightarrow> grows out out'"
  unfolding commit_carried_cover_def
  by (rule rfold_invariant [where P = "grows out"])
    (auto simp: carried_step_def rbind_eq_Inr intro!: grow_intros intro: grows_trans [OF _ opt_grows] split: if_splits)

lemma commitments_grow: "check_commitments R st out = Inr out' \<Longrightarrow> grows out out'"
proof -
  let ?o2 = "commit_interception_orphaned st (commit_clean_row_contradicted st out)"
  assume a: "check_commitments R st out = Inr out'"
  have g2: "grows out ?o2"
    by (auto simp: commit_interception_orphaned_def commit_clean_row_contradicted_def intro!: grow_intros split: option.splits)
  from a obtain o3 where o3: "commit_attribution st ?o2 = Inr o3"
    by (auto simp: check_commitments_def Let_def rbind_eq_Inr)
  then have g3: "grows ?o2 o3" by (auto simp: commit_attribution_def rbind_eq_Inr intro: opt_grows)
  show ?thesis
  proof (cases "st_has_substrate st \<and> st_has_records st")
    case False
    with a o3 have "out' = o3" by (auto simp: check_commitments_def Let_def)
    with g2 g3 show ?thesis by (auto intro: grows_trans)
  next
    case True
    with a o3 obtain o4 o5 o6 o7 where s: "commit_observed_set R st o3 = Inr o4"
      "commit_sealed_present st o4 = Inr o5" "commit_carried_cover st o5 = Inr o6"
      "commit_seal_attacks st o6 = Inr o7" "commit_assessed_subset st o7 = Inr out'"
      by (auto simp: check_commitments_def Let_def rbind_eq_Inr)
    have "grows o3 o4" using s(1)
      by (auto simp: commit_observed_set_def Let_def rbind_eq_Inr intro!: grow_intros split: if_splits)
    moreover have "grows o4 o5" using s(2) by (auto simp: commit_sealed_present_def rbind_eq_Inr intro!: grow_intros)
    moreover have "grows o6 o7" using s(4)
      by (auto simp: commit_seal_attacks_def Let_def rbind_eq_Inr intro!: grow_intros split: option.splits)
    moreover have "grows o7 out'" using s(5)
      by (auto simp: commit_assessed_subset_def rbind_eq_Inr intro!: grow_intros split: json.splits option.splits)
    ultimately show ?thesis using g2 g3 carried_grows [OF s(3)] by (blast intro: grows_trans)
  qed
qed

lemma recompute_grows: "check_result_recompute st out = Inr out' \<Longrightarrow> grows out out'"
  by (auto simp: check_result_recompute_def rbind_eq_Inr intro!: grow_intros split: option.splits if_splits)

subsection \<open>The checks keep the contract\<close>

interpretation gate0: check check_gate0_wellformed
  by unfold_locales (rule gate0_grows)

interpretation vocabulary: check "check_vocabulary R" for R
  by unfold_locales (rule vocabulary_grows)

interpretation corpus: check "check_corpus R" for R
  by unfold_locales (rule corpus_grows)

interpretation coverage: check check_coverage
  by unfold_locales (rule coverage_grows)

interpretation records: check "check_records R" for R
  by unfold_locales (rule records_grow)

interpretation gate1: check check_gate1_coverage
  by unfold_locales (rule gate1_grows)

text \<open>Every check of the sequence, from the one after GATE 0 to the recompute.\<close>

lemma run_checks_grow_from:
  assumes "run_checks R st out = Inr (st', out')" "check_gate0_wellformed st out = Inr (s1, o1)"
  shows "grows o1 out'"
proof -
  from run_checks_stages [OF assms(1)] assms(2) obtain s2 o2 s3 o3 s4 o4 s5 o5 s6 o6 s7 o8 o9 where
    h: "check_vocabulary R s1 o1 = Inr (s2, o2)" "check_corpus R s2 o2 = Inr (s3, o3)"
    "check_coverage (check_rows_setup s3) (check_subject_cardinality (check_rows_setup s3) o3) = Inr (s4, o4)"
    "check_fail_closed_rows s4 (check_substrate_binding_inputs s4 (check_per_row_statements s4 o4)) = (s5, o5)"
    "check_records R s5 o5 = Inr (s6, o6)" "check_gate1_coverage s7 o6 = Inr (st', o8)"
    "check_commitments R st' o8 = Inr o9" "check_result_recompute st' o9 = Inr out'" by fastforce
  have a: "grows o1 o3" by (rule grows_trans [OF vocabulary_grows [OF h(1)] corpus_grows [OF h(2)]])
  have b: "grows o3 o4"
    by (rule grows_trans [OF _ coverage_grows [OF h(3)]]) (simp add: check_subject_cardinality_def grow_intros)
  have c: "grows o4 o5" by (rule grows_trans [OF _ fail_closed_grows [OF h(4)]]) (intro grow_intros)
  have d: "grows o5 o8" by (rule grows_trans [OF records_grow [OF h(5)] gate1_grows [OF h(6)]])
  have e: "grows o8 out'" by (rule grows_trans [OF commitments_grow [OF h(7)] recompute_grows [OF h(8)]])
  show ?thesis by (rule grows_trans [OF a grows_trans [OF b grows_trans [OF c grows_trans [OF d e]]]])
qed

lemma run_checks_grow: "run_checks R st out = Inr (st', out') \<Longrightarrow> grows out out'"
  using run_checks_stages run_checks_grow_from gate0_grows by (blast intro: grows_trans)

interpretation checks: check "run_checks R" for R
  by unfold_locales (rule run_checks_grow)

subsection \<open>The shape of an outcome\<close>

text \<open>An outcome that answers nothing and repeats no code.\<close>

definition silent :: "outcome \<Rightarrow> bool" where
  "silent out \<longleftrightarrow> distinct (codes out) \<and> out_result out = JNull \<and> tiers_with_key out = None \<and> tiers_without_key out = None"

lemma silent_grows: "silent o1 \<Longrightarrow> grows o1 o2 \<Longrightarrow> silent o2"
  by (auto simp: silent_def grows_def)

lemma silent_new: "silent new_outcome"
  by (simp add: silent_def new_outcome_def)

lemma verify_cases:
  assumes "verify R pubs stmt b = Inr out"
  shows "codes out = [] \<or> silent out"
proof -
  have v: "codes out = [] \<or> silent out" if "verify_state R pubs stmt = Inr out"
  proof -
    obtain stop st o1 where t: "check_statement_type (new_vstate stmt) new_outcome = (stop, st, o1)"
      using prod_cases3 by blast
    from statement_type_grows [OF t] have s1: "silent o1" by (rule silent_grows [OF silent_new])
    show ?thesis
    proof (cases stop)
      case False
      with that t obtain st' o2 where r: "run_checks R st o1 = Inr (st', o2)"
        and o: "(if codes o2 \<noteq> [] then Inr o2 else Inr (check_gate2_tiers R pubs st' o2)) = (Inr out :: outcome res)"
        by (auto simp: verify_state_def elim!: rbind_InrE)
      from silent_grows [OF s1 run_checks_grow [OF r]] o show ?thesis
        by (cases "codes o2 = []") (auto simp: check_gate2_tiers_def)
    qed (use that t s1 in \<open>simp add: verify_state_def\<close>)
  qed
  show ?thesis
  proof (cases b)
    case None
    with assms v show ?thesis by (simp add: verify_def)
  next
    case (Some bs)
    with assms obtain fault where f: "statement_strict_fault bs = Inr fault" by (auto simp: verify_def elim: rbind_InrE)
    have "silent (add ''statement-malformed'' new_outcome)"
      by (rule silent_grows [OF silent_new]) (intro grow_intros)
    with assms Some f v show ?thesis by (cases fault) (auto simp: verify_def)
  qed
qed

end
