(* ===== verification/Verdict_Laws.thy ===== *)
theory Verdict_Laws
  imports Verifier_Laws
begin

section \<open>The verdict at the level of the statement\<close>

text \<open>
  Consequences of \<open>valid_run\<close> stated over the statement's own members: which records a row
  rests on, what the batch root commits to, and what the two tier columns say.
\<close>

subsection \<open>Records\<close>

text \<open>The encoding a record's signatures are over.\<close>

definition record_pae :: "json \<Rightarrow> bytes option" where
  "record_pae rec =
     (case (member rec ''payloadType'', member rec ''payload'') of
        (JStr t, JStr s) \<Rightarrow>
          (case strict_b64decode s of
             Inl _ \<Rightarrow> None
           | Inr b \<Rightarrow> (case pae t b of Inl _ \<Rightarrow> None | Inr p \<Rightarrow> Some p))
      | _ \<Rightarrow> None)"

definition batch_paes :: "json \<Rightarrow> bytes list" where
  "batch_paes stmt = map (\<lambda>rec. the (record_pae rec)) (stmt_records stmt)"

lemma view_record_pae: "new_record_view i rec = Inr rv \<Longrightarrow> pae_bytes rv = Some p \<Longrightarrow> record_pae rec = Some p"
  by (erule (1) view_pae_Some) (simp add: record_pae_def)

lemma valid_batch:
  assumes "valid_run R stmt st" "stmt_records stmt \<noteq> []"
  shows "list_all (\<lambda>rec. record_pae rec \<noteq> None \<and> the_arr (member rec ''signatures'') \<noteq> []) (stmt_records stmt) \<and>
    distinct (batch_paes stmt) \<and>
    (\<exists>h. merkle_root_hex (rt_sha R) (batch_paes stmt) = Inr h \<and> rget (stmt_pred stmt) ''batchRoot'' = JStr h)"
proof -
  let ?vs = "st_views st" and ?recs = "stmt_records stmt"
  from assms(1) have b: "build_views ?recs = Inr ?vs" and f: "record_facts R stmt ?vs"
    by (auto simp: valid_run_def run_state_def)
  from f assms(2) have s: "list_all (\<lambda>v. 0 < signature_count v \<and> \<not> decode_err v) ?vs"
    and p: "list_all (\<lambda>v. pae_bytes v \<noteq> None) ?vs" and d: "distinct (map pae_bytes ?vs)"
    and r: "\<exists>h. merkle_root_hex (rt_sha R) (map (\<lambda>v. the (pae_bytes v)) ?vs) = Inr h \<and>
            rget (stmt_pred stmt) ''batchRoot'' = JStr h"
    unfolding record_facts_def by blast+
  note n = build_views_nth [OF b]
  have e: "record_pae (?recs ! i) = pae_bytes (?vs ! i) \<and> pae_bytes (?vs ! i) \<noteq> None \<and>
      the_arr (member (?recs ! i) ''signatures'') \<noteq> []" if i: "i < length ?recs" for i
  proof -
    from n i have v: "new_record_view i (?recs ! i) = Inr (?vs ! i)" "length ?vs = length ?recs" by blast+
    with p s i have "pae_bytes (?vs ! i) \<noteq> None" "0 < signature_count (?vs ! i)" by (auto simp: list_all_length)
    with view_record_pae [OF v(1)] new_record_view_fields [OF v(1)] show ?thesis by auto
  qed
  then have m: "map record_pae ?recs = map pae_bytes ?vs" using n by (auto intro: nth_equalityI)
  then have bp: "batch_paes stmt = map (\<lambda>v. the (pae_bytes v)) ?vs"
    unfolding batch_paes_def by (metis (no_types, lifting) comp_apply list.map_comp map_eq_conv)
  have "inj_on the (set (map pae_bytes ?vs))"
  proof (rule inj_onI)
    fix x y
    assume "x \<in> set (map pae_bytes ?vs)" "y \<in> set (map pae_bytes ?vs)" "the x = the y"
    with p show "x = y" by (intro option.expand) (auto simp: list_all_iff)
  qed
  with d have "distinct (map the (map pae_bytes ?vs))" by (simp only: distinct_map)
  then have "distinct (map (\<lambda>v. the (pae_bytes v)) ?vs)" by (simp add: comp_def)
  with e r show ?thesis unfolding bp by (auto simp: list_all_length)
qed

subsection \<open>The evidence of a row\<close>

text \<open>Record \<open>i\<close> of the statement, decoded, parsed and bound to the run \<open>d\<close>.\<close>

definition bound_record :: "json \<Rightarrow> ustr \<Rightarrow> nat \<Rightarrow> record_view \<Rightarrow> bool" where
  "bound_record stmt d i rv \<longleftrightarrow>
     i < length (stmt_records stmt) \<and> new_record_view i (stmt_records stmt ! i) = Inr rv \<and>
     (\<exists>b p. payload_bytes rv = Some b \<and> strict_payload_parse b = Inr p \<and> payload rv = Some p \<and>
        rget p ''aeeRunBinding'' = JStr d)"

definition row_evidence :: "json \<Rightarrow> dict \<Rightarrow> record_view list \<Rightarrow> record_view list \<Rightarrow> bool" where
  "row_evidence stmt r rvs cov \<longleftrightarrow> cov \<noteq> [] \<and> set cov \<subseteq> set rvs \<and>
     (if rget r ''method'' = str ''reconstructed'' then
        list_all (\<lambda>rv. kind rv = str ''examination'' \<and> examination_ok rv) cov
      else if jin (row_label r) (stmt_caught stmt) then
        list_all (\<lambda>rv. kind rv = str ''interception'' \<and> commitment_array_ok (pget rv ''aeePayloadCommitment'') = Inr True) cov
      else
        list_ex (\<lambda>rv. kind rv = str ''arming'' \<and>
           arming_ok rv (stmt_posture stmt) (rget (stmt_pred stmt) ''issuedAt'') (stmt_declared stmt) = Inr True) cov \<and>
        list_ex (\<lambda>rv. kind rv = str ''sealed'' \<and>
           sealed_ok rv (stmt_posture stmt) (posture_claims (usable_views rvs)) (stmt_declared stmt) = Inr True) cov)"

text \<open>Every index of the row resolves, and it resolves to the record of that number.\<close>

lemma resolved_indices:
  assumes "list_all (\<lambda>ref. \<not> ref_malformed ref \<and> \<not> ref_beyond (length (st_views st)) ref) refs"
  obtains ixs where "refs = map (\<lambda>i. JInt (int i)) ixs" "list_all (\<lambda>i. i < length (st_views st)) ixs"
    "resolved st refs = map (\<lambda>i. st_views st ! i) ixs"
proof -
  let ?ix = "\<lambda>ref. case as_int ref of None \<Rightarrow> 0 | Some i \<Rightarrow> nat i"
  have e: "ref = JInt (int (?ix ref)) \<and> ?ix ref < length (st_views st) \<and> resolve_ref (st_views st) ref = [st_views st ! ?ix ref]"
    if "ref \<in> set refs" for ref
    using assms that
    by (force simp: list_all_iff ref_malformed_def ref_beyond_def resolve_ref_def split: option.splits)
  have "refs = map (\<lambda>i. JInt (int i)) (map ?ix refs)" using e by (simp add: map_idI)
  moreover have "list_all (\<lambda>i. i < length (st_views st)) (map ?ix refs)" using e by (simp add: list_all_iff)
  moreover have "resolved st refs = map (\<lambda>i. st_views st ! i) (map ?ix refs)"
  proof -
    have "concat (map (resolve_ref (st_views st)) rs) = map (\<lambda>ref. st_views st ! ?ix ref) rs" if "set rs \<subseteq> set refs" for rs
      using that e by (induction rs) auto
    then show ?thesis by (simp add: resolved_def comp_def)
  qed
  ultimately show ?thesis by (rule that)
qed

lemma valid_row_evidence:
  assumes "valid_run R stmt st" "i < length (stmt_rows stmt)" "is_substrate (stmt_rows stmt ! i)"
    and d: "derive_binding (rt_sha R) stmt (stmt_env stmt) = Inr (Some d)"
  shows "\<exists>ixs rvs cov. st_row_covering st i = Some cov \<and>
    rget (stmt_rows stmt ! i) ''observationRefs'' = JArr (map (\<lambda>i. JInt (int i)) ixs) \<and>
    list_all2 (bound_record stmt d) ixs rvs \<and> row_evidence stmt (stmt_rows stmt ! i) rvs cov"
proof -
  let ?r = "stmt_rows stmt ! i"
  from assms(1) have rs: "run_state R stmt st" and g: "gate1_facts stmt st" by (simp_all add: valid_run_def)
  have sub: "stmt_substrate stmt"
    using assms(2,3) by (auto simp: stmt_substrate_def list_ex_iff)
  with rs d have db: "st_derived_binding st = Some d" by (simp add: run_state_def)
  from g assms(2,3) obtain cov where c: "st_row_covering st i = Some cov" "row_ok st ?r cov"
    unfolding gate1_facts_def by blast
  from c(2) obtain refs where refs: "rget ?r ''observationRefs'' = JArr refs"
    "list_all (\<lambda>ref. \<not> ref_malformed ref \<and> \<not> ref_beyond (length (st_views st)) ref) refs"
    "list_all (payload_valid (st_derived_binding st)) (resolved st refs)" "cover_ok st ?r (resolved st refs) cov"
    unfolding row_ok_def by blast
  from resolved_indices [OF refs(2)] obtain ixs where ix: "refs = map (\<lambda>i. JInt (int i)) ixs"
    "list_all (\<lambda>i. i < length (st_views st)) ixs" "resolved st refs = map (\<lambda>i. st_views st ! i) ixs" by blast
  note n = build_views_nth [of "stmt_records stmt" "st_views st"]
  have b: "bound_record stmt d j (st_views st ! j)" if "j \<in> set ixs" for j
  proof -
    have j: "j < length (st_views st)" using ix(2) that by (simp add: list_all_iff)
    with rs n have v: "new_record_view j (stmt_records stmt ! j) = Inr (st_views st ! j)" "j < length (stmt_records stmt)"
      by (auto simp: run_state_def)
    from refs(3) ix(3) that db obtain p where p: "payload (st_views st ! j) = Some p" "rget p ''aeeRunBinding'' = JStr d"
      by (auto simp: list_all_iff payload_valid_def opt_str_def)
    from payload_strict [OF v(1) p(1)] v p show ?thesis unfolding bound_record_def by blast
  qed
  have ev: "row_evidence stmt ?r (resolved st refs) cov"
  proof -
    have q: "st_caught st = Some (stmt_caught stmt)" "st_pinned_posture st = stmt_posture stmt"
      "st_issued_at st = rget (stmt_pred stmt) ''issuedAt''" "st_declared_attacks st = stmt_declared stmt"
      using rs by (simp_all add: run_state_def)
    show ?thesis
      using refs(4) unfolding cover_ok_def row_evidence_def q in_opt_def option.case list_all_iff list_ex_iff by blast
  qed
  have "list_all2 (bound_record stmt d) ixs (resolved st refs)"
    using b by (simp add: ix(3) list_all2_conv_all_nth)
  with c(1) refs(1) ix(1) ev show ?thesis by blast
qed

subsection \<open>Result and tiers\<close>

lemma valid_out:
  assumes "verify R pubs stmt b = Inr out" "codes out = []"
  obtains st where "valid_run R stmt st" "out_result out = rget (stmt_pred stmt) ''result''"
    "tiers_with_key out = Some (tiers R pubs (stmt_rows stmt) (st_row_covering st) True)"
    "tiers_without_key out = Some (tiers R pubs (stmt_rows stmt) (st_row_covering st) False)"
proof -
  from verify_valid [OF assms] obtain st o1 where v: "valid_run R stmt st" "out = check_gate2_tiers R pubs st o1" by blast
  then have "st_rows st = stmt_rows stmt" "st_result st = rget (stmt_pred stmt) ''result''"
    by (simp_all add: valid_run_def run_state_def)
  with v that show ?thesis by (simp add: check_gate2_tiers_def)
qed

lemma row_forces_fail_labels: "\<not> row_forces_fail ls ca r \<Longrightarrow> jin (row_label r) ls \<and> \<not> jin (row_label r) ca"
  by (simp add: row_forces_fail_def)

text \<open>The minimum over the three candidates, as a decision list.\<close>

lemma recompute_eq:
  "recompute rs ls ca cov =
     (if list_ex (row_forces_fail ls ca) rs then ''fail''
      else if truthy (rget (the_obj cov) ''outOfScope'') \<or> truthy (rget (the_obj cov) ''routedElsewhere'') then ''degraded''
      else if list_ex (row_indirect ls ca) rs then ''pass_indirect'' else ''pass'')"
  by (simp add: recompute_def Let_def result_rank_def)

lemma tiers_length [simp]: "length (tiers R pubs rs f k) = length rs"
  by (simp add: tiers_def)

lemma tiers_nth: "i < length rs \<Longrightarrow> tiers R pubs rs f k ! i = row_tier R pubs k f (i, rs ! i)"
  by (simp add: tiers_def nth_enumerate_eq)

lemma sig_verifies_key: "sig_verifies R pubs p sg \<Longrightarrow> \<exists>pub b. pub \<in> set pubs \<and> rt_sig R pub p b"
  by (auto simp: sig_verifies_def list_ex_iff split: json.splits sum.splits)

lemma record_verifies_key:
  assumes "new_record_view i rec = Inr rv" "record_verifies R pubs rv"
  shows "\<exists>p pub b. record_pae (raw rv) = Some p \<and> pub \<in> set pubs \<and> rt_sig R pub p b"
proof -
  from assms(2) obtain p sg where p: "pae_bytes rv = Some p" "sig_verifies R pubs p sg"
    by (auto simp: record_verifies_def list_ex_iff split: option.splits)
  from view_record_pae [OF assms(1) p(1)] new_record_view_fields [OF assms(1)] have "record_pae (raw rv) = Some p" by simp
  with sig_verifies_key [OF p(2)] show ?thesis by blast
qed

text \<open>The keys are used after every check has run, and only for the keyed column.\<close>

definition unkeyed :: "outcome \<Rightarrow> outcome" where
  "unkeyed out = out\<lparr>tiers_with_key := None\<rparr>"

lemma tiers_without_keys: "tiers R pubs rs f False = tiers R pubs' rs f False"
  by (simp add: tiers_def row_tier_def)

lemma gate2_unkeyed: "unkeyed (check_gate2_tiers R pubs st out) = unkeyed (check_gate2_tiers R pubs' st out)"
  using tiers_without_keys [of R pubs] by (simp add: unkeyed_def check_gate2_tiers_def)

lemma verify_state_unkeyed:
  assumes "verify_state R pubs stmt = Inr out"
  shows "\<exists>out'. verify_state R pubs' stmt = Inr out' \<and> unkeyed out' = unkeyed out"
proof -
  obtain stop st o1 where t: "check_statement_type (new_vstate stmt) new_outcome = (stop, st, o1)"
    using prod_cases3 by blast
  show ?thesis
  proof (cases stop)
    case False
    with assms t obtain st' o2 where r: "run_checks R st o1 = Inr (st', o2)"
      and o: "(if codes o2 \<noteq> [] then Inr o2 else Inr (check_gate2_tiers R pubs st' o2)) = (Inr out :: outcome res)"
      by (auto simp: verify_state_def elim!: rbind_InrE)
    have "verify_state R pubs' stmt = (if codes o2 \<noteq> [] then Inr o2 else Inr (check_gate2_tiers R pubs' st' o2))"
      using t r False by (simp add: verify_state_def)
    with o gate2_unkeyed show ?thesis by (cases "codes o2 = []") auto
  qed (use assms t in \<open>simp add: verify_state_def\<close>)
qed

lemma verify_unkeyed:
  assumes "verify R pubs stmt b = Inr out"
  shows "\<exists>out'. verify R pubs' stmt b = Inr out' \<and> unkeyed out' = unkeyed out"
proof (cases b)
  case None
  with assms verify_state_unkeyed show ?thesis by (simp add: verify_def)
next
  case (Some bs)
  with assms obtain fault where f: "statement_strict_fault bs = Inr fault" by (auto simp: verify_def elim: rbind_InrE)
  with assms Some verify_state_unkeyed show ?thesis by (cases fault) (simp_all add: verify_def)
qed

lemma unkeyed_eq:
  "unkeyed o1 = unkeyed o2 \<longleftrightarrow>
     codes o1 = codes o2 \<and> out_result o1 = out_result o2 \<and> tiers_without_key o1 = tiers_without_key o2"
  by (cases o1; cases o2) (simp add: unkeyed_def)

end
