(* ===== verification/Coverage_Laws.thy ===== *)
theory Coverage_Laws
  imports Verdict_Laws
begin

section \<open>What clean coverage means\<close>

text \<open>
  The account of \<open>_coverage_partition_ok\<close> read back as a partition of the manifest's
  classes, and the class index of \<open>_coverage_index\<close> as the membership of an attack in a
  class.
\<close>

subsection \<open>Dicts keyed by values\<close>

lemma jget_jset_JStr: "jget (jset d k v) (JStr s) = (if k = JStr s then Some v else jget d (JStr s))"
  by (induction d) auto

lemma count_account: "count_of (account cs) (JStr s) = count_list cs (JStr s)"
proof -
  have "count_of (foldl (\<lambda>acct c. jset acct c (count_of acct c + 1)) d cs) (JStr s) = count_of d (JStr s) + count_list cs (JStr s)" for d
    by (induction cs arbitrary: d) (auto simp: count_of_def jget_jset_JStr)
  from this [of "[]"] show ?thesis by (simp add: account_def count_of_def)
qed

lemma distinct_count: "(\<And>x. x \<in> set xs \<Longrightarrow> count_list xs x = 1) \<Longrightarrow> distinct xs"
proof (induction xs)
  case (Cons y ys)
  from Cons.prems [of y] have "y \<notin> set ys" by (simp add: count_list_0_iff)
  moreover have "count_list ys x = 1" if "x \<in> set ys" for x
    using Cons.prems [of x] that calculation by (auto split: if_splits)
  ultimately show ?case using Cons.IH by simp
qed simp

lemma distinct_by_sorted_wrt: "sorted_wrt (\<noteq>) xs \<Longrightarrow> distinct xs"
  by (induction xs) auto

lemma keys_jset: "map fst (jset d k v) = (if jin k (map fst d) then map fst d else map fst d @ [k])"
  by (induction d) auto

lemma account_has: "c \<in> set cs \<Longrightarrow> \<exists>k \<in> set (map fst (account cs)). k = c \<or> py_same c k"
proof -
  let ?has = "\<lambda>d. \<exists>k \<in> set (map fst d). k = c \<or> py_same c k"
  have "c \<in> set cs \<or> ?has d \<Longrightarrow> ?has (foldl (\<lambda>acct c. jset acct c (count_of acct c + 1)) d cs)"
    for d :: "(json \<times> nat) list"
  proof (induction cs arbitrary: d)
    case (Cons x xs)
    let ?d = "jset d x (count_of d x + 1)"
    have "c \<in> set xs \<or> ?has ?d"
      using Cons.prems unfolding keys_jset by (auto simp: jin_def list_ex_iff)
    from Cons.IH [OF this] show ?case by simp
  qed simp
  moreover assume "c \<in> set cs"
  ultimately show ?thesis by (simp add: account_def)
qed

text \<open>The three cells hold every class of the manifest once, and nothing else.\<close>

lemma partition_exact:
  assumes "coverage_partition_ok cl assessed oos routed = Inr True"
  defines "cells \<equiv> assessed @ key_values oos @ key_values routed"
  shows "distinct cells" "set cells = JStr ` fst ` set cl"
proof -
  from assms have a: "list_all (\<lambda>m. snd m = 1 \<and> jin (fst m) (key_values cl)) (account cells)"
    and c: "list_all (\<lambda>c. count_of (account cells) c = 1) (key_values cl)"
    by (auto simp: coverage_partition_ok_def Let_def rbind_eq_Inr)
  have k: "k \<in> JStr ` fst ` set cl" if "k \<in> set (map fst (account cells))" for k
    using a that by (force simp: list_all_iff key_values_def jin_def list_ex_iff)
  have sub: "set cells \<subseteq> JStr ` fst ` set cl"
  proof
    fix x assume "x \<in> set cells"
    from account_has [OF this] obtain k where "k \<in> JStr ` fst ` set cl" "k = x \<or> py_same x k" using k by blast
    then show "x \<in> JStr ` fst ` set cl" by (elim imageE) (auto simp del: image_image)
  qed
  have one: "count_list cells (JStr s) = 1" if "s \<in> fst ` set cl" for s
    using c that by (force simp: list_all_iff key_values_def count_account)
  then have "JStr ` fst ` set cl \<subseteq> set cells" by (metis count_notin image_subsetI zero_neq_one)
  with sub show s: "set cells = JStr ` fst ` set cl" by blast
  have "count_list cells x = 1" if "x \<in> set cells" for x using that one s by auto
  then show "distinct cells" by (rule distinct_count)
qed

subsection \<open>The attacks of the assessed classes\<close>

lemma jget_index:
  assumes "jget (concat (map (\<lambda>m. map (\<lambda>aid. (aid, fst m)) (the_arr (snd m))) cl)) (JStr a) = Some c"
  shows "\<exists>v. (c, v) \<in> set cl \<and> JStr a \<in> set (the_arr v)"
proof -
  have j: "jget d (JStr a) = Some c \<Longrightarrow> (JStr a, c) \<in> set d" for d
    by (induction d) (auto split: if_splits)
  from j [OF assms] show ?thesis by force
qed

lemma class_lookup_distinct: "distinct (map fst cl) \<Longrightarrow> (c, v) \<in> set cl \<Longrightarrow> class_lookup cl (JStr c) = v"
  by (simp add: class_lookup_def dget_def)

text \<open>The rows are the attacks of the assessed classes, each once.\<close>

lemma rows_exact:
  assumes cov: "coverage_facts stmt" and rows: "row_facts stmt" and cl: "classes_of (stmt_env stmt) = Some cl"
    and d: "distinct (map fst cl)" and ids: "list_all (\<lambda>r. rhas r ''attackId'') (stmt_rows stmt)"
  shows "distinct (row_attacks (stmt_rows stmt))"
    "set (row_attacks (stmt_rows stmt)) = set (expected_attack_ids cl (stmt_assessed stmt))"
proof -
  let ?as = "row_attacks (stmt_rows stmt)" and ?ex = "expected_attack_ids cl (stmt_assessed stmt)"
  from cov cl obtain index where ix: "attack_class_index cl = Inr index"
    "\<forall>r \<in> set (stmt_rows stmt). \<exists>cls. jget index (rget r ''attackId'') = Some cls \<and> jin (JStr cls) (stmt_assessed stmt)"
    and nr: "no_repeats ?as" and ex: "list_all (\<lambda>a. jin a ?as) ?ex"
    unfolding coverage_facts_def by blast
  from rows ids have strs: "\<forall>a \<in> set ?as. is_str a"
    by (auto simp: row_facts_def row_attacks_def list_all_iff row_typed_def row_members_def)
  have "sorted_wrt (\<noteq>) ?as"
    by (rule sorted_wrt_mono_rel [OF _ nr [unfolded no_repeats_def]]) (use strs in \<open>auto simp: is_str_iff\<close>)
  then show "distinct ?as" by (simp add: distinct_by_sorted_wrt)
  have "a \<in> set ?ex" if "a \<in> set ?as" for a
  proof -
    from that strs obtain s where s: "a = JStr s" by (auto simp: is_str_iff)
    from that ix(2) s obtain cls where c: "jget index (JStr s) = Some cls" "jin (JStr cls) (stmt_assessed stmt)"
      by (auto simp: row_attacks_def)
    from ix(1) have "index = concat (map (\<lambda>m. map (\<lambda>aid. (aid, fst m)) (the_arr (snd m))) cl)"
      by (auto simp: attack_class_index_def rbind_eq_Inr)
    with jget_index [of cl s cls] c(1) obtain v where v: "(cls, v) \<in> set cl" "JStr s \<in> set (the_arr v)" by auto
    from c(2) have "JStr cls \<in> set (stmt_assessed stmt)" by (simp add: jin_JStr)
    with v class_lookup_distinct [OF d v(1)] s show ?thesis by (auto simp: expected_attack_ids_def)
  qed
  moreover have "a \<in> set ?as" if "a \<in> set ?ex" for a
  proof -
    from ex that obtain b where b: "b \<in> set ?as" "py_same a b" by (auto simp: list_all_iff jin_def list_ex_iff)
    with strs show ?thesis by (auto simp: is_str_iff)
  qed
  ultimately show "set ?as = set ?ex" by blast
qed

end
