(* ===== verification/Registry.thy ===== *)
theory Registry
  imports Commitments
begin

section \<open>The code registry and the second-fault checks\<close>

text \<open>
  \<open>_CODE_REGISTRY\<close> of \<open>packaging/run_vectors.py\<close>, the stage each code belongs to, the
  fault families, and \<open>second_fault_absence\<close>: the suite's own recomputation of the derived
  commitments of a reject vector, which must hold unless a fault of that family is expected.
\<close>

subsection \<open>Iterating Python values\<close>

text \<open>\<open>for x in v\<close> for a decoded value, and the same after \<open>v or []\<close>.\<close>

definition py_iter :: "json \<Rightarrow> json list res" where
  "py_iter v =
     (case v of
        JArr xs \<Rightarrow> Inr xs
      | JStr s \<Rightarrow> Inr (map (\<lambda>c. JStr [c]) s)
      | JObj d \<Rightarrow> Inr (key_values d)
      | _ \<Rightarrow> Inl TypeError)"

definition iter_or_empty :: "json \<Rightarrow> json list res" where
  "iter_or_empty v = (if truthy v then py_iter v else Inr [])"

text \<open>\<open>set(v or [])\<close>.\<close>

definition set_or_empty :: "json \<Rightarrow> json list res" where
  "set_or_empty v = rbind (iter_or_empty v) (\<lambda>xs. rbind (need_hash_all xs) (\<lambda>_. Inr xs))"

text \<open>\<open>(v or {})\<close> where a method of \<open>dict\<close> is called on the result.\<close>

definition dict_or_empty :: "json \<Rightarrow> dict res" where
  "dict_or_empty v =
     (if truthy v then (case v of JObj d \<Rightarrow> Inr d | _ \<Rightarrow> Inl AttributeError) else Inr [])"

subsection \<open>The registry\<close>

datatype stage = Stage0 | Stage1 | StageRecompute | StageTier | StageSelf

datatype family = RootFault | VocabFault | CorpusFault | BindingFault

definition code_registry :: "(string \<times> stage \<times> family list) list" where
  "code_registry = [
     (''statement-malformed'', Stage0, []),
     (''statement-type-unsupported'', Stage0, []),
     (''predicate-type-unsupported'', Stage0, []),
     (''member-spelling'', Stage0, []),
     (''result-vocabulary'', Stage0, []),
     (''issued-at-missing'', Stage0, []),
     (''issued-at-malformed'', Stage0, []),
     (''environment-incomplete'', Stage0, [CorpusFault, BindingFault]),
     (''posture-vocabulary'', Stage0, [BindingFault]),
     (''vocabulary-missing'', Stage0, [VocabFault]),
     (''vocabulary-not-canonical'', Stage0, [VocabFault]),
     (''vocabulary-caught-not-subset'', Stage0, [VocabFault]),
     (''vocabulary-digest-mismatch'', Stage0, [VocabFault]),
     (''corpus-digest-mismatch'', Stage0, [CorpusFault]),
     (''manifest-duplicate-attack'', Stage0, [CorpusFault]),
     (''corpus-manifest-no-attacks'', Stage0, []),
     (''coverage-missing'', Stage0, []),
     (''coverage-incomplete'', Stage0, []),
     (''row-attack-unknown'', Stage0, []),
     (''malformed-missing-actual-layer'', Stage0, []),
     (''clean-row-layer-not-none'', Stage0, []),
     (''subject-cardinality'', Stage0, [BindingFault]),
     (''subject-sha256-missing'', Stage0, [BindingFault]),
     (''run-entropy-missing'', Stage0, [BindingFault]),
     (''digest-not-canonical'', Stage0, [BindingFault]),
     (''fail-closed-substrate-row'', Stage0, []),
     (''record-signatures-empty'', Stage0, []),
     (''record-undecodable'', Stage0, [RootFault]),
     (''batch-root-missing'', Stage0, [RootFault, BindingFault]),
     (''batch-root-mismatch'', Stage0, [RootFault]),
     (''batch-root-orphaned'', Stage0, [RootFault]),
     (''duplicate-record'', Stage0, [RootFault]),
     (''records-absent'', Stage1, [RootFault, BindingFault]),
     (''refs-empty'', Stage1, [RootFault, BindingFault]),
     (''ref-malformed'', Stage1, [RootFault, BindingFault]),
     (''ref-out-of-range'', Stage1, [RootFault, BindingFault]),
     (''payload-not-canonical'', Stage1, [BindingFault]),
     (''payload-not-ijson'', Stage1, [BindingFault]),
     (''payload-media-type'', Stage1, [BindingFault]),
     (''payload-missing-reserved'', Stage1, [BindingFault]),
     (''run-binding-mismatch'', Stage1, [BindingFault]),
     (''method-cap-exceeded'', Stage1, []),
     (''caught-row-uncovered'', Stage1, []),
     (''reconstructed-row-uncovered'', Stage1, []),
     (''clean-row-uncovered'', Stage1, []),
     (''arming-covers-nothing'', Stage1, []),
     (''sealed-covers-nothing'', Stage1, []),
     (''examination-covers-nothing'', Stage1, []),
     (''record-kind-unknown-covers-nothing'', Stage1, []),
     (''moat-drop-covers-nothing'', Stage1, []),
     (''uncommitted-observation-covers-nothing'', Stage1, []),
     (''result-recompute-mismatch'', StageRecompute, [])]"

definition code_stage :: "json \<Rightarrow> stage option" where
  "code_stage c =
     (case c of
        JStr s \<Rightarrow> map_of (map (\<lambda>e. (lit (fst e), fst (snd e))) code_registry) s
      | _ \<Rightarrow> None)"

text \<open>\<open>CODE_STAGE.get(code, "gate0")\<close>.\<close>

definition stage_of :: "json \<Rightarrow> stage" where
  "stage_of c = (case code_stage c of None \<Rightarrow> Stage0 | Some s \<Rightarrow> s)"

definition fault_family :: "family \<Rightarrow> string list" where
  "fault_family f = map fst (filter (\<lambda>e. f \<in> set (snd (snd e))) code_registry)"

definition expects :: "json list \<Rightarrow> family \<Rightarrow> bool" where
  "expects cs f \<longleftrightarrow> list_ex (\<lambda>c. jin (str c) cs) (fault_family f)"

subsection \<open>Second faults\<close>

definition sfa_root_recompute :: "runtime \<Rightarrow> json list \<Rightarrow> ustr \<Rightarrow> string list res" where
  "sfa_root_recompute R recs want =
     rbind (build_views recs) (\<lambda>vs.
       if list_all (\<lambda>v. pae_bytes v \<noteq> None) vs then
         rbind (merkle_root_hex (rt_sha R) (map (\<lambda>v. the (pae_bytes v)) vs)) (\<lambda>h.
           Inr (if h \<noteq> want then [''second-fault: batchRoot does not recompute''] else []))
       else Inr [''second-fault: undecodable record payload''])"

definition sfa_batch_root :: "runtime \<Rightarrow> dict \<Rightarrow> json list \<Rightarrow> string list res" where
  "sfa_batch_root R p cs =
     (if expects cs RootFault then Inr []
      else (case (rget p ''observationRecords'', rget p ''batchRoot'') of
              (JArr (r # rs), JStr want) \<Rightarrow> sfa_root_recompute R (r # rs) want
            | _ \<Rightarrow> Inr []))"

text \<open>The comparison of a carried digest with the one recomputed, and what a failure of the
  serializer becomes.\<close>

definition sfa_digest :: "bool \<Rightarrow> json \<Rightarrow> ustr res \<Rightarrow> string \<Rightarrow> string \<Rightarrow> string list res" where
  "sfa_digest encode_passes carried expect mismatch not_canonical =
     (case expect of
        Inr e \<Rightarrow> Inr (if carried \<noteq> JStr e then [mismatch] else [])
      | Inl JcsError \<Rightarrow> Inr [not_canonical]
      | Inl UnicodeEncodeError \<Rightarrow> if encode_passes then Inr [] else Inl UnicodeEncodeError
      | Inl e \<Rightarrow> Inl e)"

definition sfa_vocabulary :: "runtime \<Rightarrow> dict \<Rightarrow> json list \<Rightarrow> string list res" where
  "sfa_vocabulary R e cs =
     (if expects cs VocabFault then Inr []
      else (case rget e ''observationVocabulary'' of
              JObj voc \<Rightarrow>
                (case (rget voc ''labels'', rget voc ''caught'') of
                   (JArr l, JArr c) \<Rightarrow>
                     sfa_digest True (digest_of (JObj voc)) (vocab_digest (rt_sha R) c l)
                       ''second-fault: vocabulary digest mismatch'' ''second-fault: vocabulary not canonicalizable''
                 | _ \<Rightarrow> Inr [])
            | _ \<Rightarrow> Inr []))"

definition sfa_corpus :: "runtime \<Rightarrow> dict \<Rightarrow> json list \<Rightarrow> string list res" where
  "sfa_corpus R e cs =
     (if expects cs CorpusFault then Inr []
      else (case rget e ''corpus'' of
              JObj co \<Rightarrow>
                (case rget co ''manifest'' of
                   JObj m \<Rightarrow>
                     sfa_digest False (digest_of (JObj co))
                       (rbind (jcs_dumps (JObj m)) (\<lambda>b. Inr (sha256_hex (rt_sha R) b)))
                       ''second-fault: corpus digest mismatch'' ''second-fault: corpus manifest not canonicalizable''
                 | _ \<Rightarrow> Inr [])
            | _ \<Rightarrow> Inr []))"

fun none_on_jcs_error :: "'a res \<Rightarrow> 'a option res" where
  "none_on_jcs_error (Inr x) = Inr (Some x)"
| "none_on_jcs_error (Inl JcsError) = Inr None"
| "none_on_jcs_error (Inl e) = Inl e"

definition sfa_derived_binding :: "runtime \<Rightarrow> json \<Rightarrow> dict \<Rightarrow> ustr option res" where
  "sfa_derived_binding R stmt e =
     (case Option.bind (subject_sha stmt) (binding_preimage (rt_sha R) e) of
        None \<Rightarrow> Inr None
      | Some vals \<Rightarrow>
          none_on_jcs_error (rbind (jcs_dumps (JObj vals)) (\<lambda>b. Inr (sha256_hex (rt_sha R) b))))"

definition ref_unbound :: "record_view list \<Rightarrow> ustr \<Rightarrow> json \<Rightarrow> bool" where
  "ref_unbound vs d ref \<longleftrightarrow>
     list_ex (\<lambda>rv. payload rv \<noteq> None \<and> pget rv ''aeeRunBinding'' \<noteq> JStr d) (resolve_ref vs ref)"

definition sfa_binding_scan :: "dict list \<Rightarrow> record_view list \<Rightarrow> ustr \<Rightarrow> string list res" where
  "sfa_binding_scan rows vs d =
     rfold (\<lambda>fs r. rbind (iter_or_empty (rget r ''observationRefs'')) (\<lambda>refs.
       Inr (if list_ex (ref_unbound vs d) refs
            then fs @ [''second-fault: record binding != derived binding''] else fs))) [] rows"

definition sfa_binding :: "runtime \<Rightarrow> json \<Rightarrow> dict \<Rightarrow> dict \<Rightarrow> json list \<Rightarrow> string list res" where
  "sfa_binding R stmt p e cs =
     (let rows = map the_obj (filter is_obj (the_arr (rget p ''attackResults''))) in
      if expects cs BindingFault \<or> \<not> list_ex is_substrate rows then Inr []
      else rbind (sfa_derived_binding R stmt e) (\<lambda>derived.
        case (derived, rget p ''observationRecords'') of
          (Some d, JArr recs) \<Rightarrow> rbind (build_views recs) (\<lambda>vs. sfa_binding_scan rows vs d)
        | _ \<Rightarrow> Inr []))"

definition second_fault_absence :: "runtime \<Rightarrow> json \<Rightarrow> json list \<Rightarrow> string list res" where
  "second_fault_absence R stmt cs =
     (case stmt of
        JObj s \<Rightarrow>
          (case rget s ''predicate'' of
             JObj p \<Rightarrow>
               let e = the_obj (rget p ''observationEnvironment'') in
               rbind (sfa_batch_root R p cs) (\<lambda>f1.
               rbind (sfa_vocabulary R e cs) (\<lambda>f2.
               rbind (sfa_corpus R e cs) (\<lambda>f3.
               rbind (sfa_binding R stmt p e cs) (\<lambda>f4. Inr (f1 @ f2 @ f3 @ f4)))))
           | _ \<Rightarrow> Inr [])
      | _ \<Rightarrow> Inr [])"

end
