(* ===== verification/Examples.thy ===== *)
theory Examples
  imports Verifier_Laws Ijson_Laws
begin

section \<open>Concrete statements\<close>

text \<open>
  Two small statements on which the witnesses evaluate the verifier: \<open>artifact_stmt\<close>, whose
  only row is of artifact basis, and \<open>substrate_stmt\<close>, with a clean and a caught substrate
  row covered by an arming, a sealed and an interception record.  They run with a hash
  that returns 32 zero bytes, so every digest in them is the string of 64 zeros.
\<close>

definition toy :: runtime where
  "toy = \<lparr>rt_sha = (\<lambda>b. replicate 32 0), rt_sig = (\<lambda>pub p s. pub = [1]), rt_repr = (\<lambda>v. [])\<rparr>"

definition obj :: "(string \<times> json) list \<Rightarrow> json" where
  "obj ms = JObj (map (\<lambda>m. (lit (fst m), snd m)) ms)"

definition zeros :: json where
  "zeros = JStr (replicate 64 0x30)"

definition zero_digest :: json where
  "zero_digest = obj [(''sha256'', zeros)]"

definition digested :: "(string \<times> json) list \<Rightarrow> json" where
  "digested ms = obj ((''digest'', zero_digest) # ms)"

definition example_stmt :: "string \<Rightarrow> json list \<Rightarrow> json list \<Rightarrow> (string \<times> json) list \<Rightarrow> json" where
  "example_stmt res attacks rows recs =
     obj [(''_type'', str statement_type), (''predicateType'', str aee_predicate_type),
       (''subject'', JArr [digested []]),
       (''predicate'', obj ([(''result'', str res), (''issuedAt'', str ''2024-01-01T00:00:00Z''),
          (''observationEnvironment'',
             obj [(''substrate'', digested []), (''catchPolicy'', digested []), (''runEntropy'', digested []),
               (''networkPosture'', digested [(''posture'', str ''sinkhole'')]),
               (''corpus'', digested [(''manifest'', obj [(''classes'', obj [(''c'', JArr attacks)])])]),
               (''observationVocabulary'', digested [(''labels'', JArr [str ''hit'', str ''ok'']), (''caught'', JArr [str ''hit''])])]),
          (''coverage'', obj [(''assessedClasses'', JArr [str ''c'']), (''outOfScope'', obj []), (''routedElsewhere'', obj [])]),
          (''attackResults'', JArr rows)] @ recs))]"

definition example_row :: "string \<Rightarrow> string \<Rightarrow> string \<Rightarrow> (string \<times> json) list \<Rightarrow> json" where
  "example_row a basis label ms =
     obj ([(''attackId'', str a), (''basis'', str basis), (''method'', str ''intercepted''),
       (''attribution'', str ''paired''), (''containmentObserved'', str label), (''actualLayer'', str ''none'')] @ ms)"

definition artifact_stmt :: json where
  "artifact_stmt = example_stmt ''pass_indirect'' [str ''a''] [example_row ''a'' ''artifact'' ''ok'' []] []"

text \<open>
  Records over payloads in canonical form.  Their base64 text is never computed: the laws of
  the codec give what \<open>new_record_view\<close> makes of it, and the run is evaluated on the views.
\<close>

definition payload_text :: "dict \<Rightarrow> ustr" where
  "payload_text d = (case jcs_ser (JObj d) of Inr t \<Rightarrow> t | Inl _ \<Rightarrow> [])"

definition small_payload :: "dict \<Rightarrow> bool" where
  "small_payload d \<longleftrightarrow>
     jcs_value (JObj d) \<and> ijson_strings (JObj d) \<and> canon (JObj d) = JObj d \<and> jcs_ser (JObj d) = Inr (payload_text d) \<and>
     list_all (\<lambda>c. c < 0x80) (payload_text d) \<and> length (payload_text d) \<le> 1000 \<and> max_json_depth (payload_text d) \<le> 3"

definition media_type :: string where
  "media_type = ''x+json''"

definition envelope :: "ustr \<Rightarrow> json" where
  "envelope b64 =
     obj [(''payloadType'', str media_type), (''payload'', JStr b64), (''signatures'', JArr [obj [(''sig'', str ''AA=='')]])]"

definition payload_pae :: "dict \<Rightarrow> bytes" where
  "payload_pae d = lit ''DSSEv1 6 x+json '' @ dec_digits (length (payload_text d)) @ [0x20] @ payload_text d"

definition view_of :: "ustr \<Rightarrow> nat \<Rightarrow> dict \<Rightarrow> record_view" where
  "view_of b64 i d = \<lparr>idx = i, raw = envelope b64, payload_type = str media_type, payload_bytes = Some (payload_text d),
     pae_bytes = Some (payload_pae d), payload = Some d, payload_error = None, decode_err = False, media_ok = True,
     signature_count = 1\<rparr>"

definition outcome_of :: "string \<Rightarrow> string list \<Rightarrow> string list \<Rightarrow> outcome" where
  "outcome_of res with_key without_key =
     \<lparr>codes = [], out_result = str res, tiers_with_key = Some (map lit with_key), tiers_without_key = Some (map lit without_key)\<rparr>"

lemma small_text:
  assumes "small_payload d"
  shows "strict_payload_parse (payload_text d) = Inr d" "bytes_ok (payload_text d)"
proof -
  let ?t = "payload_text d"
  have a: "list_all (\<lambda>c. c < 0x80) ?t" and l: "length ?t \<le> 1000" and dep: "max_json_depth ?t \<le> 3"
    and p: "profile_object d" and j: "jcs_ser (JObj d) = Inr ?t"
    using assms by (auto simp: small_payload_def profile_object_def)
  have u: "utf8_bytes ?t = ?t" by (rule utf8_ascii [OF a])
  have s: "scalars ?t" using a by (auto simp: scalars_def scalar_def is_surrogate_def list_all_iff)
  have "jcs_dumps (JObj d) = Inr ?t" using j u s by (simp add: jcs_dumps_def utf8_encode_scalars)
  moreover have "utf8_decode ?t = Some ?t" using utf8_decode_encode [OF s] by (simp add: u)
  ultimately show "strict_payload_parse ?t = Inr d"
    unfolding strict_payload_parse_iff using p l dep by (simp add: max_parse_bytes_def max_parse_depth_def)
  show "bytes_ok ?t" using a by (auto simp: bytes_ok_def list_all_iff)
qed

lemma small_view:
  assumes "small_payload d"
  shows "new_record_view i (envelope (b64_encode (payload_text d))) = Inr (view_of (b64_encode (payload_text d)) i d)"
proof -
  let ?b = "b64_encode (payload_text d)"
  note t = small_text [OF assms]
  have m: "member (envelope ?b) ''payloadType'' = str media_type" "member (envelope ?b) ''payload'' = JStr ?b"
    "member (envelope ?b) ''signatures'' = JArr [obj [(''sig'', str ''AA=='')]]"
    by (simp_all add: member_def envelope_def obj_def)
  have b: "strict_b64decode ?b = Inr (payload_text d)" using t(2) by (simp add: strict_b64decode_iff)
  have "utf8_encode (lit media_type) = Inr (lit media_type)"
    by (simp add: media_type_def lit_def utf8_encode_def is_surrogate_def utf8_bytes_def utf8_char_def)
  then have p: "pae (lit media_type) (payload_text d) = Inr (payload_pae d)"
    by (simp add: pae_def payload_pae_def media_type_def lit_def pae_prefix_def dec_digits.simps [of "Suc n" for n])
  show ?thesis
    unfolding new_record_view_def Let_def view_bytes_def view_pae_def view_payload_def view_of_def
    using m b t(1) p by (simp add: str_def media_type_def ends_with_def lit_def)
qed

text \<open>The checks after decoding, on given record views.\<close>

definition check_views :: "runtime \<Rightarrow> vstate \<Rightarrow> outcome \<Rightarrow> record_view list \<Rightarrow> (vstate \<times> outcome) res" where
  "check_views R st out vs =
     (let out = add_if (list_ex (\<lambda>v. signature_count v = 0) vs) ''record-signatures-empty'' out in
          rbind (if list_ex decode_err vs then Inr (add ''record-undecodable'' out)
                 else records_batch_root R out (st_pred st) vs) (\<lambda>out.
          rbind (records_duplicates R out vs) (\<lambda>out.
            Inr (st\<lparr>st_has_records := True, st_views := vs\<rparr>, out))))"

definition run_on_views :: "runtime \<Rightarrow> vstate \<Rightarrow> outcome \<Rightarrow> record_view list \<Rightarrow> (vstate \<times> outcome) res" where
  "run_on_views R st out vs =
     rbind (check_gate0_wellformed st out) (\<lambda>(st, out).
     rbind (check_vocabulary R st out) (\<lambda>(st, out).
     rbind (check_corpus R st out) (\<lambda>(st, out).
       let st = check_rows_setup st; out = check_subject_cardinality st out in
     rbind (check_coverage st out) (\<lambda>(st, out).
       let out = check_substrate_binding_inputs st (check_per_row_statements st out) in
       case check_fail_closed_rows st out of (st, out) \<Rightarrow>
     rbind (check_views R st out vs) (\<lambda>(st, out).
     rbind (check_run_binding R st) (\<lambda>st.
     rbind (check_gate1_coverage st out) (\<lambda>(st, out).
     rbind (check_commitments R st out) (\<lambda>out.
     rbind (check_result_recompute st out) (\<lambda>out. Inr (st, out))))))))))"

definition verify_on_views :: "runtime \<Rightarrow> bytes list \<Rightarrow> json \<Rightarrow> record_view list \<Rightarrow> outcome res" where
  "verify_on_views R pubs stmt vs =
     (case check_statement_type (new_vstate stmt) new_outcome of
        (stop, st, out) \<Rightarrow>
          if stop then Inr out
          else rbind (run_on_views R st out vs) (\<lambda>(st, out).
            if codes out \<noteq> [] then Inr out else Inr (check_gate2_tiers R pubs st out)))"

lemma pred_gate0: "check_gate0_wellformed st out = Inr (st', out') \<Longrightarrow> st_pred st' = st_pred st"
  by (auto simp: check_gate0_wellformed_def Let_def rbind_eq_Inr split: json.splits if_splits)

lemma pred_vocabulary:
  assumes "check_vocabulary R st out = Inr (st', out')"
  shows "st_pred st' = st_pred st"
proof (cases "st_vocab st")
  case (Some voc)
  have fin: "st_pred s' = st_pred s" if
    "(case (l, c) of (JArr l, JArr c) \<Rightarrow> Inr (s\<lparr>st_labels := Some l, st_caught := Some c\<rparr>, o1)
       | _ \<Rightarrow> Inr (s\<lparr>st_labels := None, st_caught := None\<rparr>, o1)) = Inr (s', o2)" for s s' l c and o1 o2 :: outcome
    using that by (cases l; cases c) auto
  show ?thesis
    using assms unfolding check_vocabulary_def Let_def Some option.case by (elim rbind_InrE) (rule fin)
qed (use assms in \<open>auto simp: check_vocabulary_def\<close>)

lemma pred_corpus:
  assumes "check_corpus R st out = Inr (st', out')"
  shows "st_pred st' = st_pred st"
proof (cases "rget (st_env st) ''corpus''")
  case (JObj c)
  let ?m = "rget c ''manifest''"
  have fin: "st_pred s' = st_pred s" if
    "(case ?m of JObj m \<Rightarrow> if rhas m ''expectedPayloads'' then
         rbind (expected_payloads_ok (rget m ''expectedPayloads'') ds) (\<lambda>ok.
           if ok then Inr (s\<lparr>st_expected_payloads := rget m ''expectedPayloads''\<rparr>, o1) else Inr (s, o2))
       else Inr (s, o1) | _ \<Rightarrow> Inr (s, o1)) = Inr (s', o3)" for s s' :: vstate and o1 o2 o3 :: outcome and ds
    using that by (cases ?m) (auto elim!: rbind_InrE split: if_splits)
  show ?thesis
    using assms unfolding check_corpus_def Let_def JObj json.case
    by (elim rbind_InrE) (drule fin, simp split: json.splits)
qed (use assms in \<open>auto simp: check_corpus_def Let_def\<close>)

lemma pred_coverage: "check_coverage st out = Inr (st', out') \<Longrightarrow> st_pred st' = st_pred st"
  by (auto simp: check_coverage_def Let_def rbind_eq_Inr split: json.splits option.splits)

lemma pred_setup: "st_pred (check_rows_setup st) = st_pred st"
  by (simp add: check_rows_setup_def Let_def)

lemma pred_fail_closed: "check_fail_closed_rows st out = (st', out') \<Longrightarrow> st_pred st' = st_pred st"
  by (auto simp: check_fail_closed_rows_def)

lemma records_on_views:
  assumes "rget (st_pred st) ''observationRecords'' = JArr recs" "recs \<noteq> []" "build_views recs = Inr vs"
  shows "check_records R st out = check_views R st out vs"
  using assms by (simp add: check_records_def check_views_def Let_def)

lemma rbind_pair_cong:
  "(\<And>a b. m = Inr (a, b) \<Longrightarrow> f a b = g a b) \<Longrightarrow> rbind m (\<lambda>(a, b). f a b) = rbind m (\<lambda>(a, b). g a b)"
  by (cases m) auto

lemma run_checks_on_views:
  assumes "rget (st_pred st) ''observationRecords'' = JArr recs" "recs \<noteq> []" "build_views recs = Inr vs"
  shows "run_checks R st out = run_on_views R st out vs"
  unfolding run_checks_def run_on_views_def Let_def
proof (intro rbind_pair_cong)
  fix s1 o1 s2 o2 s3 o3 s4 o4
  assume h: "check_gate0_wellformed st out = Inr (s1, o1)" "check_vocabulary R s1 o1 = Inr (s2, o2)"
    "check_corpus R s2 o2 = Inr (s3, o3)"
    "check_coverage (check_rows_setup s3) (check_subject_cardinality (check_rows_setup s3) o3) = Inr (s4, o4)"
  obtain s5 o5 where 5: "check_fail_closed_rows s4 (check_substrate_binding_inputs s4 (check_per_row_statements s4 o4)) = (s5, o5)"
    by fastforce
  have "st_pred s5 = st_pred st"
    using pred_gate0 [OF h(1)] pred_vocabulary [OF h(2)] pred_corpus [OF h(3)] pred_coverage [OF h(4)] pred_fail_closed [OF 5]
    by (simp add: pred_setup)
  then have "check_records R s5 o5 = check_views R s5 o5 vs" using assms by (intro records_on_views) simp_all
  then show "(case check_fail_closed_rows s4 (check_substrate_binding_inputs s4 (check_per_row_statements s4 o4)) of
      (st, out) \<Rightarrow> rbind (check_records R st out) (\<lambda>(st, out). rbind (check_run_binding R st) (\<lambda>st.
        rbind (check_gate1_coverage st out) (\<lambda>(st, out). rbind (check_commitments R st out) (\<lambda>out.
          rbind (check_result_recompute st out) (\<lambda>out. Inr (st, out))))))) =
    (case check_fail_closed_rows s4 (check_substrate_binding_inputs s4 (check_per_row_statements s4 o4)) of
      (st, out) \<Rightarrow> rbind (check_views R st out vs) (\<lambda>(st, out). rbind (check_run_binding R st) (\<lambda>st.
        rbind (check_gate1_coverage st out) (\<lambda>(st, out). rbind (check_commitments R st out) (\<lambda>out.
          rbind (check_result_recompute st out) (\<lambda>out. Inr (st, out)))))))"
    unfolding 5 prod.case by (simp only:)
qed

lemma verify_on_views_eq:
  assumes "rget (the_obj (rget (the_obj stmt) ''predicate'')) ''observationRecords'' = JArr recs" "recs \<noteq> []"
    "build_views recs = Inr vs"
  shows "verify R pubs stmt None = verify_on_views R pubs stmt vs"
proof -
  obtain stop st out where s: "check_statement_type (new_vstate stmt) new_outcome = (stop, st, out)"
    using prod_cases3 by blast
  show ?thesis
  proof (cases stop)
    case False
    have "st_pred st = the_obj (rget (the_obj stmt) ''predicate'')"
      using s False by (auto simp: check_statement_type_def new_vstate_def Let_def split: json.splits)
    with assms have "run_checks R st out = run_on_views R st out vs" by (intro run_checks_on_views) simp_all
    then show ?thesis by (simp add: verify_def verify_state_def verify_on_views_def s)
  qed (simp add: verify_def verify_state_def verify_on_views_def s)
qed
subsection \<open>The statements\<close>

definition arming_payload :: dict where
  "arming_payload =
     [(lit ''aeeAssessedAttacks'', JArr [str ''a'', str ''b'']), (lit ''aeeKind'', str ''arming''),
      (lit ''aeeMethod'', str ''intercepted''), (lit ''aeePostureDigest'', zeros), (lit ''aeeRunBinding'', zeros),
      (lit ''armedAt'', str ''2024-01-01T00:00:00Z'')]"

definition sealed_payload :: dict where
  "sealed_payload =
     [(lit ''aeeDropCount'', JInt 0), (lit ''aeeKind'', str ''sealed''), (lit ''aeeMethod'', str ''intercepted''),
      (lit ''aeeObservedAttacks'', JArr [str ''b'']), (lit ''aeeObservedSet'', zeros), (lit ''aeePostureDigest'', zeros),
      (lit ''aeeRunBinding'', zeros), (lit ''aeeStillArmed'', JBool True)]"

definition interception_payload :: dict where
  "interception_payload =
     [(lit ''aeeKind'', str ''interception''), (lit ''aeeMethod'', str ''intercepted''),
      (lit ''aeePayloadCommitment'', JArr [zeros]), (lit ''aeeRunBinding'', zeros)]"

definition refs :: "int list \<Rightarrow> (string \<times> json) list" where
  "refs is = [(''observationRefs'', JArr (map JInt is))]"

definition substrate_on :: "json list \<Rightarrow> json" where
  "substrate_on recs = example_stmt ''fail'' [str ''a'', str ''b'']
     [example_row ''a'' ''substrate'' ''ok'' (refs [0, 1]), example_row ''b'' ''substrate'' ''hit'' (refs [2])]
     [(''observationRecords'', JArr recs), (''batchRoot'', zeros)]"

definition example_payloads :: "dict list" where
  "example_payloads = [arming_payload, sealed_payload, interception_payload]"

definition example_records :: "json list" where
  "example_records = map (\<lambda>d. envelope (b64_encode (payload_text d))) example_payloads"

definition substrate_stmt :: json where
  "substrate_stmt = substrate_on example_records"

lemma example_small: "small_payload arming_payload" "small_payload sealed_payload" "small_payload interception_payload"
  by code_simp+

definition example_views :: "ustr \<Rightarrow> ustr \<Rightarrow> ustr \<Rightarrow> record_view list" where
  "example_views a b c = [view_of a 0 arming_payload, view_of b 1 sealed_payload, view_of c 2 interception_payload]"

lemma example_build:
  "build_views example_records =
     Inr (example_views (b64_encode (payload_text arming_payload)) (b64_encode (payload_text sealed_payload))
            (b64_encode (payload_text interception_payload)))"
  by (simp add: build_views_def example_records_def example_payloads_def example_views_def small_view [OF example_small(1)]
      small_view [OF example_small(2)] small_view [OF example_small(3)] numeral_2_eq_2)

lemma outcome_of_simps [simp]:
  "codes (outcome_of res wk nk) = []" "out_result (outcome_of res wk nk) = str res"
  "tiers_with_key (outcome_of res wk nk) = Some (map lit wk)" "tiers_without_key (outcome_of res wk nk) = Some (map lit nk)"
  by (simp_all add: outcome_of_def)

lemma artifact_run: "verify toy [[1]] artifact_stmt None = Inr (outcome_of ''pass_indirect'' [''declared''] [''declared''])"
  by code_simp

lemma views_run:
  "verify_on_views toy [[1]] (substrate_on recs) (example_views a b c) =
     Inr (outcome_of ''fail'' [''attested'', ''attested''] [''unattested'', ''unattested''])"
  by code_simp

lemma substrate_run:
  "verify toy [[1]] substrate_stmt None =
     Inr (outcome_of ''fail'' [''attested'', ''attested''] [''unattested'', ''unattested''])"
proof -
  have "rget (the_obj (rget (the_obj substrate_stmt) ''predicate'')) ''observationRecords'' = JArr example_records"
    by (simp add: substrate_stmt_def substrate_on_def example_stmt_def obj_def rget_def)
  moreover have "example_records \<noteq> []" by (simp add: example_records_def example_payloads_def)
  ultimately have "verify toy [[1]] substrate_stmt None = verify_on_views toy [[1]] substrate_stmt
      (example_views (b64_encode (payload_text arming_payload)) (b64_encode (payload_text sealed_payload))
            (b64_encode (payload_text interception_payload)))"
    by (rule verify_on_views_eq [OF _ _ example_build])
  then show ?thesis unfolding substrate_stmt_def views_run .
qed

end
