(* ===== verification/Verdict_Properties.thy ===== *)
theory Verdict_Properties
  imports Growth Coverage_Laws Registry Examples
begin

section \<open>Further properties of the verdict\<close>

text \<open>
  The shape of an outcome, which code comes first, what coverage and vocabulary a valid
  statement has, what a claim of \<open>pass\<close> means, what a batch root commits two statements to,
  and the agreement of the verifier with the suite's own second-fault check.
\<close>

subsection \<open>Outcomes\<close>

text \<open>C11: an outcome either has no code, and then reports one of the four results and a tier for
  every row in both columns, or it has codes, none of them twice, and reports neither a result
  nor a tier.\<close>

theorem outcome_shape:
  assumes "verify R pubs stmt b = Inr out"
  shows "if codes out = []
    then in_result_order (out_result out) \<and>
      (\<exists>ts us. tiers_with_key out = Some ts \<and> length ts = length (stmt_rows stmt) \<and>
         tiers_without_key out = Some us \<and> length us = length (stmt_rows stmt) \<and> lit ''attested'' \<notin> set us)
    else distinct (codes out) \<and> out_result out = JNull \<and> tiers_with_key out = None \<and> tiers_without_key out = None"
proof (cases "codes out = []")
  case True
  from valid_out [OF assms True] obtain st where st: "valid_run R stmt st" "out_result out = rget (stmt_pred stmt) ''result''"
    "tiers_with_key out = Some (tiers R pubs (stmt_rows stmt) (st_row_covering st) True)"
    "tiers_without_key out = Some (tiers R pubs (stmt_rows stmt) (st_row_covering st) False)" .
  then have "in_result_order (out_result out)" by (simp add: valid_run_def gate0_facts_def)
  moreover have "lit ''attested'' \<notin> set (tiers R pubs (stmt_rows stmt) (st_row_covering st) False)"
    by (auto simp: tiers_def row_tier_def)
  ultimately show ?thesis using True st by simp
next
  case False
  with verify_cases [OF assms] show ?thesis by (simp add: silent_def)
qed

theorem outcome_shape_witness:
  "\<exists>ts. tiers_with_key (outcome_of ''fail'' [''attested'', ''attested''] [''unattested'', ''unattested'']) = Some ts \<and>
     length ts = length (stmt_rows substrate_stmt)"
  using outcome_shape [OF substrate_run] by simp

text \<open>The first code of a verdict comes from the earliest check that fails: when GATE 0 of a
  statement reports codes, the verdict lists them first, and its primary code is GATE 0's.\<close>

theorem earliest_check_first:
  assumes "verify_state R pubs stmt = Inr out"
    and "check_statement_type (new_vstate stmt) new_outcome = (False, st, o1)"
    and "check_gate0_wellformed st o1 = Inr (s1, o2)" "codes o2 \<noteq> []"
  shows "\<exists>cs. codes out = codes o2 @ cs \<and> hd (codes out) = hd (codes o2)"
proof -
  from assms(1,2) obtain st' o3 where r: "run_checks R st o1 = Inr (st', o3)"
    and o: "(if codes o3 \<noteq> [] then Inr o3 else Inr (check_gate2_tiers R pubs st' o3)) = (Inr out :: outcome res)"
    by (auto simp: verify_state_def elim!: rbind_InrE)
  from run_checks_grow_from [OF r assms(3)] obtain cs where cs: "codes o3 = codes o2 @ cs" by (auto simp: grows_def)
  with assms(4) o have "out = o3" by simp
  with cs assms(4) show ?thesis by simp
qed

definition bare_stmt :: json where
  "bare_stmt = obj [(''_type'', str statement_type), (''predicateType'', str aee_predicate_type), (''predicate'', obj [])]"

lemma bare_gate0:
  "case check_statement_type (new_vstate bare_stmt) new_outcome of (stop, st, o1) \<Rightarrow>
     (case check_gate0_wellformed st o1 of
        Inr (s1, o2) \<Rightarrow> \<not> stop \<and> codes o2 = map lit [''result-vocabulary'', ''issued-at-missing'', ''environment-incomplete'', ''vocabulary-missing'']
      | Inl _ \<Rightarrow> False)"
  by code_simp

lemma bare_run: "case verify_state toy [] bare_stmt of Inr out \<Rightarrow> length (codes out) = 6 | Inl _ \<Rightarrow> False"
  by code_simp

theorem earliest_check_first_witness:
  "\<exists>out. verify_state toy [] bare_stmt = Inr out \<and> hd (codes out) = lit ''result-vocabulary'' \<and> length (codes out) = 6"
proof -
  obtain out where o: "verify_state toy [] bare_stmt = Inr out" "length (codes out) = 6"
    using bare_run by (auto split: sum.splits)
  obtain st o1 s1 o2 where c: "check_statement_type (new_vstate bare_stmt) new_outcome = (False, st, o1)"
    "check_gate0_wellformed st o1 = Inr (s1, o2)"
    "codes o2 = map lit [''result-vocabulary'', ''issued-at-missing'', ''environment-incomplete'', ''vocabulary-missing'']"
    using bare_gate0 by (auto split: prod.splits sum.splits)
  have "codes o2 \<noteq> []" by (simp add: c(3))
  from earliest_check_first [OF o(1) c(1,2) this] c(3) o show ?thesis by auto
qed

subsection \<open>Coverage and vocabulary\<close>




text \<open>The vocabulary of a valid statement is two arrays of strings, each in the canonical
  UTF-16 order, without repetition and within the basic multilingual plane; the caught labels
  are labels; and the vocabulary's digest is that of its canonical encoding.\<close>

theorem valid_vocabulary:
  assumes "verify R pubs stmt b = Inr out" "codes out = []"
  shows "\<exists>ls ca d. stmt_labels stmt = map JStr ls \<and> stmt_caught stmt = map JStr ca \<and>
    sort_key utf16_be ls = ls \<and> distinct ls \<and> all_bmp ls \<and> sort_key utf16_be ca = ca \<and> distinct ca \<and> all_bmp ca \<and>
    set ca \<subseteq> set ls \<and> vocab_digest (rt_sha R) (map JStr ca) (map JStr ls) = Inr d \<and>
    digest_of (rget (stmt_env stmt) ''observationVocabulary'') = JStr d"
  using valid_out [OF assms] by (metis valid_run_def vocabulary_facts_def)

theorem valid_vocabulary_witness: "\<exists>ls. stmt_labels artifact_stmt = map JStr ls \<and> distinct ls"
  using valid_vocabulary [OF artifact_run outcome_of_simps(1)] by blast

subsection \<open>What a claim of pass means\<close>


definition armed_payload :: dict where
  "armed_payload =
     [(lit ''aeeAssessedAttacks'', JArr [str ''a'']), (lit ''aeeKind'', str ''arming''),
      (lit ''aeeMethod'', str ''intercepted''), (lit ''aeePostureDigest'', zeros), (lit ''aeeRunBinding'', zeros),
      (lit ''armedAt'', str ''2024-01-01T00:00:00Z'')]"

definition quiet_payload :: dict where
  "quiet_payload =
     [(lit ''aeeDropCount'', JInt 0), (lit ''aeeKind'', str ''sealed''), (lit ''aeeMethod'', str ''intercepted''),
      (lit ''aeeObservedAttacks'', JArr []), (lit ''aeeObservedSet'', zeros), (lit ''aeePostureDigest'', zeros),
      (lit ''aeeRunBinding'', zeros), (lit ''aeeStillArmed'', JBool True)]"

definition enveloped :: "dict list \<Rightarrow> json list" where
  "enveloped ds = map (\<lambda>d. envelope (b64_encode (payload_text d))) ds"

definition carrying :: "string \<Rightarrow> json \<Rightarrow> json list \<Rightarrow> json" where
  "carrying res row recs =
     example_stmt res [str ''a''] [row] [(''observationRecords'', JArr recs), (''batchRoot'', zeros)]"

lemma carrying_records: "rget (the_obj (rget (the_obj (carrying res row recs)) ''predicate'')) ''observationRecords'' = JArr recs"
  by (simp add: carrying_def example_stmt_def obj_def rget_def)

lemma carrying_run:
  assumes "build_views (enveloped ds) = Inr vs" "ds \<noteq> []"
  shows "verify R pubs (carrying res row (enveloped ds)) None = verify_on_views R pubs (carrying res row (enveloped ds)) vs"
  by (rule verify_on_views_eq [OF carrying_records _ assms(1)]) (simp add: enveloped_def assms(2))



lemma small_payloads: "small_payload armed_payload" "small_payload quiet_payload"
  by code_simp+






subsection \<open>What a batch root commits to\<close>

text \<open>What a record says: its payload type and the bytes of its payload.\<close>

definition record_content :: "json \<Rightarrow> (ustr \<times> bytes) option" where
  "record_content rec =
     (case (member rec ''payloadType'', member rec ''payload'') of
        (JStr t, JStr s) \<Rightarrow> (case strict_b64decode s of Inl _ \<Rightarrow> None | Inr b \<Rightarrow> Some (t, b))
      | _ \<Rightarrow> None)"

definition typed_in_scalars :: "json \<Rightarrow> bool" where
  "typed_in_scalars rec \<longleftrightarrow> scalars (the_str (member rec ''payloadType''))"

lemma record_pae_content:
  assumes "record_pae rec = Some p" "record_pae rec' = Some p" "typed_in_scalars rec" "typed_in_scalars rec'"
  shows "record_content rec = record_content rec'"
proof -
  have c: "\<exists>t b. record_content rec = Some (t, b) \<and> pae t b = Inr p \<and> scalars t"
    if "record_pae rec = Some p" "typed_in_scalars rec" for rec
    using that by (auto simp: record_pae_def record_content_def typed_in_scalars_def split: json.splits sum.splits)
  from c [OF assms(1,3)] c [OF assms(2,4)] obtain t b t' b' where
    "record_content rec = Some (t, b)" "pae t b = Inr p" "scalars t"
    "record_content rec' = Some (t', b')" "pae t' b' = Inr p" "scalars t'" by blast
  with pae_inj [of t t' b b'] show ?thesis by simp
qed

text \<open>C6: two valid statements with the same batch root carry the same records, in number, order,
  payload type and payload bytes, unless two of the strings hashed for the roots collide.\<close>

theorem same_root_same_records:
  assumes "verify R pubs s1 b1 = Inr o1" "codes o1 = []" "verify R pubs' s2 b2 = Inr o2" "codes o2 = []"
    and "stmt_records s1 \<noteq> []" "stmt_records s2 \<noteq> []"
    and "rget (stmt_pred s1) ''batchRoot'' = rget (stmt_pred s2) ''batchRoot''"
    and "list_all typed_in_scalars (stmt_records s1)" "list_all typed_in_scalars (stmt_records s2)"
    and "hash_function (rt_sha R)"
    and "inj_on (rt_sha R) (set (hash_inputs (rt_sha R) (batch_paes s1)) \<union> set (hash_inputs (rt_sha R) (batch_paes s2)))"
  shows "map record_content (stmt_records s1) = map record_content (stmt_records s2)"
proof -
  from valid_out [OF assms(1,2)] valid_batch [OF _ assms(5)] have v1:
    "list_all (\<lambda>rec. record_pae rec \<noteq> None) (stmt_records s1)"
    "\<exists>h. merkle_root_hex (rt_sha R) (batch_paes s1) = Inr h \<and> rget (stmt_pred s1) ''batchRoot'' = JStr h"
    unfolding list_all_iff by metis+
  from valid_out [OF assms(3,4)] valid_batch [OF _ assms(6)] have v2:
    "list_all (\<lambda>rec. record_pae rec \<noteq> None) (stmt_records s2)"
    "\<exists>h. merkle_root_hex (rt_sha R) (batch_paes s2) = Inr h \<and> rget (stmt_pred s2) ''batchRoot'' = JStr h"
    unfolding list_all_iff by metis+
  from v1(2) v2(2) assms(7) obtain h where "merkle_root_hex (rt_sha R) (batch_paes s1) = Inr h"
    "merkle_root_hex (rt_sha R) (batch_paes s2) = Inr h" by auto
  from hash_function.merkle_root_binds [OF assms(10) this assms(11)]
  have e: "map (\<lambda>rec. the (record_pae rec)) (stmt_records s1) = map (\<lambda>rec. the (record_pae rec)) (stmt_records s2)"
    by (simp add: batch_paes_def)
  then have l: "length (stmt_records s1) = length (stmt_records s2)" by (rule map_eq_imp_length_eq)
  show ?thesis
  proof (rule nth_equalityI)
    show "length (map record_content (stmt_records s1)) = length (map record_content (stmt_records s2))" using l by simp
  next
    fix i assume "i < length (map record_content (stmt_records s1))"
    then have i: "i < length (stmt_records s1)" "i < length (stmt_records s2)" using l by simp_all
    let ?x = "stmt_records s1 ! i" and ?y = "stmt_records s2 ! i"
    from arg_cong [OF e, of "\<lambda>ps. ps ! i"] i have "the (record_pae ?x) = the (record_pae ?y)" by simp
    moreover from v1(1) v2(1) i have "record_pae ?x \<noteq> None" "record_pae ?y \<noteq> None" by (simp_all add: list_all_length)
    ultimately obtain p where p: "record_pae ?x = Some p" "record_pae ?y = Some p" by (metis option.collapse)
    from assms(8,9) i have "typed_in_scalars ?x" "typed_in_scalars ?y" by (simp_all add: list_all_length)
    with record_pae_content [OF p] have "record_content ?x = record_content ?y" .
    with i show "map record_content (stmt_records s1) ! i = map record_content (stmt_records s2) ! i" by simp
  qed
qed

text \<open>Two statements with the same single record that differ in a note on their row.\<close>

definition carried_on :: "string \<Rightarrow> json list \<Rightarrow> json" where
  "carried_on note recs = carrying ''pass_indirect'' (example_row ''a'' ''artifact'' ''ok'' [(''note'', str note)]) recs"

definition carried_stmt :: "string \<Rightarrow> json" where
  "carried_stmt note = carried_on note (enveloped [armed_payload])"

lemma carried_views_run:
  "verify_on_views toy [[1]] (carried_on note recs) [view_of a 0 armed_payload] =
     Inr (outcome_of ''pass_indirect'' [''declared''] [''declared''])"
  by code_simp

lemma carried_build:
  "build_views (enveloped [armed_payload]) = Inr [view_of (b64_encode (payload_text armed_payload)) 0 armed_payload]"
  by (simp add: build_views_def enveloped_def small_view [OF small_payloads(1)])

lemma carried_run: "verify toy [[1]] (carried_stmt note) None = Inr (outcome_of ''pass_indirect'' [''declared''] [''declared''])"
  unfolding carried_stmt_def carried_on_def carrying_run [OF carried_build list.distinct(2)]
  by (rule carried_views_run [unfolded carried_on_def])

lemma carried_members:
  "stmt_records (carried_stmt note) = [envelope (b64_encode (payload_text armed_payload))]"
  "rget (stmt_pred (carried_stmt note)) ''batchRoot'' = zeros"
  by (simp_all add: stmt_records_def stmt_pred_def carried_stmt_def carried_on_def carrying_records enveloped_def)
    (simp add: carrying_def example_stmt_def obj_def rget_def)

lemma carried_typed: "list_all typed_in_scalars (stmt_records (carried_stmt note))"
proof -
  have "member (envelope b) ''payloadType'' = str media_type" for b
    by (simp add: member_def envelope_def obj_def)
  moreover have "scalars (lit media_type)" by code_simp
  ultimately show ?thesis by (simp add: carried_members typed_in_scalars_def str_def)
qed

lemma toy_hash: "hash_function (rt_sha toy)"
  by unfold_locales (simp_all add: toy_def bytes_ok_def)

theorem same_root_same_records_witness:
  "map record_content (stmt_records (carried_stmt ''x'')) = map record_content (stmt_records (carried_stmt ''y''))"
proof -
  have ne: "stmt_records (carried_stmt n) \<noteq> []" for n by (simp add: carried_members)
  have b: "rget (stmt_pred (carried_stmt ''x'')) ''batchRoot'' = rget (stmt_pred (carried_stmt ''y'')) ''batchRoot''"
    by (simp add: carried_members)
  have "inj_on (rt_sha toy) (set (hash_inputs (rt_sha toy) (batch_paes (carried_stmt ''x''))) \<union>
      set (hash_inputs (rt_sha toy) (batch_paes (carried_stmt ''y''))))"
    by (simp add: batch_paes_def carried_members hash_inputs.simps)
  then show ?thesis
    by (rule same_root_same_records [OF carried_run outcome_of_simps(1) carried_run outcome_of_simps(1) ne ne b
          carried_typed carried_typed toy_hash])
qed

subsection \<open>The verifier and the suite's self-check\<close>






end
