(* ===== verification/Evaluation.thy ===== *)
theory Evaluation
  imports Registry
begin

section \<open>Scoring one vector\<close>

text \<open>
  \<open>evaluate_vector\<close> of \<open>packaging/run_vectors.py\<close> and the per-kind contracts it calls: what
  a rail was observed to answer against what the manifest row of the vector expects.  The
  report strings are the constructors of \<open>reason\<close>, with the values the code interpolates.
  The sets of codes are lists, of which only membership is used.
\<close>

subsection \<open>Observations, gates, reasons\<close>

datatype mark = Unset | Pass | Fail

type_synonym gates = "stage \<Rightarrow> mark"

definition no_gates :: gates where
  "no_gates = (\<lambda>_. Unset)"

text \<open>What one invocation of an external rail can fail with; a report carries it with its pass.\<close>

datatype rail_error =
    VerifierTimeout
  | VerifierUnrunnable
  | OutputAbsent int
  | OutputMalformedJson
  | OutputNotAnObject
  | MemberType string json
  | MemberNotStrings string json
  | VerdictContradictsExit ustr ustr

text \<open>The merged record of the two passes of a rail over a vector.\<close>

record observation =
  ob_verdict :: ustr
  ob_verdict_without :: "ustr option"
  ob_codes :: "ustr list"
  ob_primary :: "ustr option"
  ob_result :: json
  ob_tiers_with :: "ustr list option"
  ob_tiers_without :: "ustr list option"
  ob_result_without :: json
  ob_absent :: "string list"
  ob_errors :: "(string \<times> rail_error) list"

datatype reason =
    RailInvocation "string \<times> rail_error"
  | VerdictNotEstablished json ustr
  | VerdictWithoutKey ustr ustr
  | VerdictDiffers json ustr
  | ExpectedValid "ustr list"
  | ExpectedInvalid
  | ResultDiffers json json
  | TierNotEstablished string "json list"
  | TierDiffers string json "ustr list option"
  | ResultWithoutKeyMissing
  | TierAlteredResult json json
  | NoDeclaredReading "ustr list" "ustr list"
  | InvalidEmitted
  | SelfCheckFinding string
  | NoExpectedCode "json list" "ustr list"
  | FamilyIncoherent ustr
  | NoManifestRow
  | VectorUnreadable

record evaluation =
  ev_ok :: bool
  ev_gates :: gates
  ev_reasons :: "reason list"
  ev_parity :: "reason list"

text \<open>The two accumulators every contract extends.\<close>

type_synonym score = "gates \<times> reason list"

definition fail_at :: "stage list \<Rightarrow> reason \<Rightarrow> score \<Rightarrow> score" where
  "fail_at ss r s = ((\<lambda>x. if x \<in> set ss then Fail else fst s x), snd s @ [r])"

definition set_gate :: "stage \<Rightarrow> mark \<Rightarrow> score \<Rightarrow> score" where
  "set_gate g m s = ((fst s)(g := m), snd s)"

definition valid_word :: ustr where
  "valid_word = lit ''valid''"

definition invalid_word :: ustr where
  "invalid_word = lit ''invalid''"

subsection \<open>Establishment\<close>

definition established :: "observation \<Rightarrow> bool" where
  "established ob \<longleftrightarrow> ob_verdict ob = valid_word \<or> ob_verdict ob = invalid_word"

definition eval_establishment :: "observation \<Rightarrow> json \<Rightarrow> score \<Rightarrow> bool \<times> score" where
  "eval_establishment ob want s =
     (let s = (fst s, snd s @ map RailInvocation (ob_errors ob));
          s = (if \<not> established ob then fail_at [Stage0] (VerdictNotEstablished want (ob_verdict ob)) s else s);
          s = (case ob_verdict_without ob of
                 None \<Rightarrow> s
               | Some w \<Rightarrow>
                   if established ob \<and> w \<noteq> ob_verdict ob
                   then fail_at [Stage0] (VerdictWithoutKey (ob_verdict ob) w) s else s)
      in (established ob, s))"

subsection \<open>Readings\<close>

definition entry_expected :: "dict option \<Rightarrow> dict res" where
  "entry_expected entry = dict_or_empty (case entry of None \<Rightarrow> JNull | Some d \<Rightarrow> rget d ''expected'')"

text \<open>\<open>readings_of\<close>: the declared readings, or an empty map when they are not an object.\<close>

definition readings_of :: "runtime \<Rightarrow> dict option \<Rightarrow> (ustr \<times> ustr) list res" where
  "readings_of R entry =
     rbind (entry_expected entry) (\<lambda>ex.
       Inr (map (\<lambda>m. (fst m, py_str R (snd m))) (the_obj (rget ex ''readings''))))"

text \<open>\<open>{str(v) for v in (expected.get("readings") or {}).values()}\<close>.\<close>

definition predicted_codes :: "runtime \<Rightarrow> dict \<Rightarrow> ustr list res" where
  "predicted_codes R ex =
     rbind (dict_or_empty (rget ex ''readings'')) (\<lambda>rd. Inr (map (\<lambda>m. py_str R (snd m)) rd))"

definition emitted :: "observation \<Rightarrow> bool" where
  "emitted ob \<longleftrightarrow> ob_result ob \<noteq> JNull \<or> (ob_tiers_with ob \<noteq> None \<and> ob_tiers_with ob \<noteq> Some [])"

definition eval_self_check :: "string list option \<Rightarrow> score \<Rightarrow> score" where
  "eval_self_check sc s =
     (case sc of
        None \<Rightarrow> s
      | Some fs \<Rightarrow> (fst (set_gate StageSelf (if fs \<noteq> [] then Fail else Pass) s), snd s @ map SelfCheckFinding fs))"

definition eval_indeterminate ::
  "runtime \<Rightarrow> dict \<Rightarrow> observation \<Rightarrow> string list option \<Rightarrow> score \<Rightarrow> score res" where
  "eval_indeterminate R ex ob sc s =
     rbind (predicted_codes R ex) (\<lambda>predicted.
       let s = (if ob_verdict ob \<noteq> invalid_word then fail_at [Stage0, Stage1, StageRecompute] ExpectedInvalid s
                else
                  let s = set_gate Stage0 Pass s;
                      s = (if predicted \<noteq> [] \<and> set predicted \<inter> set (ob_codes ob) = {}
                           then fail_at [Stage0] (NoDeclaredReading predicted (ob_codes ob)) s else s)
                  in if emitted ob then fail_at [StageRecompute] InvalidEmitted s else s)
       in Inr (eval_self_check sc s))"

subsection \<open>Accept\<close>

definition eval_tier_result_invariance :: "observation \<Rightarrow> score \<Rightarrow> score" where
  "eval_tier_result_invariance ob s =
     (if ob_tiers_with ob = None \<or> ob_result ob = JNull then s
      else if ''result_without_key'' \<in> set (ob_absent ob) then fail_at [StageTier] ResultWithoutKeyMissing s
      else if \<not> py_eq (ob_result_without ob) (ob_result ob)
      then fail_at [StageTier] (TierAlteredResult (ob_result ob) (ob_result_without ob)) s
      else s)"

text \<open>One tier column: the field of the manifest, the member of the observation.\<close>

definition eval_tier_column ::
  "dict \<Rightarrow> observation \<Rightarrow> string \<Rightarrow> string \<Rightarrow> ustr list option \<Rightarrow> score \<Rightarrow> score res" where
  "eval_tier_column ex ob field_name obs_key obs s =
     (let expect = rget ex field_name in
      if expect = JNull then Inr s
      else rbind (py_iter expect) (\<lambda>xs.
        Inr (if obs_key \<in> set (ob_absent ob) then fail_at [StageTier] (TierNotEstablished field_name xs) s
             else if \<not> py_eqs xs (map JStr (case obs of None \<Rightarrow> [] | Some ts \<Rightarrow> ts))
             then fail_at [StageTier] (TierDiffers field_name expect obs) s
             else s)))"

definition eval_accept_tiers :: "dict \<Rightarrow> observation \<Rightarrow> score \<Rightarrow> score res" where
  "eval_accept_tiers ex ob s =
     rbind (eval_tier_column ex ob ''tierWithPinnedKey'' ''tiers_with_key'' (ob_tiers_with ob) s) (\<lambda>s.
     rbind (eval_tier_column ex ob ''tierWithoutKey'' ''tiers_without_key'' (ob_tiers_without ob) s) (\<lambda>s.
       Inr (eval_tier_result_invariance ob s)))"

definition all_pass :: "score \<Rightarrow> score" where
  "all_pass s = ((\<lambda>g. if g = StageSelf then fst s g else Pass), snd s)"

text \<open>A refused accept vector: gate0 falls, and so does the stage of every code reported.\<close>

definition eval_refused :: "observation \<Rightarrow> score \<Rightarrow> score" where
  "eval_refused ob s =
     fail_at (Stage0 # map (\<lambda>c. stage_of (JStr c)) (ob_codes ob)) (ExpectedValid (ob_codes ob)) s"

definition eval_accept :: "dict \<Rightarrow> observation \<Rightarrow> score \<Rightarrow> score res" where
  "eval_accept ex ob s =
     (let s = all_pass s;
          s = (if ob_verdict ob \<noteq> valid_word then eval_refused ob s else s);
          expect = rget ex ''result'';
          s = (if ob_verdict ob = valid_word \<and> expect \<noteq> JNull \<and> \<not> py_eq (ob_result ob) expect
               then fail_at [StageRecompute] (ResultDiffers expect (ob_result ob)) s else s)
      in eval_accept_tiers ex ob s)"

subsection \<open>Reject\<close>

text \<open>
  The loop over the expected codes: \<open>stage_hit[st] = stage_hit.get(st, False) or (code in
  obs_codes)\<close>, and the marks read off it.
\<close>

definition stage_step :: "ustr list \<Rightarrow> (stage \<Rightarrow> bool option) \<Rightarrow> json \<Rightarrow> stage \<Rightarrow> bool option" where
  "stage_step obs hit c = hit(stage_of c \<mapsto> (hit (stage_of c) = Some True \<or> jin c (map JStr obs)))"

definition stage_hit :: "ustr list \<Rightarrow> json list \<Rightarrow> stage \<Rightarrow> bool option" where
  "stage_hit obs cs = foldl (stage_step obs) (\<lambda>_. None) cs"

definition eval_reject_stages :: "json list \<Rightarrow> ustr list \<Rightarrow> gates \<times> reason list \<Rightarrow> gates \<times> reason list" where
  "eval_reject_stages exp_codes obs s =
     (if exp_codes = [] then set_gate Stage0 Pass s
      else
        (\<lambda>g. case stage_hit obs exp_codes g of None \<Rightarrow> fst s g | Some b \<Rightarrow> if b then Pass else Fail,
         snd s @ (if list_ex (\<lambda>c. jin c (map JStr obs)) exp_codes then [] else [NoExpectedCode exp_codes obs])))"

text \<open>Two lists of reasons: the normative ones in the score, and the parity findings.\<close>

definition eval_reject ::
  "dict \<Rightarrow> observation \<Rightarrow> string list option \<Rightarrow> score \<Rightarrow> (score \<times> reason list) res" where
  "eval_reject ex ob sc s =
     rbind (set_or_empty (rget ex ''codes'')) (\<lambda>exp_codes.
       if ob_verdict ob \<noteq> invalid_word
       then Inr (eval_self_check sc (fail_at [Stage0, Stage1, StageRecompute] ExpectedInvalid s), [])
       else
         let (g, parity) = eval_reject_stages exp_codes (ob_codes ob) (fst s, []);
             s = (g, snd s);
             s = (if emitted ob then fail_at [StageRecompute] InvalidEmitted s else s)
         in Inr (eval_self_check sc s, parity))"

subsection \<open>One vector\<close>

definition expected_verdict :: "ustr \<Rightarrow> dict \<Rightarrow> json" where
  "expected_verdict k ex =
     (if truthy (rget ex ''verdict'') then rget ex ''verdict''
      else str (if k = lit ''accept'' then ''valid'' else ''invalid''))"

definition evaluate_vector_detailed ::
  "runtime \<Rightarrow> ustr \<Rightarrow> dict option \<Rightarrow> observation \<Rightarrow> string list option \<Rightarrow> evaluation res" where
  "evaluate_vector_detailed R k entry ob sc =
     rbind (entry_expected entry) (\<lambda>ex.
       let expect = expected_verdict k ex in
       case eval_establishment ob expect (no_gates, []) of (est, s) \<Rightarrow>
       let s = (if est \<and> JStr (ob_verdict ob) \<noteq> expect
                then (fst s, snd s @ [VerdictDiffers expect (ob_verdict ob)]) else s) in
       rbind (if k = lit ''accept'' then rbind (eval_accept ex ob s) (\<lambda>s. Inr (s, []))
              else if k = lit ''indeterminate'' then rbind (eval_indeterminate R ex ob sc s) (\<lambda>s. Inr (s, []))
              else eval_reject ex ob sc s) (\<lambda>(s, parity).
         Inr \<lparr>ev_ok = (snd s = [] \<and> parity = []), ev_gates = fst s, ev_reasons = snd s, ev_parity = parity\<rparr>))"

text \<open>The three-value shape, reasons and parity together.\<close>

definition evaluate_vector ::
  "runtime \<Rightarrow> ustr \<Rightarrow> dict option \<Rightarrow> observation \<Rightarrow> string list option \<Rightarrow> (bool \<times> gates \<times> reason list) res" where
  "evaluate_vector R k entry ob sc =
     rbind (evaluate_vector_detailed R k entry ob sc) (\<lambda>ev. Inr (ev_ok ev, ev_gates ev, ev_reasons ev @ ev_parity ev))"

end
