(* ===== verification/Py_Lines.thy ===== *)
theory Py_Lines
  imports Py_Text
begin

section \<open>Lenient decoding and lines\<close>

text \<open>
  What the suite uses of Python's text model outside the strict path:
  \<open>bytes.decode("utf-8", "replace")\<close>, \<open>str.splitlines\<close>, \<open>str.strip\<close> as an emptiness
  test, and the path functions \<open>basename\<close> and \<open>splitext\<close>.
\<close>

subsection \<open>Decoding with replacement\<close>

text \<open>
  How many bytes one U+FFFD stands for: the lead byte and the continuation bytes after it
  that could still have completed a sequence.
\<close>

definition second_ok :: "nat \<Rightarrow> nat \<Rightarrow> bool" where
  "second_ok b b1 \<longleftrightarrow> is_cont b1 \<and>
     (b = 0xE0 \<longrightarrow> 0xA0 \<le> b1) \<and> (b = 0xED \<longrightarrow> b1 < 0xA0) \<and> (b = 0xF0 \<longrightarrow> 0x90 \<le> b1) \<and> (b = 0xF4 \<longrightarrow> b1 < 0x90)"

definition bad_length :: "bytes \<Rightarrow> nat" where
  "bad_length bs =
     (case bs of
        b # b1 # r \<Rightarrow>
          if 0xE0 \<le> b \<and> b \<le> 0xF4 \<and> second_ok b b1
          then (if 0xF0 \<le> b \<and> r \<noteq> [] \<and> is_cont (hd r) then 3 else 2)
          else 1
      | _ \<Rightarrow> 1)"

function utf8_replace :: "bytes \<Rightarrow> ustr" where
  "utf8_replace bs =
     (if bs = [] then []
      else case utf8_step bs of
        None \<Rightarrow> 0xFFFD # utf8_replace (drop (bad_length bs) bs)
      | Some (c, r) \<Rightarrow> c # utf8_replace r)"
  by pat_completeness auto
termination
  by (relation "measure length") (auto intro: utf8_step_shorter simp: bad_length_def split: list.splits)

declare utf8_replace.simps [simp del]

lemma utf8_replace_Nil [simp]: "utf8_replace [] = []"
  by (simp add: utf8_replace.simps)

text \<open>On well-formed input it is the strict decoder, and its result is always well formed.\<close>

lemma utf8_replace_strict: "utf8_decode bs = Some s \<Longrightarrow> utf8_replace bs = s"
proof (induction bs arbitrary: s rule: utf8_replace.induct)
  case (1 bs)
  show ?case
  proof (cases "bs = []")
    case False
    with "1.prems" obtain c r where c: "utf8_step bs = Some (c, r)"
      by (auto simp: utf8_decode.simps [of bs] split: option.splits)
    with False "1.prems" obtain t where t: "utf8_decode r = Some t" "s = c # t"
      by (auto simp: utf8_decode.simps [of bs])
    from "1.IH"(2) [OF False c] t(1) have "utf8_replace r = t" by blast
    with False c t(2) show ?thesis by (simp add: utf8_replace.simps [of bs])
  qed (use "1.prems" in simp)
qed

lemma utf8_replace_scalars: "scalars (utf8_replace bs)"
proof (induction bs rule: utf8_replace.induct)
  case (1 bs)
  show ?case
  proof (cases "bs = [] \<or> utf8_step bs = None")
    case True
    with 1(1) show ?thesis by (auto simp: utf8_replace.simps [of bs] scalar_def is_surrogate_def)
  next
    case False
    then obtain c r where c: "utf8_step bs = Some (c, r)" by (cases "utf8_step bs") auto
    with False have "utf8_replace bs = c # utf8_replace r" by (simp add: utf8_replace.simps [of bs])
    with False c 1(2) [of "(c, r)" c r] utf8_step_sound [OF c] show ?thesis by (metis scalars_simps(2))
  qed
qed

subsection \<open>Lines\<close>

definition line_break :: "nat \<Rightarrow> bool" where
  "line_break c \<longleftrightarrow> c \<in> {0x0A, 0x0B, 0x0C, 0x0D, 0x1C, 0x1D, 0x1E, 0x85, 0x2028, 0x2029}"

definition is_space :: "nat \<Rightarrow> bool" where
  "is_space c \<longleftrightarrow> (0x09 \<le> c \<and> c \<le> 0x0D) \<or> (0x1C \<le> c \<and> c \<le> 0x20) \<or> (0x2000 \<le> c \<and> c \<le> 0x200A) \<or>
     c \<in> {0x85, 0xA0, 0x1680, 0x2028, 0x2029, 0x202F, 0x205F, 0x3000}"

text \<open>\<open>splitlines\<close>; a carriage return and the line feed after it are one break.\<close>

fun split_lines :: "ustr \<Rightarrow> ustr \<Rightarrow> ustr list" where
  "split_lines cur [] = (if cur = [] then [] else [cur])"
| "split_lines cur (c # s) =
     (if c = 0x0D \<and> s \<noteq> [] \<and> hd s = 0x0A then cur # split_lines [] (tl s)
      else if line_break c then cur # split_lines [] s
      else split_lines (cur @ [c]) s)"

definition nonblank_lines :: "ustr \<Rightarrow> ustr list" where
  "nonblank_lines s = filter (\<lambda>ln. \<not> list_all is_space ln) (split_lines [] s)"

subsection \<open>Paths\<close>

definition base_name :: "ustr \<Rightarrow> ustr" where
  "base_name p = rev (takeWhile (\<lambda>c. c \<noteq> 0x2F) (rev p))"

text \<open>\<open>splitext(name)[0]\<close>: leading dots do not start an extension.\<close>

definition stem :: "ustr \<Rightarrow> ustr" where
  "stem name =
     (let ext = rev (takeWhile (\<lambda>c. c \<noteq> 0x2E) (rev name));
          root_part = take (length name - length ext - 1) name
      in if 0x2E \<notin> set name \<or> list_all (\<lambda>c. c = 0x2E) root_part then name else root_part)"

definition first_dir :: "ustr \<Rightarrow> ustr" where
  "first_dir p = takeWhile (\<lambda>c. c \<noteq> 0x2F) p"

end
