(* ===== verification/External_Rail.thy ===== *)
theory External_Rail
  imports Evaluation Py_Lines
begin

section \<open>Observing a rail\<close>

text \<open>
  The two ways \<open>packaging/run_vectors.py\<close> obtains an observation of a vector: two
  invocations of an external command, whose exit status and output are arguments here, or
  two runs of the reference verifier, with the pinned key and without one.
\<close>

subsection \<open>One invocation\<close>

text \<open>What \<open>subprocess.run\<close> yields: an exception, or the exit status and standard output.\<close>

datatype proc_result =
    ProcTimeout
  | ProcOSError
  | ProcDone int bytes

record ext_report =
  ex_verdict :: ustr
  ex_codes :: "ustr list"
  ex_result :: json
  ex_tiers :: "ustr list option"
  ex_primary :: "ustr option"
  ex_absent :: "string list"
  ex_errors :: "rail_error list"

definition report_members :: "string list" where
  "report_members = [''codes'', ''result'', ''tiers'', ''primaryCode'']"

text \<open>The members typed as strings and as lists, in the order of \<open>MEMBER_TYPES\<close>.\<close>

definition member_types :: "(string \<times> (json \<Rightarrow> bool)) list" where
  "member_types = [(''verdict'', is_str), (''codes'', is_arr), (''result'', is_str), (''tiers'', is_arr), (''primaryCode'', is_str)]"

definition absent_members :: "dict \<Rightarrow> string list" where
  "absent_members parsed = filter (\<lambda>m. rget parsed m = JNull) report_members"

definition member_error :: "dict \<Rightarrow> string \<times> (json \<Rightarrow> bool) \<Rightarrow> rail_error list" where
  "member_error parsed mt =
     (let v = rget parsed (fst mt) in
      if v = JNull then []
      else if \<not> snd mt v then [MemberType (fst mt) v]
      else if is_arr v \<and> \<not> all_strs (the_arr v) then [MemberNotStrings (fst mt) v]
      else [])"

definition member_type_errors :: "dict \<Rightarrow> rail_error list" where
  "member_type_errors parsed = concat (map (member_error parsed) member_types)"

definition error_word :: ustr where
  "error_word = lit ''error''"

definition external_failure :: "rail_error list \<Rightarrow> ext_report" where
  "external_failure es =
     \<lparr>ex_verdict = error_word, ex_codes = [], ex_result = JNull, ex_tiers = None, ex_primary = None,
      ex_absent = report_members, ex_errors = es\<rparr>"

definition strs_of :: "json \<Rightarrow> ustr list" where
  "strs_of v = map the_str (the_arr v)"

definition opt_of_str :: "json \<Rightarrow> ustr option" where
  "opt_of_str v = (case v of JStr s \<Rightarrow> Some s | _ \<Rightarrow> None)"

text \<open>The report of a rail whose members have the right types; \<open>keyed\<close> tells whether a key
  policy was supplied.\<close>

definition external_record :: "dict \<Rightarrow> ustr \<Rightarrow> bool \<Rightarrow> ext_report" where
  "external_record parsed exit_verdict keyed =
     (let reported = opt_of_str (rget parsed ''verdict'') in
      case reported of
        Some w \<Rightarrow>
          if w \<noteq> exit_verdict \<and> \<not> keyed then external_failure [VerdictContradictsExit w exit_verdict]
          else \<lparr>ex_verdict = w, ex_codes = strs_of (rget parsed ''codes''), ex_result = rget parsed ''result'',
                ex_tiers = (if rget parsed ''tiers'' = JNull then None else Some (strs_of (rget parsed ''tiers''))),
                ex_primary = opt_of_str (rget parsed ''primaryCode''), ex_absent = absent_members parsed, ex_errors = []\<rparr>
      | None \<Rightarrow>
          \<lparr>ex_verdict = exit_verdict, ex_codes = strs_of (rget parsed ''codes''), ex_result = rget parsed ''result'',
           ex_tiers = (if rget parsed ''tiers'' = JNull then None else Some (strs_of (rget parsed ''tiers''))),
           ex_primary = opt_of_str (rget parsed ''primaryCode''), ex_absent = absent_members parsed, ex_errors = []\<rparr>)"

definition parse_external :: "int \<Rightarrow> bytes \<Rightarrow> bool \<Rightarrow> ext_report res" where
  "parse_external status stdout keyed =
     (let exit_verdict = (if status = 0 then valid_word else invalid_word);
          lines = nonblank_lines (utf8_replace stdout)
      in if lines = [] then Inr (external_failure [OutputAbsent status])
         else (case json_loads_default (last lines) of
                 Inl ValueError \<Rightarrow> Inr (external_failure [OutputMalformedJson])
               | Inl IntegerTooLong \<Rightarrow> Inr (external_failure [OutputMalformedJson])
               | Inl e \<Rightarrow> Inl e
               | Inr (JObj parsed) \<Rightarrow>
                   (if member_type_errors parsed \<noteq> [] then Inr (external_failure (member_type_errors parsed))
                    else Inr (external_record parsed exit_verdict keyed))
               | Inr _ \<Rightarrow> Inr (external_failure [OutputNotAnObject])))"

definition run_external :: "proc_result \<Rightarrow> bool \<Rightarrow> ext_report res" where
  "run_external pr keyed =
     (case pr of
        ProcTimeout \<Rightarrow> Inr (external_failure [VerifierTimeout])
      | ProcOSError \<Rightarrow> Inr (external_failure [VerifierUnrunnable])
      | ProcDone status stdout \<Rightarrow> parse_external status stdout keyed)"

subsection \<open>The two passes merged\<close>

definition with_key_member :: "(string \<times> string) list" where
  "with_key_member =
     [(''codes'', ''codes''), (''result'', ''result''), (''tiers'', ''tiers_with_key''), (''primaryCode'', ''primaryCode'')]"

definition without_key_member :: "(string \<times> string) list" where
  "without_key_member = [(''tiers'', ''tiers_without_key''), (''result'', ''result_without_key'')]"

definition rename_members :: "(string \<times> string) list \<Rightarrow> string list \<Rightarrow> string list" where
  "rename_members names ms = List.map_filter (map_of names) ms"

text \<open>\<open>sorted\<close> on member names.\<close>

definition sort_names :: "string list \<Rightarrow> string list" where
  "sort_names ms = sort_key lit ms"

definition observe_external :: "proc_result \<Rightarrow> proc_result \<Rightarrow> observation res" where
  "observe_external pinned bare =
     rbind (run_external pinned True) (\<lambda>w.
     rbind (run_external bare False) (\<lambda>n.
       Inr \<lparr>ob_verdict = ex_verdict w, ob_verdict_without = Some (ex_verdict n), ob_codes = ex_codes w,
            ob_primary = ex_primary w, ob_result = ex_result w, ob_tiers_with = ex_tiers w,
            ob_tiers_without = ex_tiers n, ob_result_without = ex_result n,
            ob_absent = sort_names (rename_members with_key_member (ex_absent w)
                          @ rename_members without_key_member (ex_absent n)),
            ob_errors = map (Pair ''pinned-key'') (ex_errors w) @ map (Pair ''no-key'') (ex_errors n)\<rparr>))"

subsection \<open>The reference rail\<close>

definition reference_absent :: "outcome \<Rightarrow> outcome \<Rightarrow> string list" where
  "reference_absent ow on =
     (if codes ow = [] then [''codes'', ''primaryCode''] else []) @
     (if out_result ow = JNull then [''result''] else []) @
     (if tiers_with_key ow = None then [''tiers_with_key''] else []) @
     (if tiers_without_key on = None then [''tiers_without_key''] else []) @
     (if out_result on = JNull then [''result_without_key''] else [])"

definition observe_reference :: "runtime \<Rightarrow> bytes list \<Rightarrow> json \<Rightarrow> bytes \<Rightarrow> observation res" where
  "observe_reference R pinned stmt b =
     rbind (verify R pinned stmt (Some b)) (\<lambda>ow.
     rbind (verify R [] stmt (Some b)) (\<lambda>on.
       Inr \<lparr>ob_verdict = verdict ow, ob_verdict_without = Some (verdict on), ob_codes = codes ow,
            ob_primary = (case codes ow of [] \<Rightarrow> None | c # _ \<Rightarrow> Some c), ob_result = out_result ow,
            ob_tiers_with = tiers_with_key ow, ob_tiers_without = tiers_without_key on,
            ob_result_without = out_result on, ob_absent = sort_names (reference_absent ow on), ob_errors = []\<rparr>))"

text \<open>A rail: the reference verifier, or a command of which the two results per path are given.\<close>

datatype rail = ReferenceRail | CommandRail "ustr \<Rightarrow> proc_result \<times> proc_result"

definition run_observe :: "runtime \<Rightarrow> bytes list \<Rightarrow> rail \<Rightarrow> ustr \<Rightarrow> json \<Rightarrow> bytes \<Rightarrow> observation res" where
  "run_observe R pinned rl path stmt b =
     (case rl of
        ReferenceRail \<Rightarrow> observe_reference R pinned stmt b
      | CommandRail f \<Rightarrow> observe_external (fst (f path)) (snd (f path)))"

end
