(* ===== verification/Closure.thy ===== *)
theory Closure
  imports Registry Py_Lines
begin

section \<open>The manifest and the tree it indexes\<close>

text \<open>
  The suite side of \<open>packaging/run_vectors.py\<close> that reads \<open>MANIFEST.json\<close>: the index of
  its rows, the one directory they live in, the vectors to replay, and \<open>manifest_closure\<close>,
  which holds the rows and the files on disk to each other.  The file system is an argument,
  with paths relative to the suite directory (the empty path).
\<close>

record tree =
  t_isdir :: "ustr \<Rightarrow> bool"
  t_isfile :: "ustr \<Rightarrow> bool"
  t_listdir :: "ustr \<Rightarrow> ustr list"
  t_read :: "ustr \<Rightarrow> bytes option"

definition replayed_kinds :: "ustr list" where
  "replayed_kinds = map lit [''accept'', ''indeterminate'', ''reject'']"

definition suite_non_vector_dirs :: "ustr list" where
  "suite_non_vector_dirs = map lit [''__pycache__'', ''keys'', ''.build'']"

text \<open>\<open>manifest.get("vectors") or manifest.get("index") or []\<close>.\<close>

definition manifest_rows :: "dict \<Rightarrow> json" where
  "manifest_rows m =
     (if truthy (rget m ''vectors'') then rget m ''vectors''
      else if truthy (rget m ''index'') then rget m ''index'' else JArr [])"

text \<open>An index is a dict from identifiers to rows.\<close>

definition index_row :: "dict \<Rightarrow> json \<Rightarrow> dict" where
  "index_row ix e =
     (case e of
        JObj d \<Rightarrow> (case rget d ''id'' of JStr vid \<Rightarrow> dset ix vid (JObj d) | _ \<Rightarrow> ix)
      | _ \<Rightarrow> ix)"

definition manifest_index :: "dict option \<Rightarrow> dict" where
  "manifest_index manifest =
     (case manifest of
        None \<Rightarrow> []
      | Some m \<Rightarrow>
          (case manifest_rows m of
             JObj vs \<Rightarrow> foldl (\<lambda>ix e. if is_obj (snd e) then dset ix (fst e) (snd e) else ix) [] vs
           | JArr es \<Rightarrow> foldl index_row [] es
           | _ \<Rightarrow> []))"

definition index_get :: "dict \<Rightarrow> ustr \<Rightarrow> dict option" where
  "index_get ix vid = (case map_of ix vid of Some (JObj d) \<Rightarrow> Some d | _ \<Rightarrow> None)"

text \<open>The directory of a declared file; a row without one is refused.\<close>

definition row_dir :: "json \<Rightarrow> ustr res" where
  "row_dir e =
     (case rget (the_obj e) ''file'' of
        JStr rel \<Rightarrow> if 0x2F \<in> set rel then Inr (first_dir rel) else Inl SystemExit
      | _ \<Rightarrow> Inl SystemExit)"

definition flat_layout :: "dict \<Rightarrow> ustr res" where
  "flat_layout ix =
     rbind (rmap (\<lambda>e. row_dir (snd e)) ix) (\<lambda>dirs.
       case remdups dirs of
         [only] \<Rightarrow> if only \<in> set replayed_kinds then Inl SystemExit else Inr only
       | _ \<Rightarrow> Inl SystemExit)"

text \<open>\<open>listed.setdefault(kind, []).append(vid)\<close>, then each list sorted.\<close>

fun add_listed :: "(ustr \<times> ustr list) list \<Rightarrow> ustr \<Rightarrow> ustr \<Rightarrow> (ustr \<times> ustr list) list" where
  "add_listed [] k v = [(k, [v])]"
| "add_listed ((k', vs) # l) k v = (if k' = k then (k', vs @ [v]) # l else (k', vs) # add_listed l k v)"

definition row_kind :: "json \<Rightarrow> ustr" where
  "row_kind e = (case rget (the_obj e) ''kind'' of JStr k \<Rightarrow> k | _ \<Rightarrow> [])"

definition manifest_kinds :: "dict \<Rightarrow> (ustr \<times> ustr list) list" where
  "manifest_kinds ix =
     map (\<lambda>(k, vs). (k, sort vs)) (foldl (\<lambda>l e. add_listed l (row_kind (snd e)) (fst e)) [] ix)"

definition listed_of :: "(ustr \<times> ustr list) list \<Rightarrow> ustr \<Rightarrow> ustr list" where
  "listed_of l k = (case map_of l k of None \<Rightarrow> [] | Some vs \<Rightarrow> vs)"

text \<open>Every row as a (kind, file) pair, in the order of the manifest.\<close>

definition discover_row :: "json \<Rightarrow> (ustr \<times> ustr) res" where
  "discover_row e =
     (case (rget (the_obj e) ''file'', rget (the_obj e) ''kind'') of
        (JStr rel, JStr k) \<Rightarrow> Inr (k, rel)
      | _ \<Rightarrow> Inl SystemExit)"

definition discover_vectors :: "runtime \<Rightarrow> dict option \<Rightarrow> (ustr \<times> ustr) list res" where
  "discover_vectors R manifest =
     rbind (py_iter (manifest_rows (case manifest of None \<Rightarrow> [] | Some m \<Rightarrow> m))) (\<lambda>entries.
       if entries = [] then Inl SystemExit
       else if \<not> list_all is_obj entries then Inl AttributeError
       else
         rbind (flat_layout (foldl (\<lambda>ix e. dset ix (py_str R (rget (the_obj e) ''id'')) e) [] entries)) (\<lambda>_.
           rmap discover_row entries))"

definition vector_files_in :: "tree \<Rightarrow> ustr \<Rightarrow> ustr list" where
  "vector_files_in t d =
     (if \<not> t_isdir t d then []
      else sort (map stem (filter (ends_with (lit ''.json'')) (t_listdir t d))))"

subsection \<open>Closure\<close>

datatype refusal =
    KindUnscored ustr "ustr list"
  | KindEmpty ustr
  | RowNoFile ustr
  | RowFileMissing ustr ustr
  | FileUnlisted ustr ustr
  | DirectoryUnnamed ustr
  | DirectoryHolds ustr nat
  | CountMissing ustr nat
  | CountDiffers ustr json nat
  | TotalDiffers ustr nat nat
  | CountsAbsent
  | CountsNotObject json
  | CountUnlisted ustr

definition sorted_kinds :: "(ustr \<times> 'a) list \<Rightarrow> ustr list" where
  "sorted_kinds l = sort (map fst l)"

definition closure_kind_coverage :: "(ustr \<times> ustr list) list \<Rightarrow> refusal list" where
  "closure_kind_coverage l =
     map (\<lambda>k. KindUnscored k (listed_of l k)) (filter (\<lambda>k. k \<notin> set replayed_kinds) (sorted_kinds l)) @
     map KindEmpty (filter (\<lambda>k. listed_of l k = []) replayed_kinds)"

definition row_file_fault :: "tree \<Rightarrow> dict \<Rightarrow> ustr \<Rightarrow> refusal list" where
  "row_file_fault t ix vid =
     (case rget (the_obj (dget ix vid)) ''file'' of
        JStr f \<Rightarrow> if f = [] then [RowNoFile vid] else if \<not> t_isfile t f then [RowFileMissing vid f] else []
      | _ \<Rightarrow> [RowNoFile vid])"

definition scored_kinds :: "(ustr \<times> ustr list) list \<Rightarrow> ustr list" where
  "scored_kinds l = filter (\<lambda>k. k \<in> set replayed_kinds) (sorted_kinds l)"

definition held_in :: "tree \<Rightarrow> ustr \<Rightarrow> ustr list" where
  "held_in t flat = sort (remdups (vector_files_in t flat))"

definition unlisted_ids :: "tree \<Rightarrow> (ustr \<times> ustr list) list \<Rightarrow> ustr \<Rightarrow> ustr list" where
  "unlisted_ids t l flat = filter (\<lambda>vid. \<not> list_ex (\<lambda>e. vid \<in> set (snd e)) l) (held_in t flat)"

definition closure_flat ::
  "tree \<Rightarrow> dict \<Rightarrow> (ustr \<times> ustr list) list \<Rightarrow> ustr \<Rightarrow> refusal list \<times> (ustr \<times> ustr) list" where
  "closure_flat t ix l flat =
     (concat (map (\<lambda>k. concat (map (row_file_fault t ix) (listed_of l k))) (scored_kinds l)) @
        map (FileUnlisted flat) (unlisted_ids t l flat),
      map (\<lambda>vid. (vid, flat)) (unlisted_ids t l flat))"

definition closure_both_directions ::
  "tree \<Rightarrow> dict \<Rightarrow> (ustr \<times> ustr list) list \<Rightarrow> (refusal list \<times> (ustr \<times> ustr) list) res" where
  "closure_both_directions t ix l = rbind (flat_layout ix) (\<lambda>flat. Inr (closure_flat t ix l flat))"

definition directory_fault :: "tree \<Rightarrow> (ustr \<times> ustr list) list \<Rightarrow> ustr \<Rightarrow> ustr \<Rightarrow> refusal list" where
  "directory_fault t l flat name =
     (if \<not> t_isdir t name \<or> name \<in> fst ` set l \<or> name = flat then []
      else if name \<notin> set suite_non_vector_dirs then [DirectoryUnnamed name]
      else if vector_files_in t name \<noteq> [] then [DirectoryHolds name (length (vector_files_in t name))]
      else [])"

definition closure_directories :: "tree \<Rightarrow> (ustr \<times> ustr list) list \<Rightarrow> dict \<Rightarrow> refusal list res" where
  "closure_directories t l ix =
     rbind (flat_layout ix) (\<lambda>flat. Inr (concat (map (directory_fault t l flat) (sort (t_listdir t [])))))"

definition count_fault :: "dict \<Rightarrow> (ustr \<times> ustr list) list \<Rightarrow> ustr \<Rightarrow> refusal list" where
  "count_fault counts l k =
     (let held = length (listed_of l k) in
      if \<not> dmem counts k then [CountMissing k held]
      else if \<not> py_eq (dget counts k) (JInt (int held)) then [CountDiffers k (dget counts k) held]
      else [])"

definition total_rows :: "(ustr \<times> ustr list) list \<Rightarrow> nat" where
  "total_rows l = sum_list (map (\<lambda>e. length (snd e)) l)"

definition counts_against_rows :: "tree \<Rightarrow> dict \<Rightarrow> (ustr \<times> ustr list) list \<Rightarrow> ustr \<Rightarrow> refusal list" where
  "counts_against_rows t counts l flat =
     concat (map (count_fault counts l) (scored_kinds l)) @
     (let files = length (vector_files_in t flat) in
      if files \<noteq> total_rows l then [TotalDiffers flat files (total_rows l)] else [])"

definition closure_counts ::
  "tree \<Rightarrow> json \<Rightarrow> (ustr \<times> ustr list) list \<Rightarrow> dict \<Rightarrow> refusal list res" where
  "closure_counts t counts l ix =
     (case counts of
        JNull \<Rightarrow> Inr [CountsAbsent]
      | JObj c \<Rightarrow>
          rbind (flat_layout ix) (\<lambda>flat.
            Inr (counts_against_rows t c l flat @
                 map CountUnlisted (filter (\<lambda>k. k \<notin> fst ` set l) (sorted_kinds c))))
      | v \<Rightarrow> Inr [CountsNotObject v])"

definition manifest_closure :: "tree \<Rightarrow> dict \<Rightarrow> dict \<Rightarrow> (refusal list \<times> (ustr \<times> ustr) list) res" where
  "manifest_closure t m ix =
     (let l = manifest_kinds ix in
      rbind (closure_both_directions t ix l) (\<lambda>(fs, unlisted).
      rbind (closure_directories t l ix) (\<lambda>ds.
      rbind (closure_counts t (rget m ''counts'') l ix) (\<lambda>cs.
        Inr (closure_kind_coverage l @ fs @ ds @ cs, unlisted)))))"

end
