(* ===== verification/Suite.thy ===== *)
theory Suite
  imports External_Rail Closure
begin

section \<open>The suite run\<close>

text \<open>
  \<open>run_suite\<close> of \<open>packaging/run_vectors.py\<close>: every vector loaded, observed and scored, the
  closure refusals and the coherence failures of the indeterminate families written onto the
  rows they concern, the totals and the exit status.  The manifest, the file system, the
  rail and the hash and signature primitives are arguments; printing is not modelled.
\<close>

subsection \<open>Loading a statement\<close>

definition load_statement :: "bytes \<Rightarrow> (json \<times> bool) res" where
  "load_statement b =
     (case Option.bind (utf8_decode b) (\<lambda>s. case json_loads_default s of Inr v \<Rightarrow> Some v | Inl _ \<Rightarrow> None) of
        Some v \<Rightarrow> Inr (v, True)
      | None \<Rightarrow>
          (case json_loads_default (utf8_replace b) of
             Inr v \<Rightarrow> Inr (v, False)
           | Inl _ \<Rightarrow> Inr (JNull, False)))"

text \<open>What reading at most one byte past the limit leaves of a file.\<close>

definition read_vector :: "tree \<Rightarrow> ustr \<Rightarrow> bytes option" where
  "read_vector t path =
     (case t_read t path of
        None \<Rightarrow> None
      | Some b \<Rightarrow> if length (take (max_statement_bytes + 1) b) > max_statement_bytes then None else Some b)"

subsection \<open>Rows of the report\<close>

text \<open>A member the code leaves out of a row is \<open>None\<close>.\<close>

record row =
  rw_id :: ustr
  rw_file :: ustr
  rw_kind :: ustr
  rw_pass :: bool
  rw_conformance :: "bool option"
  rw_parity :: "mark option"
  rw_gates :: gates
  rw_observed :: "observation option"
  rw_reasons :: "reason list"
  rw_conformance_reasons :: "reason list option"

definition parity_status :: "ustr \<Rightarrow> reason list \<Rightarrow> mark" where
  "parity_status k parity = (if parity \<noteq> [] then Fail else if k = lit ''reject'' then Pass else Unset)"

definition unreadable_row :: "ustr \<Rightarrow> ustr \<Rightarrow> row" where
  "unreadable_row path k =
     \<lparr>rw_id = stem (base_name path), rw_file = path, rw_kind = k, rw_pass = False, rw_conformance = None,
      rw_parity = None, rw_gates = (\<lambda>_. Fail), rw_observed = None, rw_reasons = [VectorUnreadable],
      rw_conformance_reasons = None\<rparr>"

text \<open>The codes a reject or indeterminate vector is exempted from by declaration.\<close>

definition exempt_codes :: "runtime \<Rightarrow> dict option \<Rightarrow> json list res" where
  "exempt_codes R entry =
     rbind (entry_expected entry) (\<lambda>ex.
     rbind (set_or_empty (rget ex ''codes'')) (\<lambda>cs.
     rbind (set_or_empty (rget ex ''alsoCarries'')) (\<lambda>also.
     rbind (predicted_codes R ex) (\<lambda>rd. Inr (cs @ also @ map JStr rd)))))"

definition self_check :: "runtime \<Rightarrow> ustr \<Rightarrow> dict option \<Rightarrow> json \<Rightarrow> bool \<Rightarrow> string list option res" where
  "self_check R k entry stmt faithful =
     (if (k = lit ''reject'' \<or> k = lit ''indeterminate'') \<and> faithful
      then rbind (exempt_codes R entry) (\<lambda>cs. rbind (second_fault_absence R stmt cs) (\<lambda>fs. Inr (Some fs)))
      else Inr None)"

definition scored_row :: "ustr \<Rightarrow> ustr \<Rightarrow> observation \<Rightarrow> evaluation \<Rightarrow> row" where
  "scored_row path k ob ev =
     \<lparr>rw_id = stem (base_name path), rw_file = path, rw_kind = k, rw_pass = ev_ok ev,
      rw_conformance = Some (ev_reasons ev = []), rw_parity = Some (parity_status k (ev_parity ev)),
      rw_gates = ev_gates ev, rw_observed = Some ob, rw_reasons = ev_reasons ev @ ev_parity ev,
      rw_conformance_reasons = Some (ev_reasons ev)\<rparr>"

definition process_vector ::
  "runtime \<Rightarrow> bytes list \<Rightarrow> rail \<Rightarrow> tree \<Rightarrow> dict \<Rightarrow> ustr \<times> ustr \<Rightarrow> row res" where
  "process_vector R pinned rl t ix kp =
     (case kp of (k, path) \<Rightarrow>
        let entry = index_get ix (stem (base_name path)) in
        case read_vector t path of
          None \<Rightarrow> Inr (unreadable_row path k)
        | Some b \<Rightarrow>
            rbind (load_statement b) (\<lambda>(stmt, faithful).
            rbind (run_observe R pinned rl path stmt b) (\<lambda>ob.
            rbind (self_check R k entry stmt faithful) (\<lambda>sc.
            rbind (evaluate_vector_detailed R k entry ob sc) (\<lambda>ev. Inr (scored_row path k ob ev))))))"

subsection \<open>Coherence of the indeterminate families\<close>

definition family_of :: "runtime \<Rightarrow> dict \<Rightarrow> row \<Rightarrow> ustr res" where
  "family_of R ix r =
     rbind (entry_expected (index_get ix (rw_id r))) (\<lambda>ex.
       Inr (if truthy (rget ex ''family'') then py_str R (rget ex ''family'') else []))"

fun add_member :: "(ustr \<times> row list) list \<Rightarrow> ustr \<Rightarrow> row \<Rightarrow> (ustr \<times> row list) list" where
  "add_member [] k v = [(k, [v])]"
| "add_member ((k', vs) # l) k v = (if k' = k then (k', vs @ [v]) # l else (k', vs) # add_member l k v)"

definition families :: "runtime \<Rightarrow> dict \<Rightarrow> row list \<Rightarrow> (ustr \<times> row list) list res" where
  "families R ix rows =
     rbind (rfold (\<lambda>l r. rbind (family_of R ix r) (\<lambda>f. Inr (if f = [] then l else add_member l f r))) []
              (filter (\<lambda>r. rw_kind r = lit ''indeterminate'') rows)) (\<lambda>l. Inr (sort_key fst l))"

definition row_primary :: "row \<Rightarrow> ustr option" where
  "row_primary r = (case rw_observed r of None \<Rightarrow> None | Some ob \<Rightarrow> ob_primary ob)"

definition row_codes :: "row \<Rightarrow> ustr list" where
  "row_codes r = (case rw_observed r of None \<Rightarrow> [] | Some ob \<Rightarrow> ob_codes ob)"

text \<open>A primary code that is absent or empty does not commit.\<close>

definition commits :: "row \<Rightarrow> bool" where
  "commits r \<longleftrightarrow> row_primary r \<noteq> None \<and> row_primary r \<noteq> Some []"

definition answers :: "runtime \<Rightarrow> dict \<Rightarrow> bool \<Rightarrow> ustr \<Rightarrow> row \<Rightarrow> bool res" where
  "answers R ix committed reading r =
     rbind (readings_of R (index_get ix (rw_id r))) (\<lambda>rds.
       let predicted = map_of rds reading in
       Inr (if committed then predicted = row_primary r
            else predicted \<in> Some ` set (row_codes r)))"

definition family_matches :: "runtime \<Rightarrow> dict \<Rightarrow> row list \<Rightarrow> ustr list res" where
  "family_matches R ix members =
     rbind (readings_of R (index_get ix (rw_id (hd members)))) (\<lambda>rds.
       let committed = list_all commits members in
       rfilter (\<lambda>name. rbind (rmap (answers R ix committed name) members) (\<lambda>bs. Inr (list_all id bs)))
         (sort (map fst rds)))"

text \<open>The families no declared reading explains.\<close>

definition family_coherence_failures :: "runtime \<Rightarrow> dict \<Rightarrow> row list \<Rightarrow> ustr list res" where
  "family_coherence_failures R ix rows =
     rbind (families R ix rows) (\<lambda>fams.
     rbind (rmap (\<lambda>fm. rbind (family_matches R ix (snd fm)) (\<lambda>ms. Inr (fst fm, ms))) fams) (\<lambda>res.
       Inr (map fst (filter (\<lambda>fm. snd fm = []) res))))"

subsection \<open>Writing failures onto rows\<close>

text \<open>\<open>row["conformanceReasons"]\<close> raises on a row that has none.\<close>

definition fail_row :: "reason list \<Rightarrow> row \<Rightarrow> row res" where
  "fail_row rs r =
     (case rw_conformance_reasons r of
        None \<Rightarrow> Inl KeyError
      | Some cr \<Rightarrow>
          Inr (r\<lparr>rw_pass := False, rw_conformance := Some False, rw_reasons := rw_reasons r @ rs,
                 rw_conformance_reasons := Some (cr @ rs), rw_gates := (rw_gates r)(Stage0 := Fail)\<rparr>))"

definition run_manifest_closure ::
  "tree \<Rightarrow> dict option \<Rightarrow> dict \<Rightarrow> row list \<Rightarrow> (refusal list \<times> row list) res" where
  "run_manifest_closure t manifest ix rows =
     (case manifest of
        None \<Rightarrow> Inr ([], rows)
      | Some m \<Rightarrow>
          rbind (manifest_closure t m ix) (\<lambda>(fs, unlisted).
          rbind (rmap (\<lambda>r. if map_of unlisted (rw_id r) = Some (rw_kind r) then fail_row [NoManifestRow] r else Inr r) rows)
            (\<lambda>rows. Inr (fs, rows))))"

definition mark_incoherent :: "ustr list \<Rightarrow> row list \<Rightarrow> row list res" where
  "mark_incoherent fams rows =
     (if fams = [] then Inr rows
      else rmap (\<lambda>r. if rw_kind r = lit ''indeterminate'' then fail_row (map FamilyIncoherent fams) r else Inr r) rows)"

subsection \<open>The run\<close>

record totals =
  tot_vectors :: nat
  tot_pass :: nat
  tot_fail :: nat
  tot_conform :: nat
  tot_parity_mismatch :: nat
  tot_refusals :: nat

record suite_result =
  su_exit :: nat
  su_rows :: "row list"
  su_refusals :: "refusal list"
  su_incoherent :: "ustr list"
  su_totals :: totals

definition count :: "('a \<Rightarrow> bool) \<Rightarrow> 'a list \<Rightarrow> nat" where
  "count p xs = length (filter p xs)"

definition report_totals :: "row list \<Rightarrow> nat \<Rightarrow> totals" where
  "report_totals rows refusals =
     \<lparr>tot_vectors = length rows, tot_pass = count rw_pass rows, tot_fail = count (\<lambda>r. \<not> rw_pass r) rows,
      tot_conform = count (\<lambda>r. rw_conformance r = Some True) rows,
      tot_parity_mismatch = count (\<lambda>r. rw_parity r = Some Fail) rows, tot_refusals = refusals\<rparr>"

text \<open>\<open>max(failures - failing rows, 0)\<close> is the subtraction of natural numbers.\<close>

definition finish_run :: "nat \<Rightarrow> refusal list \<Rightarrow> ustr list \<Rightarrow> row list \<Rightarrow> suite_result" where
  "finish_run failed refused incoherent rows =
     (let failures = failed + length refused + length incoherent in
      \<lparr>su_exit = (if failures = 0 then 0 else 1), su_rows = rows, su_refusals = refused, su_incoherent = incoherent,
       su_totals = report_totals rows (failures - count (\<lambda>r. \<not> rw_pass r) rows)\<rparr>)"

text \<open>A run without a suite directory or without vectors ends before any report is written.\<close>

datatype run_outcome = NoReport nat | Reported suite_result

definition run_suite ::
  "runtime \<Rightarrow> bytes list \<Rightarrow> rail \<Rightarrow> tree \<Rightarrow> dict option \<Rightarrow> run_outcome res" where
  "run_suite R pinned rl t manifest =
     (if \<not> t_isdir t [] then Inr (NoReport 2)
      else
        let ix = manifest_index manifest in
        rbind (discover_vectors R manifest) (\<lambda>vectors.
        if vectors = [] then Inr (NoReport 2)
        else
        rbind (rmap (process_vector R pinned rl t ix) vectors) (\<lambda>rows.
        let failed = count (\<lambda>r. \<not> rw_pass r) rows in
        rbind (run_manifest_closure t manifest ix rows) (\<lambda>(refused, rows).
        rbind (family_coherence_failures R ix rows) (\<lambda>incoherent.
        rbind (mark_incoherent incoherent rows) (\<lambda>rows.
          Inr (Reported (finish_run failed refused incoherent rows))))))))"

end
