(* ===== verification/Harness_Laws.thy ===== *)
theory Harness_Laws
  imports Suite Verdict_Laws
begin

section \<open>What the suite's judgements stand for\<close>

text \<open>
  Laws of the scoring contracts, of the two observers and of the run: which observations
  pass, why an unanswered or failed invocation never does, that the reference rail's two
  passes agree, and what an exit status of zero stands for.
\<close>

subsection \<open>Scores only grow\<close>

text \<open>No contract removes a reason.\<close>

definition extends :: "score \<Rightarrow> score \<Rightarrow> bool" where
  "extends s t \<longleftrightarrow> (\<exists>rs. snd t = snd s @ rs)"

lemma extends_refl [simp]: "extends s s"
  by (simp add: extends_def)

lemma extends_trans: "extends s t \<Longrightarrow> extends t u \<Longrightarrow> extends s u"
  by (auto simp: extends_def)

lemma extends_nonempty: "extends s t \<Longrightarrow> snd s \<noteq> [] \<Longrightarrow> snd t \<noteq> []"
  by (auto simp: extends_def)

lemma snd_fail_at [simp]: "snd (fail_at ss r s) = snd s @ [r]"
  by (simp add: fail_at_def)

lemma fst_fail_at [simp]: "fst (fail_at ss r s) g = (if g \<in> set ss then Fail else fst s g)"
  by (simp add: fail_at_def)

lemma set_gate_simps [simp]: "snd (set_gate g m s) = snd s" "fst (set_gate g m s) x = (if x = g then m else fst s x)"
  by (simp_all add: set_gate_def)

lemma all_pass_simps [simp]: "snd (all_pass s) = snd s" "fst (all_pass s) g = (if g = StageSelf then fst s g else Pass)"
  by (simp_all add: all_pass_def)

lemma self_check_simps [simp]:
  "snd (eval_self_check sc s) = snd s @ map SelfCheckFinding (case sc of None \<Rightarrow> [] | Some fs \<Rightarrow> fs)"
  "fst (eval_self_check sc s) g =
     (if g = StageSelf then (case sc of None \<Rightarrow> fst s g | Some fs \<Rightarrow> if fs \<noteq> [] then Fail else Pass) else fst s g)"
  by (simp_all add: eval_self_check_def split: option.split)

subsection \<open>Establishment\<close>

lemma establishment_simps:
  assumes "eval_establishment ob want s = (e, t)"
  shows "e = established ob \<and>
    (snd t = [] \<longleftrightarrow> snd s = [] \<and> ob_errors ob = [] \<and> established ob \<and>
       (ob_verdict_without ob = None \<or> ob_verdict_without ob = Some (ob_verdict ob))) \<and>
    (\<not> established ob \<longrightarrow> fst t Stage0 = Fail)"
  using assms by (cases s) (auto simp: eval_establishment_def Let_def split: option.splits if_splits)

lemma eval_tier_column_result:
  assumes "eval_tier_column ex ob f k obs s = Inr t"
  shows "(snd t = [] \<longleftrightarrow> snd s = [] \<and> (rget ex f = JNull \<or>
      (\<exists>xs. py_iter (rget ex f) = Inr xs \<and> k \<notin> set (ob_absent ob) \<and>
         py_eqs xs (map JStr (case obs of None \<Rightarrow> [] | Some ts \<Rightarrow> ts))))) \<and>
    (\<forall>g. g \<noteq> StageTier \<longrightarrow> fst t g = fst s g)"
proof (cases "rget ex f = JNull")
  case False
  with assms obtain xs where xs: "py_iter (rget ex f) = Inr xs" by (auto simp: eval_tier_column_def Let_def rbind_eq_Inr)
  with assms False have "t = (if k \<in> set (ob_absent ob) then fail_at [StageTier] (TierNotEstablished f xs) s
      else if \<not> py_eqs xs (map JStr (case obs of None \<Rightarrow> [] | Some ts \<Rightarrow> ts))
      then fail_at [StageTier] (TierDiffers f (rget ex f) obs) s else s)" by (simp add: eval_tier_column_def Let_def)
  with xs False show ?thesis by simp
qed (use assms in \<open>simp add: eval_tier_column_def\<close>)

lemma tier_invariance_result:
  "(snd (eval_tier_result_invariance ob s) = [] \<longleftrightarrow> snd s = [] \<and>
      (ob_tiers_with ob = None \<or> ob_result ob = JNull \<or>
       (''result_without_key'' \<notin> set (ob_absent ob) \<and> py_eq (ob_result_without ob) (ob_result ob)))) \<and>
    (\<forall>g. g \<noteq> StageTier \<longrightarrow> fst (eval_tier_result_invariance ob s) g = fst s g)"
  by (auto simp: eval_tier_result_invariance_def)

text \<open>A tier column of the manifest is answered and equal, or not declared.\<close>

definition column_met :: "dict \<Rightarrow> observation \<Rightarrow> string \<Rightarrow> string \<Rightarrow> ustr list option \<Rightarrow> bool" where
  "column_met ex ob f k obs \<longleftrightarrow> rget ex f = JNull \<or>
     (\<exists>xs. py_iter (rget ex f) = Inr xs \<and> k \<notin> set (ob_absent ob) \<and>
        py_eqs xs (map JStr (case obs of None \<Rightarrow> [] | Some ts \<Rightarrow> ts)))"

definition accept_met :: "dict \<Rightarrow> observation \<Rightarrow> bool" where
  "accept_met ex ob \<longleftrightarrow> ob_verdict ob = valid_word \<and>
     (rget ex ''result'' = JNull \<or> py_eq (ob_result ob) (rget ex ''result'')) \<and>
     column_met ex ob ''tierWithPinnedKey'' ''tiers_with_key'' (ob_tiers_with ob) \<and>
     column_met ex ob ''tierWithoutKey'' ''tiers_without_key'' (ob_tiers_without ob) \<and>
     (ob_tiers_with ob = None \<or> ob_result ob = JNull \<or>
       (''result_without_key'' \<notin> set (ob_absent ob) \<and> py_eq (ob_result_without ob) (ob_result ob)))"

lemma eval_accept_result:
  assumes "eval_accept ex ob s = Inr t"
  shows "(snd t = [] \<longleftrightarrow> snd s = [] \<and> accept_met ex ob) \<and> (ob_verdict ob \<noteq> valid_word \<longrightarrow> fst t Stage0 = Fail)"
proof -
  define s1 where "s1 = (if ob_verdict ob \<noteq> valid_word then eval_refused ob (all_pass s) else all_pass s)"
  define s2 where "s2 = (if ob_verdict ob = valid_word \<and> rget ex ''result'' \<noteq> JNull \<and> \<not> py_eq (ob_result ob) (rget ex ''result'')
     then fail_at [StageRecompute] (ResultDiffers (rget ex ''result'') (ob_result ob)) s1 else s1)"
  from assms have "eval_accept_tiers ex ob s2 = Inr t"
    by (simp only: eval_accept_def Let_def s1_def s2_def)
  then obtain s3 s4 where 3: "eval_tier_column ex ob ''tierWithPinnedKey'' ''tiers_with_key'' (ob_tiers_with ob) s2 = Inr s3"
    and 4: "eval_tier_column ex ob ''tierWithoutKey'' ''tiers_without_key'' (ob_tiers_without ob) s3 = Inr s4"
    and t: "t = eval_tier_result_invariance ob s4"
    by (auto simp: eval_accept_tiers_def rbind_eq_Inr)
  have 2: "snd s2 = [] \<longleftrightarrow> snd s = [] \<and> ob_verdict ob = valid_word \<and>
      (rget ex ''result'' = JNull \<or> py_eq (ob_result ob) (rget ex ''result''))"
    "ob_verdict ob \<noteq> valid_word \<Longrightarrow> fst s2 Stage0 = Fail"
    by (auto simp: s2_def s1_def eval_refused_def)
  from eval_tier_column_result [OF 3] eval_tier_column_result [OF 4] tier_invariance_result [of ob s4] 2 show ?thesis
    unfolding t accept_met_def column_met_def by auto
qed

subsection \<open>Reject and indeterminate\<close>

lemma stage_hit_eq:
  "stage_hit obs cs g =
     (if list_ex (\<lambda>c. stage_of c = g) cs then Some (list_ex (\<lambda>c. stage_of c = g \<and> jin c (map JStr obs)) cs) else None)"
proof -
  have "foldl (stage_step obs) hit cs g =
     (if list_ex (\<lambda>c. stage_of c = g) cs
      then Some (hit g = Some True \<or> list_ex (\<lambda>c. stage_of c = g \<and> jin c (map JStr obs)) cs) else hit g)" for hit
  proof (induction cs arbitrary: hit)
    case (Cons c cs)
    then show ?case by (cases "stage_of c = g") (auto simp: stage_step_def list_ex_iff)
  qed simp
  then show ?thesis by (simp add: stage_hit_def)
qed

definition reject_met :: "json list \<Rightarrow> observation \<Rightarrow> string list option \<Rightarrow> bool" where
  "reject_met cs ob sc \<longleftrightarrow> ob_verdict ob = invalid_word \<and> \<not> emitted ob \<and> (sc = None \<or> sc = Some [])"

definition codes_met :: "json list \<Rightarrow> observation \<Rightarrow> bool" where
  "codes_met cs ob \<longleftrightarrow> cs = [] \<or> list_ex (\<lambda>c. jin c (map JStr (ob_codes ob))) cs"

lemma eval_reject_result:
  assumes "eval_reject ex ob sc s = Inr (t, parity)"
  obtains cs where "set_or_empty (rget ex ''codes'') = Inr cs"
    "snd t = [] \<longleftrightarrow> snd s = [] \<and> reject_met cs ob sc"
    "ob_verdict ob = invalid_word \<Longrightarrow> parity = [] \<longleftrightarrow> codes_met cs ob"
    "ob_verdict ob \<noteq> invalid_word \<Longrightarrow> fst t Stage0 = Fail"
proof -
  from assms obtain cs where cs: "set_or_empty (rget ex ''codes'') = Inr cs" by (auto simp: eval_reject_def rbind_eq_Inr)
  have sc: "(case sc of None \<Rightarrow> [] | Some fs \<Rightarrow> fs) = [] \<longleftrightarrow> sc = None \<or> sc = Some []" by (auto split: option.splits)
  show ?thesis
  proof (cases "ob_verdict ob = invalid_word")
    case True
    let ?st = "eval_reject_stages cs (ob_codes ob) (fst s, [])"
    from assms cs True have t: "t = eval_self_check sc (if emitted ob then fail_at [StageRecompute] InvalidEmitted (fst ?st, snd s)
        else (fst ?st, snd s))" and p: "parity = snd ?st"
      by (auto simp: eval_reject_def Let_def split: prod.splits)
    have "snd t = [] \<longleftrightarrow> snd s = [] \<and> reject_met cs ob sc" unfolding t reject_met_def using True sc by auto
    moreover have "parity = [] \<longleftrightarrow> codes_met cs ob" unfolding p codes_met_def eval_reject_stages_def by auto
    ultimately show ?thesis using True cs by (intro that) auto
  next
    case False
    with assms cs have t: "t = eval_self_check sc (fail_at [Stage0, Stage1, StageRecompute] ExpectedInvalid s)"
      by (simp add: eval_reject_def)
    with False cs show ?thesis by (intro that) (auto simp: reject_met_def)
  qed
qed

definition indeterminate_met :: "ustr list \<Rightarrow> observation \<Rightarrow> string list option \<Rightarrow> bool" where
  "indeterminate_met predicted ob sc \<longleftrightarrow> ob_verdict ob = invalid_word \<and>
     (predicted = [] \<or> set predicted \<inter> set (ob_codes ob) \<noteq> {}) \<and> \<not> emitted ob \<and> (sc = None \<or> sc = Some [])"

lemma eval_indeterminate_result:
  assumes "eval_indeterminate R ex ob sc s = Inr t"
  obtains predicted where "predicted_codes R ex = Inr predicted"
    "snd t = [] \<longleftrightarrow> snd s = [] \<and> indeterminate_met predicted ob sc"
    "ob_verdict ob \<noteq> invalid_word \<Longrightarrow> fst t Stage0 = Fail"
proof -
  from assms obtain pr where p: "predicted_codes R ex = Inr pr" by (auto simp: eval_indeterminate_def rbind_eq_Inr)
  have sc: "(case sc of None \<Rightarrow> [] | Some fs \<Rightarrow> fs) = [] \<longleftrightarrow> sc = None \<or> sc = Some []" by (auto split: option.splits)
  show ?thesis
  proof (cases "ob_verdict ob = invalid_word")
    case True
    let ?s = "if pr \<noteq> [] \<and> set pr \<inter> set (ob_codes ob) = {}
      then fail_at [Stage0] (NoDeclaredReading pr (ob_codes ob)) (set_gate Stage0 Pass s) else set_gate Stage0 Pass s"
    from assms p True have t: "t = eval_self_check sc (if emitted ob then fail_at [StageRecompute] InvalidEmitted ?s else ?s)"
      by (simp add: eval_indeterminate_def Let_def)
    have "snd ?s = [] \<longleftrightarrow> snd s = [] \<and> (pr = [] \<or> set pr \<inter> set (ob_codes ob) \<noteq> {})" by simp
    moreover have "snd t = [] \<longleftrightarrow> snd ?s = [] \<and> \<not> emitted ob \<and> (sc = None \<or> sc = Some [])"
      unfolding t using sc by (cases "emitted ob") simp_all
    ultimately show ?thesis using True by (intro that [OF p]) (auto simp: indeterminate_met_def)
  next
    case False
    with assms p have t: "t = eval_self_check sc (fail_at [Stage0, Stage1, StageRecompute] ExpectedInvalid s)"
      by (simp add: eval_indeterminate_def Let_def)
    with False show ?thesis by (intro that [OF p]) (auto simp: indeterminate_met_def)
  qed
qed

subsection \<open>One vector\<close>

definition observed_ok :: "ustr \<Rightarrow> dict \<Rightarrow> observation \<Rightarrow> bool" where
  "observed_ok k ex ob \<longleftrightarrow> ob_errors ob = [] \<and> established ob \<and>
     (ob_verdict_without ob = None \<or> ob_verdict_without ob = Some (ob_verdict ob)) \<and>
     JStr (ob_verdict ob) = expected_verdict k ex"

lemma evaluation_result:
  assumes "evaluate_vector_detailed R k entry ob sc = Inr ev"
  obtains ex where "entry_expected entry = Inr ex"
    "k = lit ''accept'' \<Longrightarrow> ev_ok ev \<longleftrightarrow> observed_ok k ex ob \<and> accept_met ex ob"
    "k = lit ''indeterminate'' \<Longrightarrow> \<exists>pr. predicted_codes R ex = Inr pr \<and> (ev_ok ev \<longleftrightarrow> observed_ok k ex ob \<and> indeterminate_met pr ob sc)"
    "k \<noteq> lit ''accept'' \<Longrightarrow> k \<noteq> lit ''indeterminate'' \<Longrightarrow> \<exists>cs. set_or_empty (rget ex ''codes'') = Inr cs \<and>
       (ev_ok ev \<longleftrightarrow> observed_ok k ex ob \<and> reject_met cs ob sc \<and> codes_met cs ob)"
    "\<not> established ob \<Longrightarrow> ev_gates ev Stage0 = Fail"
proof -
  from assms obtain ex where ex: "entry_expected entry = Inr ex"
    unfolding evaluate_vector_detailed_def by (elim rbind_InrE) auto
  let ?want = "expected_verdict k ex"
  obtain est s0 where e: "eval_establishment ob ?want (no_gates, []) = (est, s0)" by (metis surj_pair)
  note es = establishment_simps [OF e]
  define s1 where "s1 = (if est \<and> JStr (ob_verdict ob) \<noteq> ?want then (fst s0, snd s0 @ [VerdictDiffers ?want (ob_verdict ob)]) else s0)"
  have s1: "snd s1 = [] \<longleftrightarrow> observed_ok k ex ob" using es by (auto simp: s1_def observed_ok_def)
  note run = assms [unfolded evaluate_vector_detailed_def ex rbind.simps Let_def e prod.case, folded s1_def]
  from run obtain tp where
    r': "(if k = lit ''accept'' then rbind (eval_accept ex ob s1) (\<lambda>s. Inr (s, []))
              else if k = lit ''indeterminate'' then rbind (eval_indeterminate R ex ob sc s1) (\<lambda>s. Inr (s, []))
              else eval_reject ex ob sc s1) = Inr tp"
    and ev': "(case tp of (s, parity) \<Rightarrow> Inr \<lparr>ev_ok = (snd s = [] \<and> parity = []), ev_gates = fst s, ev_reasons = snd s,
        ev_parity = parity\<rparr>) = (Inr ev :: evaluation res)"
    by (rule rbind_InrE)
  obtain t parity where tp: "tp = (t, parity)" by (cases tp)
  note r = r' [unfolded tp]
  have ev: "ev = \<lparr>ev_ok = (snd t = [] \<and> parity = []), ev_gates = fst t, ev_reasons = snd t, ev_parity = parity\<rparr>"
    using ev' [unfolded tp] by simp
  consider (a) "k = lit ''accept''" | (i) "k = lit ''indeterminate''" | (n) "k \<noteq> lit ''accept''" "k \<noteq> lit ''indeterminate''"
    by blast
  then show ?thesis
  proof cases
    case a
    with r have "eval_accept ex ob s1 = Inr t" "parity = []" by (auto elim: rbind_InrE)
    with eval_accept_result [of ex ob s1 t] s1 ev a show ?thesis
      by (intro that [OF ex]) (auto simp: established_def)
  next
    case i
    with r have e': "eval_indeterminate R ex ob sc s1 = Inr t" and p: "parity = []" by (auto elim: rbind_InrE)
    from e' obtain pr where "predicted_codes R ex = Inr pr" "snd t = [] \<longleftrightarrow> snd s1 = [] \<and> indeterminate_met pr ob sc"
      "ob_verdict ob \<noteq> invalid_word \<Longrightarrow> fst t Stage0 = Fail" by (rule eval_indeterminate_result) blast
    with s1 ev i p show ?thesis by (intro that [OF ex]) (auto simp: established_def)
  next
    case n
    with r have "eval_reject ex ob sc s1 = Inr (t, parity)" by simp
    then obtain cs where cs: "set_or_empty (rget ex ''codes'') = Inr cs"
      and t: "snd t = [] \<longleftrightarrow> snd s1 = [] \<and> reject_met cs ob sc"
      and p: "ob_verdict ob = invalid_word \<Longrightarrow> parity = [] \<longleftrightarrow> codes_met cs ob"
      and g: "ob_verdict ob \<noteq> invalid_word \<Longrightarrow> fst t Stage0 = Fail" by (rule eval_reject_result) blast
    have "ev_ok ev \<longleftrightarrow> observed_ok k ex ob \<and> reject_met cs ob sc \<and> codes_met cs ob"
      using t p s1 unfolding ev reject_met_def by auto
    with cs g n ev show ?thesis by (intro that [OF ex]) (simp_all add: established_def)
  qed
qed

subsection \<open>External invocations\<close>

text \<open>An invocation that produced no usable report carries an error and the verdict \<open>error\<close>.\<close>

lemma run_external_failed:
  assumes "run_external pr keyed = Inr x" "ex_errors x = []"
  shows "\<exists>status out. pr = ProcDone status out \<and> nonblank_lines (utf8_replace out) \<noteq> [] \<and>
    (\<exists>parsed. json_loads_default (last (nonblank_lines (utf8_replace out))) = Inr (JObj parsed) \<and>
       member_type_errors parsed = [] \<and> ex_absent x = absent_members parsed \<and>
       (ex_verdict x = (if status = 0 then valid_word else invalid_word) \<or>
        keyed \<and> rget parsed ''verdict'' = JStr (ex_verdict x)))"
proof -
  from assms obtain status out where pr: "pr = ProcDone status out"
    by (auto simp: run_external_def external_failure_def split: proc_result.splits)
  with assms have p: "parse_external status out keyed = Inr x" by (simp add: run_external_def)
  from p assms(2) have n: "nonblank_lines (utf8_replace out) \<noteq> []"
    by (auto simp: parse_external_def Let_def external_failure_def)
  from p assms(2) n obtain parsed where j: "json_loads_default (last (nonblank_lines (utf8_replace out))) = Inr (JObj parsed)"
    by (auto simp: parse_external_def Let_def external_failure_def split: sum.splits exn.splits json.splits)
  from p assms(2) n j have m: "member_type_errors parsed = []"
    and x: "x = external_record parsed (if status = 0 then valid_word else invalid_word) keyed"
    by (auto simp: parse_external_def Let_def external_failure_def split: if_splits)
  have "ex_absent x = absent_members parsed \<and>
       (ex_verdict x = (if status = 0 then valid_word else invalid_word) \<or>
        keyed \<and> rget parsed ''verdict'' = JStr (ex_verdict x))"
  proof (cases "rget parsed ''verdict''")
    case (JStr w)
    with x assms(2) show ?thesis
      by (auto simp: external_record_def opt_of_str_def external_failure_def split: if_splits)
  qed (use x in \<open>simp_all add: external_record_def opt_of_str_def\<close>)
  with pr n j m show ?thesis by blast
qed

lemma observe_external_errors:
  assumes "observe_external p q = Inr ob" "ob_errors ob = []"
  obtains w n where "run_external p True = Inr w" "ex_errors w = []" "run_external q False = Inr n" "ex_errors n = []"
    "ob_verdict ob = ex_verdict w" "ob_verdict_without ob = Some (ex_verdict n)"
  using assms by (auto simp: observe_external_def rbind_eq_Inr)

subsection \<open>The reference rail\<close>

lemma observe_reference_agrees:
  assumes "observe_reference R pinned stmt b = Inr ob"
  obtains ow where "verify R pinned stmt (Some b) = Inr ow" "ob_verdict ob = verdict ow"
    "ob_verdict_without ob = Some (ob_verdict ob)" "ob_codes ob = codes ow" "ob_result ob = out_result ow"
    "ob_result_without ob = out_result ow" "ob_tiers_with ob = tiers_with_key ow"
    "ob_tiers_without ob = tiers_without_key ow" "ob_errors ob = []"
proof -
  from assms obtain ow on where w: "verify R pinned stmt (Some b) = Inr ow" "verify R [] stmt (Some b) = Inr on"
    and ob: "ob_verdict ob = verdict ow" "ob_verdict_without ob = Some (verdict on)" "ob_codes ob = codes ow"
      "ob_result ob = out_result ow" "ob_result_without ob = out_result on" "ob_tiers_with ob = tiers_with_key ow"
      "ob_tiers_without ob = tiers_without_key on" "ob_errors ob = []"
    by (auto simp: observe_reference_def rbind_eq_Inr)
  from verify_unkeyed [OF w(1), of "[]"] w(2) have "unkeyed on = unkeyed ow" by simp
  then have "codes on = codes ow" "out_result on = out_result ow" "tiers_without_key on = tiers_without_key ow"
    by (simp_all add: unkeyed_eq)
  with w(1) ob that show ?thesis by (simp add: verdict_def)
qed

lemma verdict_words: "verdict out = valid_word \<longleftrightarrow> codes out = []" "verdict out = invalid_word \<longleftrightarrow> codes out \<noteq> []"
  by (simp_all add: verdict_def valid_word_def invalid_word_def)

end
