(* ===== verification/Closure_Laws.thy ===== *)
theory Closure_Laws
  imports Harness_Laws
begin

section \<open>What closure and an exit status of zero stand for\<close>

text \<open>
  A clean \<open>manifest_closure\<close> means that the vector files on disk are exactly the identifiers
  of the manifest; an exit status of zero means that every row passed and nothing was refused.
\<close>

subsection \<open>The index and its kinds\<close>

lemma distinct_index_row: "distinct (map fst ix) \<Longrightarrow> distinct (map fst (index_row ix e))"
  by (auto simp: index_row_def distinct_dset split: json.splits)

lemma distinct_manifest_index: "distinct (map fst (manifest_index m))"
proof -
  have "distinct (map fst ix) \<Longrightarrow> distinct (map fst (foldl index_row ix es))" for ix es
    by (induction es arbitrary: ix) (simp_all add: distinct_index_row)
  moreover have "distinct (map fst ix) \<Longrightarrow>
      distinct (map fst (foldl (\<lambda>ix e. if is_obj (snd e) then dset ix (fst e) (snd e) else ix) ix vs))" for ix and vs :: dict
    by (induction vs arbitrary: ix) (simp_all add: distinct_dset)
  ultimately show ?thesis by (simp add: manifest_index_def split: option.split json.split)
qed

lemma total_rows_simps [simp]: "total_rows [] = 0" "total_rows ((k, vs) # l) = length vs + total_rows l"
  by (simp_all add: total_rows_def)

lemma total_add_listed: "total_rows (add_listed l k v) = Suc (total_rows l)"
  by (induction l k v rule: add_listed.induct) auto

definition listed_ids :: "(ustr \<times> ustr list) list \<Rightarrow> ustr set" where
  "listed_ids l = (\<Union>e \<in> set l. set (snd e))"

lemma ids_add_listed: "listed_ids (add_listed l k v) = insert v (listed_ids l)"
  by (induction l k v rule: add_listed.induct) (auto simp: listed_ids_def)

lemma kinds_fold:
  "total_rows (foldl (\<lambda>l e. add_listed l (row_kind (snd e)) (fst e)) l ix) = total_rows l + length ix \<and>
   listed_ids (foldl (\<lambda>l e. add_listed l (row_kind (snd e)) (fst e)) l ix) = listed_ids l \<union> fst ` set ix"
  by (induction ix arbitrary: l) (auto simp: total_add_listed ids_add_listed)

lemma manifest_kinds_ids: "listed_ids (manifest_kinds ix) = fst ` set ix"
proof -
  have "listed_ids (map (\<lambda>(k, vs). (k, sort vs)) l) = listed_ids l" for l :: "(ustr \<times> ustr list) list"
    by (auto simp: listed_ids_def)
  with kinds_fold [of "[]" ix] show ?thesis by (simp add: manifest_kinds_def listed_ids_def)
qed

lemma manifest_kinds_total: "total_rows (manifest_kinds ix) = length ix"
proof -
  have "total_rows (map (\<lambda>(k, vs). (k, sort vs)) l) = total_rows l" for l :: "(ustr \<times> ustr list) list"
    by (induction l) auto
  with kinds_fold [of "[]" ix] show ?thesis by (simp add: manifest_kinds_def)
qed

lemma set_sorted_kinds [simp]: "set (sorted_kinds l) = fst ` set l"
  by (simp add: sorted_kinds_def)

subsection \<open>A clean closure\<close>

lemma closure_stages:
  assumes "manifest_closure t m ix = Inr (fs, unl)"
  obtains flat c where "flat_layout ix = Inr flat"
    "unl = map (\<lambda>vid. (vid, flat)) (unlisted_ids t (manifest_kinds ix) flat)"
    "set (map (FileUnlisted flat) (unlisted_ids t (manifest_kinds ix) flat)) \<subseteq> set fs"
    "fs = [] \<Longrightarrow> rget m ''counts'' = JObj c \<and> counts_against_rows t c (manifest_kinds ix) flat = [] \<and>
       closure_kind_coverage (manifest_kinds ix) = [] \<and> fst (closure_flat t ix (manifest_kinds ix) flat) = []"
proof -
  let ?l = "manifest_kinds ix"
  from assms obtain ds cs fs1 where b: "closure_both_directions t ix ?l = Inr (fs1, unl)"
    and cs: "closure_counts t (rget m ''counts'') ?l ix = Inr cs"
    and fs: "fs = closure_kind_coverage ?l @ fs1 @ ds @ cs"
    unfolding manifest_closure_def Let_def by (auto elim!: rbind_InrE split: prod.splits)
  from b obtain flat where f: "flat_layout ix = Inr flat" "closure_flat t ix ?l flat = (fs1, unl)"
    by (auto simp: closure_both_directions_def elim!: rbind_InrE)
  have "rget m ''counts'' = JObj (the_obj (rget m ''counts'')) \<and>
      counts_against_rows t (the_obj (rget m ''counts'')) ?l flat = []" if "fs = []"
    using that cs f(1) by (cases "rget m ''counts''") (auto simp: fs closure_counts_def)
  moreover have "unl = map (\<lambda>vid. (vid, flat)) (unlisted_ids t ?l flat)"
    "fs1 = concat (map (\<lambda>k. concat (map (row_file_fault t ix) (listed_of ?l k))) (scored_kinds ?l)) @
        map (FileUnlisted flat) (unlisted_ids t ?l flat)"
    using f(2) by (simp_all add: closure_flat_def)
  ultimately show ?thesis using f fs by (intro that [of flat "the_obj (rget m ''counts'')"]) auto
qed

lemma closure_clean:
  assumes "manifest_closure t m ix = Inr ([], unl)" "flat_layout ix = Inr flat" "distinct (map fst ix)"
    and "distinct (vector_files_in t flat)"
  shows "set (vector_files_in t flat) = fst ` set ix \<and>
    (\<forall>k \<in> set (sorted_kinds (manifest_kinds ix)). k \<in> set replayed_kinds \<and>
       (\<forall>vid \<in> set (listed_of (manifest_kinds ix) k). row_file_fault t ix vid = []) \<and>
       count_fault (the_obj (rget m ''counts'')) (manifest_kinds ix) k = []) \<and>
    (\<forall>k \<in> set replayed_kinds. listed_of (manifest_kinds ix) k \<noteq> [])"
proof -
  let ?l = "manifest_kinds ix" and ?files = "vector_files_in t flat"
  from closure_stages [OF assms(1)] assms(2) obtain c where un: "unlisted_ids t ?l flat = []"
    and c: "rget m ''counts'' = JObj c" "counts_against_rows t c ?l flat = []" "closure_kind_coverage ?l = []"
      "fst (closure_flat t ix ?l flat) = []" by auto
  from un have "set ?files \<subseteq> listed_ids ?l"
    by (auto simp: unlisted_ids_def held_in_def filter_empty_conv list_ex_iff listed_ids_def)
  moreover have "length ?files = length ix"
    using c(2) by (auto simp: counts_against_rows_def Let_def manifest_kinds_total split: if_splits)
  moreover have "card (set ?files) = length ?files" "card (fst ` set ix) = length ix"
    using assms(3,4) by (simp_all add: distinct_card distinct_card [of "map fst ix", simplified])
  ultimately have ids: "set ?files = fst ` set ix"
    by (intro card_subset_eq) (simp_all add: manifest_kinds_ids)
  have k: "set (sorted_kinds ?l) \<subseteq> set replayed_kinds" "\<forall>k \<in> set replayed_kinds. listed_of ?l k \<noteq> []"
    using c(3) by (auto simp: closure_kind_coverage_def filter_empty_conv)
  then have "set (scored_kinds ?l) = set (sorted_kinds ?l)" by (auto simp: scored_kinds_def)
  moreover have "\<forall>k \<in> set (scored_kinds ?l). (\<forall>vid \<in> set (listed_of ?l k). row_file_fault t ix vid = []) \<and> count_fault c ?l k = []"
    using c(2,4) by (simp add: closure_flat_def counts_against_rows_def)
  ultimately show ?thesis using ids k c(1) by auto
qed

subsection \<open>Rows the closure writes on\<close>

lemma flat_not_kind: "flat_layout ix = Inr flat \<Longrightarrow> flat \<notin> set replayed_kinds"
  by (auto simp: flat_layout_def elim!: rbind_InrE split: list.splits if_splits)

lemma map_of_const: "map_of (map (\<lambda>v. (v, c)) vs) k = Some x \<Longrightarrow> x = c"
  by (induction vs) (auto split: if_splits)

lemma rmap_id: "(\<And>x. x \<in> set xs \<Longrightarrow> f x = Inr x) \<Longrightarrow> rmap f xs = Inr xs"
  using rmap_total [of xs f id] by simp

lemma closure_rows_unchanged:
  assumes "run_manifest_closure t m ix rows = Inr (fs, rows')"
    and "fs = [] \<or> list_all (\<lambda>r. rw_kind r \<in> set replayed_kinds) rows"
  shows "rows' = rows"
proof (cases m)
  case (Some d)
  let ?mark = "\<lambda>unl r. if map_of unl (rw_id r) = Some (rw_kind r) then fail_row [NoManifestRow] r else Inr r"
  from assms(1) Some obtain unl where c: "manifest_closure t d ix = Inr (fs, unl)" and r: "rmap (?mark unl) rows = Inr rows'"
    unfolding run_manifest_closure_def option.case by (auto elim!: rbind_InrE split: prod.splits)
  from c obtain flat where f: "flat_layout ix = Inr flat" "unl = map (\<lambda>vid. (vid, flat)) (unlisted_ids t (manifest_kinds ix) flat)"
    "set (map (FileUnlisted flat) (unlisted_ids t (manifest_kinds ix) flat)) \<subseteq> set fs" by (rule closure_stages) blast
  have "?mark unl r = Inr r" if "r \<in> set rows" for r
  proof (rule if_not_P, rule notI)
    assume h: "map_of unl (rw_id r) = Some (rw_kind r)"
    then have "fs \<noteq> []" using f(2,3) by auto
    with assms(2) that have "rw_kind r \<in> set replayed_kinds" by (auto simp: list_all_iff)
    moreover from h have "rw_kind r = flat" unfolding f(2) by (rule map_of_const)
    ultimately show False using flat_not_kind [OF f(1)] by simp
  qed
  with rmap_id [of rows "?mark unl"] r show ?thesis by simp
qed (use assms in \<open>simp add: run_manifest_closure_def\<close>)

subsection \<open>The exit status\<close>

lemma count_zero: "count p xs = 0 \<longleftrightarrow> list_all (\<lambda>x. \<not> p x) xs"
  by (simp add: count_def filter_empty_conv list_all_iff)

lemma fail_row_fails: "fail_row rs r = Inr r' \<Longrightarrow> \<not> rw_pass r'"
  by (auto simp: fail_row_def split: option.splits)

lemma mark_incoherent_pass:
  "mark_incoherent fams rows = Inr rows' \<Longrightarrow> list_all rw_pass rows' \<Longrightarrow> list_all rw_pass rows"
  by (auto simp: mark_incoherent_def rmap_eq_Inr list_all2_conv_all_nth list_all_length
      split: if_splits dest: fail_row_fails) (metis fail_row_fails sum.inject(2))

lemma exit_zero:
  assumes "run_suite R pinned rl t m = Inr (Reported su)"
  obtains vectors rows where "discover_vectors R m = Inr vectors"
    "rmap (process_vector R pinned rl t (manifest_index m)) vectors = Inr rows"
    "su_exit su = 0 \<longleftrightarrow> su_refusals su = [] \<and> su_incoherent su = [] \<and> list_all rw_pass rows"
    "su_exit su = 0 \<Longrightarrow> su_rows su = rows"
proof -
  let ?ix = "manifest_index m"
  from assms obtain vectors where v: "discover_vectors R m = Inr vectors"
    unfolding run_suite_def Let_def by (auto elim!: rbind_InrE split: if_splits)
  note s0 = assms [unfolded run_suite_def Let_def v rbind.simps]
  from s0 obtain rows where r: "rmap (process_vector R pinned rl t ?ix) vectors = Inr rows"
    by (auto elim!: rbind_InrE split: if_splits)
  note s1 = s0 [unfolded r rbind.simps]
  from s1 obtain fs rows1 where c: "run_manifest_closure t m ?ix rows = Inr (fs, rows1)"
    by (auto elim!: rbind_InrE split: if_splits)
  note s2 = s1 [unfolded c rbind.simps prod.case]
  from s2 obtain inc where i: "family_coherence_failures R ?ix rows1 = Inr inc"
    by (auto elim!: rbind_InrE split: if_splits)
  note s3 = s2 [unfolded i rbind.simps]
  from s3 obtain rows2 where k: "mark_incoherent inc rows1 = Inr rows2"
    by (auto elim!: rbind_InrE split: if_splits)
  from s3 k have su: "su = finish_run (count (\<lambda>r. \<not> rw_pass r) rows) fs inc rows2"
    by (auto split: if_splits)
  have "su_exit su = 0 \<longleftrightarrow> fs = [] \<and> inc = [] \<and> list_all rw_pass rows"
    unfolding su finish_run_def Let_def using count_zero [of "\<lambda>r. \<not> rw_pass r" rows] by auto
  moreover have "su_rows su = rows" if "fs = []" "inc = []"
    using closure_rows_unchanged [OF c] k that unfolding su by (simp add: finish_run_def Let_def mark_incoherent_def)
  moreover have "su_refusals su = fs" "su_incoherent su = inc" unfolding su by (simp_all add: finish_run_def Let_def)
  ultimately show ?thesis using v r that by auto
qed

end
