(* ===== verification/Suite_Properties.thy ===== *)
theory Suite_Properties
  imports Closure_Laws Examples
begin

section \<open>Properties of the suite\<close>

text \<open>
  What the conformance suite promises about the rails it runs and the corpus it indexes, and
  four places where it does not keep the promise its own text makes.
\<close>

subsection \<open>Scoring\<close>

text \<open>C27: a vector whose verdict the rail never established does not pass, whatever else was
  reported, and its first gate is marked as failed.\<close>

theorem unestablished_never_passes:
  assumes "evaluate_vector_detailed R k entry ob sc = Inr ev" "\<not> established ob"
  shows "\<not> ev_ok ev \<and> ev_gates ev Stage0 = Fail"
  using assms by (elim evaluation_result) (auto simp: observed_ok_def)

definition silent_observation :: observation where
  "silent_observation =
     \<lparr>ob_verdict = error_word, ob_verdict_without = Some error_word, ob_codes = [], ob_primary = None, ob_result = JNull,
      ob_tiers_with = None, ob_tiers_without = None, ob_result_without = JNull, ob_absent = [], ob_errors = []\<rparr>"

lemma silent_evaluated:
  "case evaluate_vector_detailed toy (lit ''reject'') None silent_observation None of Inr ev \<Rightarrow> \<not> ev_ok ev | _ \<Rightarrow> False"
  by code_simp

theorem unestablished_never_passes_witness:
  "\<exists>ev. evaluate_vector_detailed toy (lit ''reject'') None silent_observation None = Inr ev \<and> ev_gates ev Stage0 = Fail"
proof -
  obtain ev where e: "evaluate_vector_detailed toy (lit ''reject'') None silent_observation None = Inr ev"
    using silent_evaluated by (auto split: sum.splits)
  moreover have "\<not> established silent_observation"
    by (simp add: established_def silent_observation_def error_word_def valid_word_def invalid_word_def)
  ultimately show ?thesis using unestablished_never_passes [OF e] by blast
qed

text \<open>C28: an accept vector passes exactly when no invocation failed, both passes gave the
  declared verdict, it is \<open>valid\<close>, the declared result and every declared tier column were
  answered and equal, and the key-free pass gave the same result.\<close>

theorem accept_passes_iff:
  assumes "evaluate_vector_detailed R (lit ''accept'') entry ob sc = Inr ev" "entry_expected entry = Inr ex"
  shows "ev_ok ev \<longleftrightarrow> observed_ok (lit ''accept'') ex ob \<and> accept_met ex ob"
  using assms(1)
proof (rule evaluation_result)
  fix ex'
  assume "entry_expected entry = Inr ex'"
    and "lit ''accept'' = lit ''accept'' \<Longrightarrow> ev_ok ev \<longleftrightarrow> observed_ok (lit ''accept'') ex' ob \<and> accept_met ex' ob"
  with assms(2) show ?thesis by simp
qed

definition accept_entry :: dict where
  "accept_entry = the_obj (obj [(''kind'', str ''accept''), (''expected'',
     obj [(''verdict'', str ''valid''), (''result'', str ''pass''), (''tierWithPinnedKey'', JArr [str ''attested''])])])"

definition tier_silent :: observation where
  "tier_silent = \<lparr>ob_verdict = valid_word, ob_verdict_without = Some valid_word, ob_codes = [], ob_primary = None,
     ob_result = str ''pass'', ob_tiers_with = None, ob_tiers_without = None, ob_result_without = str ''pass'',
     ob_absent = [''tiers_with_key''], ob_errors = []\<rparr>"

lemma tier_silent_evaluated:
  "case evaluate_vector_detailed toy (lit ''accept'') (Some accept_entry) tier_silent None of Inr ev \<Rightarrow> \<not> ev_ok ev | _ \<Rightarrow> False"
  by code_simp

theorem accept_passes_iff_witness:
  "\<exists>ev. evaluate_vector_detailed toy (lit ''accept'') (Some accept_entry) tier_silent None = Inr ev \<and> \<not> ev_ok ev"
proof -
  obtain ex where ex: "entry_expected (Some accept_entry) = Inr ex" "rget ex ''tierWithPinnedKey'' = JArr [str ''attested'']"
    by (simp add: entry_expected_def accept_entry_def obj_def rget_def dict_or_empty_def)
  obtain ev where e: "evaluate_vector_detailed toy (lit ''accept'') (Some accept_entry) tier_silent None = Inr ev"
    using tier_silent_evaluated by (auto split: sum.splits)
  have "\<not> accept_met ex tier_silent"
    using ex(2) by (simp add: accept_met_def column_met_def tier_silent_def py_iter_def)
  with accept_passes_iff [OF e ex(1)] e show ?thesis by blast
qed

text \<open>The stage marks of a reject vector depend on the sets of codes alone: two lists of
  expected codes with the same elements, in any order and with any repetition, give the same
  gates, so the marks do not depend on the iteration order of a set.\<close>

theorem stage_marks_order_free:
  assumes "set cs = set ds" "set obs = set seen"
  shows "fst (eval_reject_stages cs obs s) = fst (eval_reject_stages ds seen s)"
proof -
  have j: "jin c (map JStr obs) = jin c (map JStr seen)" for c using assms(2) by (simp add: jin_strs)
  have e: "list_ex p cs = list_ex p ds" for p using assms(1) by (simp add: list_ex_iff)
  have "cs = [] \<longleftrightarrow> ds = []" using assms(1) by auto
  moreover have "stage_hit obs cs = stage_hit seen ds" by (simp add: fun_eq_iff stage_hit_eq j e)
  ultimately show ?thesis by (simp add: eval_reject_stages_def)
qed

theorem stage_marks_order_free_witness:
  "fst (eval_reject_stages [str ''refs-empty'', str ''coverage-missing''] [lit ''refs-empty''] (no_gates, [])) =
   fst (eval_reject_stages [str ''coverage-missing'', str ''refs-empty''] [lit ''refs-empty''] (no_gates, []))"
  by (rule stage_marks_order_free) auto

text \<open>A command rail passes a vector only if both invocations ran to the end and wrote a last
  line that is a well-typed JSON object; a timeout, a command that cannot run, silence, broken
  JSON or a wrongly typed member fails the vector.\<close>

theorem failed_invocation_never_passes:
  assumes "observe_external p q = Inr ob" "evaluate_vector_detailed R k entry ob sc = Inr ev" "ev_ok ev"
  shows "\<exists>s1 o1 s2 o2 d1 d2. p = ProcDone s1 o1 \<and> q = ProcDone s2 o2 \<and>
    json_loads_default (last (nonblank_lines (utf8_replace o1))) = Inr (JObj d1) \<and> member_type_errors d1 = [] \<and>
    json_loads_default (last (nonblank_lines (utf8_replace o2))) = Inr (JObj d2) \<and> member_type_errors d2 = []"
proof -
  from assms(2,3) have "ob_errors ob = []"
    by (elim evaluation_result) (cases "k = lit ''accept''"; cases "k = lit ''indeterminate''"; auto simp: observed_ok_def)
  with assms(1) obtain w n where "run_external p True = Inr w" "ex_errors w = []" "run_external q False = Inr n" "ex_errors n = []"
    by (rule observe_external_errors)
  from run_external_failed [OF this(1,2)] run_external_failed [OF this(3,4)] show ?thesis by blast
qed

definition good_run :: proc_result where
  "good_run = ProcDone 1 (lit ''{\"codes\":[\"x\"]}'')"

lemma good_run_observed:
  "\<exists>ob ev. observe_external good_run good_run = Inr ob \<and>
     evaluate_vector_detailed toy (lit ''reject'') None ob None = Inr ev \<and> ev_ok ev"
proof -
  have "case observe_external good_run good_run of Inr ob \<Rightarrow>
      (case evaluate_vector_detailed toy (lit ''reject'') None ob None of Inr ev \<Rightarrow> ev_ok ev | _ \<Rightarrow> False) | _ \<Rightarrow> False"
    by code_simp
  then show ?thesis by (auto split: sum.splits)
qed

theorem failed_invocation_never_passes_witness:
  "\<exists>d. json_loads_default (last (nonblank_lines (utf8_replace (lit ''{\"codes\":[\"x\"]}'')))) = Inr (JObj d)"
proof -
  from good_run_observed obtain ob ev where "observe_external good_run good_run = Inr ob"
    "evaluate_vector_detailed toy (lit ''reject'') None ob None = Inr ev" "ev_ok ev" by blast
  from failed_invocation_never_passes [OF this] show ?thesis by (auto simp: good_run_def)
qed

text \<open>C29: a row of the reference rail that passes is what its kind says: the file loads, the
  verifier runs on it without an exception, and the verdict is valid for an accept vector and
  invalid for a reject or indeterminate one.\<close>

theorem passing_row_verified:
  assumes "process_vector R pinned ReferenceRail t ix (k, path) = Inr r" "rw_pass r"
  shows "\<exists>b stmt faithful ow. read_vector t path = Some b \<and> load_statement b = Inr (stmt, faithful) \<and>
    verify R pinned stmt (Some b) = Inr ow \<and> (codes ow = [] \<longleftrightarrow> k = lit ''accept'')"
proof -
  from assms obtain b where b: "read_vector t path = Some b"
    by (cases "read_vector t path") (auto simp: process_vector_def unreadable_row_def)
  note s0 = assms(1) [unfolded process_vector_def prod.case Let_def b option.case]
  from s0 obtain lf where l': "load_statement b = Inr lf" by (rule rbind_InrE)
  obtain stmt faithful where lf: "lf = (stmt, faithful)" by (cases lf)
  note l = l' [unfolded lf]
  note s1 = s0 [unfolded l rbind.simps prod.case]
  from s1 obtain ob where o: "run_observe R pinned ReferenceRail path stmt b = Inr ob" by (rule rbind_InrE)
  note s2 = s1 [unfolded o rbind.simps]
  from s2 obtain sc where c: "self_check R k (index_get ix (stem (base_name path))) stmt faithful = Inr sc" by (rule rbind_InrE)
  note s3 = s2 [unfolded c rbind.simps]
  from s3 obtain ev where e: "evaluate_vector_detailed R k (index_get ix (stem (base_name path))) ob sc = Inr ev"
    and r: "r = scored_row path k ob ev" by (auto elim: rbind_InrE)
  from o have "observe_reference R pinned stmt b = Inr ob" by (simp add: run_observe_def)
  then obtain ow where w: "verify R pinned stmt (Some b) = Inr ow" "ob_verdict ob = verdict ow"
    by (rule observe_reference_agrees)
  from r assms(2) have ok: "ev_ok ev" by (simp add: scored_row_def)
  from e have "ob_verdict ob = (if k = lit ''accept'' then valid_word else invalid_word)"
    by (rule evaluation_result)
      (use ok in \<open>cases "k = lit ''accept''"; cases "k = lit ''indeterminate''";
         auto simp: accept_met_def reject_met_def indeterminate_met_def\<close>)
  with w(2) verdict_words [of ow] have "codes ow = [] \<longleftrightarrow> k = lit ''accept''"
    by (auto simp: valid_word_def invalid_word_def split: if_splits)
  with b l w(1) show ?thesis by blast
qed

definition example_tree :: "ustr list \<Rightarrow> tree" where
  "example_tree files =
     \<lparr>t_isdir = (\<lambda>p. p = [] \<or> p = lit ''s''), t_isfile = (\<lambda>p. p \<in> (\<lambda>f. lit ''s/'' @ f) ` set files),
      t_listdir = (\<lambda>p. if p = [] then [lit ''s''] else files), t_read = (\<lambda>p. Some (lit ''{}''))\<rparr>"

lemma reject_row:
  "case process_vector toy [[1]] ReferenceRail (example_tree []) [] (lit ''reject'', lit ''s/a.json'') of
     Inr r \<Rightarrow> rw_pass r | _ \<Rightarrow> False"
  by code_simp

theorem passing_row_verified_witness:
  "\<exists>b stmt faithful ow. read_vector (example_tree []) (lit ''s/a.json'') = Some b \<and> load_statement b = Inr (stmt, faithful) \<and>
    verify toy [[1]] stmt (Some b) = Inr ow \<and> codes ow \<noteq> []"
proof -
  obtain r where r: "process_vector toy [[1]] ReferenceRail (example_tree []) [] (lit ''reject'', lit ''s/a.json'') = Inr r" "rw_pass r"
    using reject_row by (auto split: sum.splits)
  have "lit ''reject'' \<noteq> lit ''accept''" by simp
  with passing_row_verified [OF r] show ?thesis by metis
qed

subsection \<open>The run\<close>


definition vector_row :: "string \<Rightarrow> string \<Rightarrow> string \<Rightarrow> (string \<times> json) list \<Rightarrow> json" where
  "vector_row i k f ex = obj [(''id'', str i), (''kind'', str k), (''file'', str f), (''expected'', obj ex)]"

definition family_p :: "string \<Rightarrow> string \<Rightarrow> (string \<times> json) list" where
  "family_p x y = [(''family'', str ''f''), (''readings'', obj [(''p'', str x), (''q'', str y)])]"

definition counted :: "(string \<times> json) list" where
  "counted = [(''counts'', obj [(''accept'', JInt 1), (''indeterminate'', JInt 1), (''reject'', JInt 1)])]"

definition manifest_of :: "string \<Rightarrow> (string \<times> json) list \<Rightarrow> json list \<Rightarrow> dict" where
  "manifest_of reject_file counts more_rows =
     the_obj (obj ((''vectors'', JArr ([vector_row ''a'' ''accept'' ''s/a.json'' [], vector_row ''b'' ''reject'' reject_file [],
       vector_row ''c'' ''indeterminate'' ''s/c.json'' (family_p ''x'' ''y'')] @ more_rows)) # counts))"

definition abc :: "ustr list" where
  "abc = map lit [''a.json'', ''b.json'', ''c.json'']"

definition accepting_run :: proc_result where
  "accepting_run = ProcDone 0 (lit ''{}'')"

definition other_run :: proc_result where
  "other_run = ProcDone 1 (lit ''{\"codes\":[\"y\"]}'')"

definition example_rail :: rail where
  "example_rail = CommandRail (\<lambda>path.
     if path = lit ''s/a.json'' then (accepting_run, accepting_run)
     else if path = lit ''s/d.json'' then (other_run, other_run) else (good_run, good_run))"

definition reported :: "(suite_result \<Rightarrow> bool) \<Rightarrow> run_outcome res \<Rightarrow> bool" where
  "reported p r = (case r of Inr (Reported su) \<Rightarrow> p su | _ \<Rightarrow> False)"



text \<open>C30: when closure refuses nothing, the vector files in the one directory are exactly the
  identifiers of the manifest, every row is of a kind the suite scores and declares a file
  that exists, every scored kind has a row, and the declared counts are those of the rows.\<close>

theorem closure_exact:
  assumes "manifest_closure t m (manifest_index (Some m)) = Inr ([], unl)"
    and "flat_layout (manifest_index (Some m)) = Inr flat" "distinct (vector_files_in t flat)"
  shows "set (vector_files_in t flat) = fst ` set (manifest_index (Some m)) \<and>
    (\<forall>k \<in> set (sorted_kinds (manifest_kinds (manifest_index (Some m)))). k \<in> set replayed_kinds \<and>
       (\<forall>vid \<in> set (listed_of (manifest_kinds (manifest_index (Some m))) k). row_file_fault t (manifest_index (Some m)) vid = []) \<and>
       count_fault (the_obj (rget m ''counts'')) (manifest_kinds (manifest_index (Some m))) k = []) \<and>
    (\<forall>k \<in> set replayed_kinds. listed_of (manifest_kinds (manifest_index (Some m))) k \<noteq> [])"
  using closure_clean [OF assms(1,2) distinct_manifest_index assms(3)] .

lemma clean_closure:
  "manifest_closure (example_tree abc) (manifest_of ''s/b.json'' counted []) (manifest_index (Some (manifest_of ''s/b.json'' counted [])))
     = Inr ([], [])"
  "flat_layout (manifest_index (Some (manifest_of ''s/b.json'' counted []))) = Inr (lit ''s'')"
  "distinct (vector_files_in (example_tree abc) (lit ''s''))"
  by code_simp+

theorem closure_exact_witness:
  "set (vector_files_in (example_tree abc) (lit ''s'')) = fst ` set (manifest_index (Some (manifest_of ''s/b.json'' counted [])))"
  using closure_exact [OF clean_closure] by blast

subsection \<open>Where the suite's text and its code part\<close>


text \<open>The marking of unlisted rows is dead: on rows of the scored kinds it changes nothing,
  because it compares a row's kind with the name of the directory.\<close>

theorem unlisted_rows_never_marked:
  assumes "run_manifest_closure t m ix rows = Inr (fs, rows')" "list_all (\<lambda>r. rw_kind r \<in> set replayed_kinds) rows"
  shows "rows' = rows"
  using closure_rows_unchanged [OF assms(1)] assms(2) by blast

theorem unlisted_rows_never_marked_witness:
  "run_manifest_closure (example_tree abc) None [] [] = Inr ([], []) \<and> ([] :: row list) = []"
  using unlisted_rows_never_marked [of "example_tree abc" None "[]" "[]" "[]" "[]"]
  by (simp add: run_manifest_closure_def)

definition unreadable_tree :: "ustr list \<Rightarrow> tree" where
  "unreadable_tree files = (example_tree files)\<lparr>t_read := (\<lambda>p. if p = lit ''s/c.json'' then None else Some (lit ''{}''))\<rparr>"

text \<open>An indeterminate vector that cannot be read ends the run with a \<open>KeyError\<close> and no
  report, because its row has no conformance reasons to extend.\<close>

theorem unreadable_vector_crashes:
  "run_suite toy [] example_rail (unreadable_tree abc) (Some (manifest_of ''s/b.json'' counted [])) = Inl KeyError"
proof -
  have "(case run_suite toy [] example_rail (unreadable_tree abc) (Some (manifest_of ''s/b.json'' counted [])) of
      Inl KeyError \<Rightarrow> True | _ \<Rightarrow> False)" by code_simp
  then show ?thesis by (auto split: sum.splits exn.splits)
qed

text \<open>The totals can report no suite-level refusal beside one: with an incoherent family of
  two members the failing rows outnumber the failures, and the difference hides the refusal.\<close>

theorem totals_hide_refusal:
  "reported (\<lambda>su. su_refusals su = [CountsAbsent] \<and> tot_refusals (su_totals su) = 0)
     (run_suite toy [] example_rail (example_tree (abc @ [lit ''d.json'']))
        (Some (manifest_of ''s/b.json'' [] [vector_row ''d'' ''indeterminate'' ''s/d.json'' (family_p ''x'' ''y'')])))"
  by code_simp

end
