(* ===== verification/Inclusion_Proof.thy ===== *)
theory Inclusion_Proof
  imports Sha2
begin

section \<open>Audit paths and inclusion proofs\<close>

text \<open>
  The two sides of RFC 9162 that the SCITT suite writes down independently: the generator's
  tree hash and audit path (\<open>mth\<close>, \<open>inclusion_path\<close> of \<open>vectors-scitt-cose/gen_vectors.py\<close>),
  recursive over the entries, and the checker's verification
  (\<open>apply_inclusion_proof\<close> of \<open>vectors-scitt-cose/check_vectors.py\<close>), a loop over the bits of
  the leaf index.  The checker accepts what the generator makes, and nothing else up to a
  collision.
\<close>

subsection \<open>The generator\<close>

function mth :: "(bytes \<Rightarrow> bytes) \<Rightarrow> bytes list \<Rightarrow> bytes" where
  "mth H entries =
     (if entries = [] then H []
      else if length entries = 1 then H (0x00 # entries ! 0)
      else let k = grow_split 1 (length entries) in
        H (0x01 # mth H (take k entries) @ mth H (drop k entries)))"
  by pat_completeness auto
termination
proof (relation "measure (\<lambda>(H, xs). length xs)")
  fix H :: "bytes \<Rightarrow> bytes" and xs :: "bytes list" and k
  assume "xs \<noteq> []" "length xs \<noteq> 1" and k: "k = grow_split 1 (length xs)"
  then have "1 < length xs" by (cases xs) auto
  with split_point_bounds [of "length xs"] have "0 < k \<and> k < length xs" by (simp add: split_point_def k)
  then show "((H, take k xs), (H, xs)) \<in> measure (\<lambda>(H, xs). length xs)"
    "((H, drop k xs), (H, xs)) \<in> measure (\<lambda>(H, xs). length xs)" by auto
qed simp

declare mth.simps [simp del]

function inclusion_path :: "(bytes \<Rightarrow> bytes) \<Rightarrow> bytes list \<Rightarrow> int \<Rightarrow> bytes list" where
  "inclusion_path H entries index =
     (if length entries \<le> 1 then []
      else let k = grow_split 1 (length entries) in
        if index < int k then inclusion_path H (take k entries) index @ [mth H (drop k entries)]
        else inclusion_path H (drop k entries) (index - int k) @ [mth H (take k entries)])"
  by pat_completeness auto
termination
proof (relation "measure (\<lambda>(H, xs, i). length xs)")
  fix H :: "bytes \<Rightarrow> bytes" and xs :: "bytes list" and k and i :: int
  assume "\<not> length xs \<le> 1" and k: "k = grow_split 1 (length xs)"
  with split_point_bounds [of "length xs"] have "0 < k \<and> k < length xs" by (simp add: split_point_def k)
  then show "((H, take k xs, i), (H, xs, i)) \<in> measure (\<lambda>(H, xs, i). length xs)"
    "((H, drop k xs, i - int k), (H, xs, i)) \<in> measure (\<lambda>(H, xs, i). length xs)" by auto
qed simp

declare inclusion_path.simps [simp del]

subsection \<open>The checker\<close>

definition leaf_hash :: "(bytes \<Rightarrow> bytes) \<Rightarrow> bytes \<Rightarrow> bytes" where
  "leaf_hash H entry = H (0x00 # entry)"

text \<open>\<open>while not fn & 1 and fn != 0: fn >>= 1; sn >>= 1\<close>.\<close>

fun skip_levels :: "nat \<Rightarrow> nat \<Rightarrow> nat \<times> nat" where
  "skip_levels fn sn = (if even fn \<and> fn \<noteq> 0 then skip_levels (fn div 2) (sn div 2) else (fn, sn))"

declare skip_levels.simps [simp del]

text \<open>One iteration of the loop over the path; \<open>None\<close> is the early return.\<close>

definition proof_step :: "(bytes \<Rightarrow> bytes) \<Rightarrow> nat \<times> nat \<times> bytes \<Rightarrow> bytes \<Rightarrow> (nat \<times> nat \<times> bytes) option" where
  "proof_step H s sibling =
     (case s of (fn, sn, node) \<Rightarrow>
        if sn = 0 then None
        else if odd fn \<or> fn = sn then
          (case skip_levels fn sn of (fn', sn') \<Rightarrow> Some (fn' div 2, sn' div 2, H (0x01 # sibling @ node)))
        else Some (fn div 2, sn div 2, H (0x01 # node @ sibling)))"

fun proof_steps :: "(bytes \<Rightarrow> bytes) \<Rightarrow> nat \<times> nat \<times> bytes \<Rightarrow> bytes list \<Rightarrow> (nat \<times> nat \<times> bytes) option" where
  "proof_steps H s [] = Some s"
| "proof_steps H s (p # ps) = (case proof_step H s p of None \<Rightarrow> None | Some t \<Rightarrow> proof_steps H t ps)"

definition apply_inclusion_proof :: "(bytes \<Rightarrow> bytes) \<Rightarrow> bytes \<Rightarrow> int \<Rightarrow> int \<Rightarrow> bytes list \<Rightarrow> bytes option" where
  "apply_inclusion_proof H entry tree_size leaf_index path =
     (if tree_size \<le> 0 \<or> leaf_index < 0 \<or> leaf_index \<ge> tree_size then None
      else (case proof_steps H (nat leaf_index, nat (tree_size - 1), leaf_hash H entry) path of
              None \<Rightarrow> None
            | Some (fn, sn, node) \<Rightarrow> if sn = 0 then Some node else None))"

subsection \<open>The generator's tree is the reference verifier's\<close>

lemma mth_tree_hash: "entries \<noteq> [] \<Longrightarrow> mth H entries = tree_hash H entries"
proof (induction H entries rule: mth.induct)
  case (1 H xs)
  let ?k = "split_point (length xs)"
  show ?case
  proof (cases "length xs = 1")
    case True
    then obtain x where "xs = [x]" by (cases xs) auto
    then show ?thesis by (simp add: mth.simps tree_hash_leaf)
  next
    case False
    with \<open>xs \<noteq> []\<close> have n: "\<not> length xs \<le> 1" by (cases xs) auto
    with split_point_bounds [of "length xs"] have "take ?k xs \<noteq> []" "drop ?k xs \<noteq> []" by auto
    with 1 False n show ?thesis
      by (subst mth.simps, subst tree_hash.simps) (simp add: split_point_def Let_def)
  qed
qed

subsection \<open>Both sides meet\<close>

lemma proof_steps_append:
  "proof_steps H s (ps @ qs) = (case proof_steps H s ps of None \<Rightarrow> None | Some t \<Rightarrow> proof_steps H t qs)"
  by (induction ps arbitrary: s) (auto split: option.splits)

lemma skip_odd [simp]: "odd fn \<Longrightarrow> skip_levels fn sn = (fn, sn)"
  by (subst skip_levels.simps) simp

lemma skip_le: "fn \<le> sn \<Longrightarrow> fst (skip_levels fn sn) \<le> snd (skip_levels fn sn)"
proof (induction fn sn rule: skip_levels.induct)
  case (1 fn sn)
  then show ?case by (subst (1 2) skip_levels.simps) (auto intro: div_le_mono)
qed

text \<open>A power of two above both counters moves down with them.\<close>

lemma skip_offset:
  assumes "0 < fn" "fn < 2 ^ i"
  shows "\<exists>j. skip_levels (fn + 2 ^ i) (sn + 2 ^ i) = (fst (skip_levels fn sn) + 2 ^ j, snd (skip_levels fn sn) + 2 ^ j) \<and>
    fst (skip_levels fn sn) < 2 ^ j \<and> (sn < 2 ^ i \<longrightarrow> snd (skip_levels fn sn) < 2 ^ j) \<and> 0 < j \<and> 0 < fst (skip_levels fn sn)"
  using assms
proof (induction fn sn arbitrary: i rule: skip_levels.induct)
  case (1 fn sn)
  then have i: "0 < i" by (cases i) auto
  then obtain i' where i': "i = Suc i'" by (cases i) auto
  show ?case
  proof (cases "even fn")
    case False
    with i have "odd (fn + 2 ^ i)" by simp
    with False 1(2,3) i show ?thesis by auto
  next
    case True
    then have h: "0 < fn div 2" "fn div 2 < 2 ^ i'" using 1(2,3) i' by auto
    have "skip_levels (fn + 2 ^ i) (sn + 2 ^ i) = skip_levels (fn div 2 + 2 ^ i') (sn div 2 + 2 ^ i')"
      using True 1(2) i' by (subst skip_levels.simps) (simp add: add.commute)
    moreover have "skip_levels fn sn = skip_levels (fn div 2) (sn div 2)"
      using True 1(2) by (subst skip_levels.simps) simp
    moreover have "sn < 2 ^ i \<longrightarrow> sn div 2 < 2 ^ i'" using i' by auto
    ultimately show ?thesis using 1(1) [OF _ h] True 1(2) by auto
  qed
qed

text \<open>The loop on the right half of a tree is the loop on that half alone.\<close>

lemma steps_offset:
  assumes "proof_steps H (fn, sn, v) ps = Some (a, b, w)" "fn \<le> sn" "sn < 2 ^ i"
  shows "\<exists>j. proof_steps H (fn + 2 ^ i, sn + 2 ^ i, v) ps = Some (a + 2 ^ j, b + 2 ^ j, w) \<and> a \<le> b \<and> b < 2 ^ j"
  using assms
proof (induction ps arbitrary: fn sn v i)
  case Nil
  then show ?case by auto
next
  case (Cons p ps)
  from Cons.prems(1) have sn: "sn \<noteq> 0" by (cases "sn = 0") (simp_all add: proof_step_def)
  then obtain i' where i': "i = Suc i'" using Cons.prems(3) by (cases i) auto
  show ?case
  proof (cases "odd fn \<or> fn = sn")
    case True
    then have pos: "0 < fn" "fn < 2 ^ i" using sn Cons.prems(2,3) by (auto intro: Nat.gr0I)
    obtain f s where fs: "skip_levels fn sn = (f, s)" by fastforce
    have le: "f \<le> s" using skip_le [OF Cons.prems(2), unfolded fs] by simp
    from skip_offset [OF pos, of sn] fs Cons.prems(3) obtain j where
      j: "skip_levels (fn + 2 ^ i) (sn + 2 ^ i) = (f + 2 ^ j, s + 2 ^ j)" "s < 2 ^ j" "0 < j" by auto
    then obtain j' where j': "j = Suc j'" by (cases j) auto
    have "proof_step H (fn, sn, v) p = Some (f div 2, s div 2, H (0x01 # p @ v))"
      using True sn fs by (simp add: proof_step_def)
    with Cons.prems(1) have r: "proof_steps H (f div 2, s div 2, H (0x01 # p @ v)) ps = Some (a, b, w)" by simp
    have c: "f div 2 \<le> s div 2" "s div 2 < 2 ^ j'" using le j(2) j' by auto
    have "proof_step H (fn + 2 ^ i, sn + 2 ^ i, v) p = Some (f div 2 + 2 ^ j', s div 2 + 2 ^ j', H (0x01 # p @ v))"
      using True j i' j' by (auto simp: proof_step_def)
    with Cons.IH [OF r c] show ?thesis by simp
  next
    case False
    then have "proof_step H (fn, sn, v) p = Some (fn div 2, sn div 2, H (0x01 # v @ p))"
      using sn by (simp add: proof_step_def)
    with Cons.prems(1) have r: "proof_steps H (fn div 2, sn div 2, H (0x01 # v @ p)) ps = Some (a, b, w)" by simp
    have c: "fn div 2 \<le> sn div 2" "sn div 2 < 2 ^ i'" using Cons.prems(2,3) i' by auto
    have "proof_step H (fn + 2 ^ i, sn + 2 ^ i, v) p = Some (fn div 2 + 2 ^ i', sn div 2 + 2 ^ i', H (0x01 # v @ p))"
      using False i' by (simp add: proof_step_def)
    with Cons.IH [OF r c] show ?thesis by simp
  qed
qed

text \<open>On the full left half, below a larger tree, the loop only shifts.\<close>

lemma steps_full:
  assumes "proof_steps H (fn, 2 ^ i - 1, v) ps = Some (a, 0, w)" "fn < 2 ^ i" "2 ^ i \<le> sn"
  shows "proof_steps H (fn, sn, v) ps = Some (0, sn div 2 ^ i, w)"
  using assms
proof (induction ps arbitrary: fn v i sn)
  case Nil
  from Nil.prems(1) have "(2::nat) ^ i - 1 = 0" by simp
  moreover have "0 < (2::nat) ^ i" by simp
  ultimately have "(2::nat) ^ i = 1" by linarith
  with Nil show ?case by auto
next
  case (Cons p ps)
  from Cons.prems(1) have "(2::nat) ^ i - 1 \<noteq> 0" by (cases "(2::nat) ^ i - 1 = 0") (simp_all add: proof_step_def)
  then obtain i' where i': "i = Suc i'" by (cases i) auto
  let ?n = "if odd fn then H (0x01 # p @ v) else H (0x01 # v @ p)"
  have o: "odd (2 ^ i - 1 :: nat)" using i' by simp
  have d: "(2 ^ i - 1) div 2 = (2 ^ i' - 1 :: nat)" using i' by simp
  have "proof_step H (fn, 2 ^ i - 1, v) p = Some (fn div 2, 2 ^ i' - 1, ?n)"
    using o d \<open>2 ^ i - 1 \<noteq> 0\<close> by (auto simp: proof_step_def)
  with Cons.prems(1) have r: "proof_steps H (fn div 2, 2 ^ i' - 1, ?n) ps = Some (a, 0, w)" by simp
  have "sn \<noteq> 0" "fn \<noteq> sn" using Cons.prems(2,3) by auto
  then have "proof_step H (fn, sn, v) p = Some (fn div 2, sn div 2, ?n)" by (auto simp: proof_step_def)
  moreover have "fn div 2 < 2 ^ i'" "2 ^ i' \<le> sn div 2" using Cons.prems(2,3) i' by auto
  ultimately show ?case using Cons.IH [OF r, of "sn div 2"] i' by (simp add: div_mult2_eq)
qed

text \<open>The audit path of an entry leads the checker from its leaf to the root.\<close>

lemma audit_path_steps:
  "i < length xs \<Longrightarrow>
   proof_steps H (i, length xs - 1, leaf_hash H (xs ! i)) (inclusion_path H xs (int i)) = Some (0, 0, tree_hash H xs)"
proof (induction "length xs" arbitrary: xs i rule: less_induct)
  case less
  let ?n = "length xs" and ?k = "split_point (length xs)"
  show ?case
  proof (cases "?n \<le> 1")
    case True
    with less.prems obtain x where "xs = [x]" "i = 0" by (cases xs) auto
    then show ?thesis by (simp add: inclusion_path.simps tree_hash_leaf leaf_hash_def)
  next
    case False
    then have k: "0 < ?k" "?k < ?n" "?n \<le> 2 * ?k" using split_point_bounds [of ?n] by auto
    obtain j where j: "?k = 2 ^ j" using split_point_power by blast
    let ?l = "take ?k xs" and ?r = "drop ?k xs"
    have ne: "?l \<noteq> []" "?r \<noteq> []" using k by auto
    have root: "tree_hash H xs = H (0x01 # tree_hash H ?l @ tree_hash H ?r)" using False by (subst tree_hash.simps) simp
    show ?thesis
    proof (cases "i < ?k")
      case True
      then have p: "inclusion_path H xs (int i) = inclusion_path H ?l (int i) @ [tree_hash H ?r]"
        using False mth_tree_hash [OF ne(2)] by (subst inclusion_path.simps) (simp add: split_point_def Let_def)
      have "proof_steps H (i, 2 ^ j - 1, leaf_hash H (xs ! i)) (inclusion_path H ?l (int i)) = Some (0, 0, tree_hash H ?l)"
        using less.hyps [of ?l i] k True j by simp
      from steps_full [OF this, of "?n - 1"] True k j
      have s: "proof_steps H (i, ?n - 1, leaf_hash H (xs ! i)) (inclusion_path H ?l (int i)) = Some (0, (?n - 1) div 2 ^ j, tree_hash H ?l)"
        by simp
      have "(?n - 1) div 2 ^ j = 1" using k j by (intro div_nat_eqI) auto
      with s show ?thesis unfolding p proof_steps_append root by (simp add: proof_step_def)
    next
      case False
      let ?i = "i - ?k"
      have i: "i = ?i + 2 ^ j" "?i < length ?r" using False less.prems j by auto
      have p: "inclusion_path H xs (int i) = inclusion_path H ?r (int ?i) @ [tree_hash H ?l]"
        using False \<open>\<not> ?n \<le> 1\<close> mth_tree_hash [OF ne(1)]
        by (subst inclusion_path.simps) (simp add: split_point_def Let_def of_nat_diff)
      have "proof_steps H (?i, length ?r - 1, leaf_hash H (xs ! i)) (inclusion_path H ?r (int ?i)) = Some (0, 0, tree_hash H ?r)"
        using less.hyps [of ?r ?i] k i False by simp
      moreover have "?i \<le> length ?r - 1" "length ?r - 1 < 2 ^ j" using i(2) k j by auto
      ultimately obtain m where
        s: "proof_steps H (?i + 2 ^ j, length ?r - 1 + 2 ^ j, leaf_hash H (xs ! i)) (inclusion_path H ?r (int ?i)) =
          Some (0 + 2 ^ m, 0 + 2 ^ m, tree_hash H ?r)" using steps_offset by blast
      have n: "length ?r - 1 + 2 ^ j = ?n - 1" using k j by simp
      have "skip_levels (2 ^ m) (2 ^ m) = (1, 1)"
        by (induction m) (subst skip_levels.simps, simp)+
      then have "proof_step H (2 ^ m, 2 ^ m, tree_hash H ?r) (tree_hash H ?l) = Some (0, 0, tree_hash H xs)"
        by (simp add: proof_step_def root)
      with s show ?thesis unfolding p proof_steps_append n i(1) [symmetric] add_0 by simp
    qed
  qed
qed

lemma audit_path_applies:
  assumes "i < length xs"
  shows "apply_inclusion_proof H (xs ! i) (int (length xs)) (int i) (inclusion_path H xs (int i)) = Some (tree_hash H xs)"
proof -
  have "nat (int (length xs) - 1) = length xs - 1" by simp
  with audit_path_steps [OF assms, of H] assms show ?thesis by (auto simp: apply_inclusion_proof_def)
qed

subsection \<open>What a proof binds\<close>

text \<open>Every string the checker hashes for a proof.\<close>

definition step_input :: "nat \<times> nat \<times> bytes \<Rightarrow> bytes \<Rightarrow> bytes" where
  "step_input s sibling =
     (case s of (fn, sn, node) \<Rightarrow> 0x01 # (if odd fn \<or> fn = sn then sibling @ node else node @ sibling))"

fun steps_inputs :: "(bytes \<Rightarrow> bytes) \<Rightarrow> nat \<times> nat \<times> bytes \<Rightarrow> bytes list \<Rightarrow> bytes list" where
  "steps_inputs H s [] = []"
| "steps_inputs H s (p # ps) =
     step_input s p # (case proof_step H s p of None \<Rightarrow> [] | Some t \<Rightarrow> steps_inputs H t ps)"

definition proof_inputs :: "(bytes \<Rightarrow> bytes) \<Rightarrow> bytes \<Rightarrow> int \<Rightarrow> int \<Rightarrow> bytes list \<Rightarrow> bytes list" where
  "proof_inputs H entry n i path = (0x00 # entry) # steps_inputs H (nat i, nat (n - 1), leaf_hash H entry) path"

lemma proof_step_input:
  "proof_step H (fn, sn, v) p = Some t \<Longrightarrow> \<exists>fn' sn'. t = (fn', sn', H (step_input (fn, sn, v) p)) \<and> sn \<noteq> 0 \<and>
     (\<forall>u q. proof_step H (fn, sn, u) q = Some (fn', sn', H (step_input (fn, sn, u) q)))"
  by (auto simp: proof_step_def step_input_def split: if_splits prod.splits)

lemma step_input_inj:
  "step_input (fn, sn, v) p = step_input (fn, sn, u) q \<Longrightarrow> length v = length u \<Longrightarrow> v = u \<and> p = q"
  by (auto simp: step_input_def split: if_splits)

context hash_function
begin

lemma steps_bind:
  assumes "proof_steps H (fn, sn, v) ps = Some (a, 0, w)" "proof_steps H (fn, sn, u) qs = Some (b, 0, w)"
    and "length v = length u" "inj_on H (set (steps_inputs H (fn, sn, v) ps) \<union> set (steps_inputs H (fn, sn, u) qs))"
  shows "v = u \<and> ps = qs"
  using assms
proof (induction ps arbitrary: fn sn v u qs)
  case Nil
  then have "sn = 0" "v = w" by simp_all
  with Nil.prems(2) show ?case by (cases qs) (auto simp: proof_step_def)
next
  case (Cons p ps)
  from Cons.prems(1) obtain t where t: "proof_step H (fn, sn, v) p = Some t" "proof_steps H t ps = Some (a, 0, w)"
    by (auto split: option.splits)
  from proof_step_input [OF t(1)] obtain f s where fs: "t = (f, s, H (step_input (fn, sn, v) p))" "sn \<noteq> 0"
    "\<And>u q. proof_step H (fn, sn, u) q = Some (f, s, H (step_input (fn, sn, u) q))" by blast
  from Cons.prems(2) fs(2) obtain q qs' where q: "qs = q # qs'" by (cases qs) auto
  let ?x = "step_input (fn, sn, v) p" and ?y = "step_input (fn, sn, u) q"
  from Cons.prems(2) q fs(3) have r: "proof_steps H (f, s, H ?y) qs' = Some (b, 0, w)" by simp
  have i: "inj_on H (set (?x # steps_inputs H (f, s, H ?x) ps) \<union> set (?y # steps_inputs H (f, s, H ?y) qs'))"
    using Cons.prems(4) by (simp add: q fs(3))
  have h: "H ?x = H ?y \<and> ps = qs'"
    by (rule Cons.IH [OF t(2) [unfolded fs(1)] r]) (auto simp: digest_length intro: inj_on_subset [OF i])
  have "?x = ?y" by (rule inj_onD [OF i conjunct1 [OF h]]) simp_all
  with h step_input_inj [of fn sn v p u q] Cons.prems(3) q show ?case by simp
qed

text \<open>A proof that leads to the root of a tree of that size is the audit path of that entry.\<close>

lemma proof_binds:
  assumes "apply_inclusion_proof H entry (int (length xs)) (int i) path = Some (tree_hash H xs)"
    and "inj_on H (set (proof_inputs H entry (int (length xs)) (int i) path) \<union>
      set (proof_inputs H (xs ! i) (int (length xs)) (int i) (inclusion_path H xs (int i))))"
  shows "entry = xs ! i \<and> path = inclusion_path H xs (int i)"
proof -
  let ?s = "nat (int (length xs) - 1)"
  from assms(1) have i: "i < length xs" by (auto simp: apply_inclusion_proof_def split: if_splits)
  from assms(1) obtain a where a: "proof_steps H (i, ?s, leaf_hash H entry) path = Some (a, 0, tree_hash H xs)"
    by (auto simp: apply_inclusion_proof_def split: if_splits option.splits)
  from audit_path_steps [OF i, of H] have b: "proof_steps H (i, ?s, leaf_hash H (xs ! i)) (inclusion_path H xs (int i)) =
      Some (0, 0, tree_hash H xs)"
    using i by (simp add: nat_diff_distrib)
  have h: "leaf_hash H entry = leaf_hash H (xs ! i) \<and> path = inclusion_path H xs (int i)"
    by (rule steps_bind [OF a b]) (auto simp: leaf_hash_def digest_length proof_inputs_def intro: inj_on_subset [OF assms(2)])
  have "(0x00::nat) # entry = 0x00 # xs ! i"
    by (rule inj_onD [OF assms(2)]) (use h in \<open>simp_all add: leaf_hash_def proof_inputs_def\<close>)
  with h show ?thesis by simp
qed

end

end
