(* ===== verification/Inclusion_Properties.thy ===== *)
theory Inclusion_Properties
  imports Inclusion_Proof
begin

section \<open>Properties of inclusion proofs\<close>

text \<open>C20: the checker's bit-walking verification accepts the generator's audit path: for every
  entry of a non-empty list, the recursive path leads the loop to the list's tree hash, which
  is the root the reference verifier computes over the same leaves.\<close>

theorem audit_path_verifies:
  assumes "i < length xs"
  shows "apply_inclusion_proof H (xs ! i) (int (length xs)) (int i) (inclusion_path H xs (int i)) = Some (mth H xs) \<and>
    merkle_root_hex H xs = Inr (hex_of_bytes (mth H xs))"
proof -
  from assms have "xs \<noteq> []" by auto
  with audit_path_applies [OF assms] merkle_root_hex_eq show ?thesis by (simp add: mth_tree_hash)
qed

definition sum_hash :: "bytes \<Rightarrow> bytes" where
  "sum_hash x = take 32 (map (\<lambda>n. n mod 256) x @ replicate 32 0)"

definition three_entries :: "bytes list" where
  "three_entries = [[7], [8], [9]]"

theorem audit_path_verifies_witness:
  "apply_inclusion_proof sum_hash [9] 3 2 (inclusion_path sum_hash three_entries 2) = Some (mth sum_hash three_entries)"
proof -
  have "2 < length three_entries" "three_entries ! 2 = [9]" "length three_entries = 3" by (simp_all add: three_entries_def)
  with audit_path_verifies [of 2 three_entries sum_hash] show ?thesis by simp
qed

text \<open>C21: a proof that leads to the tree hash of a list, for one of its positions, is the audit
  path of the entry at that position, and the entry is that entry, unless two of the strings
  hashed on the two ways collide.  The checker refuses every position outside the list.\<close>

theorem inclusion_proof_binds:
  assumes "hash_function H" "apply_inclusion_proof H entry (int (length xs)) i path = Some (mth H xs)"
    and "inj_on H (set (proof_inputs H entry (int (length xs)) i path) \<union>
      set (proof_inputs H (xs ! nat i) (int (length xs)) i (inclusion_path H xs i)))"
  shows "0 \<le> i \<and> i < int (length xs) \<and> entry = xs ! nat i \<and> path = inclusion_path H xs i"
proof -
  from assms(2) have i: "0 \<le> i" "i < int (length xs)" by (auto simp: apply_inclusion_proof_def split: if_splits)
  then have n: "int (nat i) = i" and "xs \<noteq> []" by auto
  then have m: "mth H xs = tree_hash H xs" by (simp add: mth_tree_hash)
  from hash_function.proof_binds [OF assms(1), of entry xs "nat i" path] assms(2,3) i show ?thesis
    unfolding n m by simp
qed

lemma sum_hash_function: "hash_function sum_hash"
  by unfold_locales (auto simp: sum_hash_def bytes_ok_def list_all_iff dest!: in_set_takeD)

theorem inclusion_proof_binds_witness:
  "0 \<le> (1::int) \<and> [8] = three_entries ! nat 1 \<and> inclusion_path sum_hash three_entries 1 = inclusion_path sum_hash three_entries 1"
proof -
  let ?p = "inclusion_path sum_hash three_entries 1"
  have n: "int (length three_entries) = 3" "three_entries ! nat 1 = [8]" by (simp_all add: three_entries_def)
  have a: "apply_inclusion_proof sum_hash [8] (int (length three_entries)) 1 ?p = Some (mth sum_hash three_entries)"
    unfolding n by code_simp
  have "inj_on sum_hash (set (proof_inputs sum_hash [8] 3 1 ?p))" by code_simp
  then have "inj_on sum_hash (set (proof_inputs sum_hash [8] (int (length three_entries)) 1 ?p) \<union>
      set (proof_inputs sum_hash (three_entries ! nat 1) (int (length three_entries)) 1 ?p))"
    unfolding n by simp
  from inclusion_proof_binds [OF sum_hash_function a this] show ?thesis by simp
qed

end
