(* ===== verification/Binding_Codec.thy ===== *)
theory Binding_Codec
  imports Ijson
begin

section \<open>The canonical encoding of binding records\<close>

text \<open>
  \<open>tools/artifact-binding/jcs.py\<close>: the serializer that artifact-binding manifests are signed
  over, a second statement of RFC 8785 beside \<open>jcs_dumps\<close> that also writes floats.  Python's
  \<open>repr\<close> of a float, the shortest decimal that reads back as the same double, is computed
  from the exact rounding of \<open>Ijson\<close>.  The interpreter's recursion limit is not modelled.
\<close>

subsection \<open>The shortest decimal of a double\<close>

text \<open>The position of the decimal point: \<open>10 powi (p - 1) \<le> n / d < 10 powi p\<close>.\<close>

definition decimal_point :: "nat \<Rightarrow> nat \<Rightarrow> int" where
  "decimal_point n d =
     (let e = int (length (dec_digits n)) - int (length (dec_digits d)) in
      if d * 10 ^ nat e \<le> n * 10 ^ nat (- e) then e + 1 else e)"

text \<open>The two \<open>k\<close>-digit integers around the scaled value, the nearer one first.\<close>

definition digit_candidates :: "nat \<Rightarrow> nat \<Rightarrow> nat list" where
  "digit_candidates n d =
     (let m = n div d in if round_half_even n d = m then [m, Suc m] else [Suc m, m])"

definition reads_back :: "nat \<Rightarrow> nat \<Rightarrow> int \<Rightarrow> nat \<Rightarrow> bool" where
  "reads_back n d e c \<longleftrightarrow> nearest_double (c * 10 ^ nat e) (10 ^ nat (- e)) = Finite (of_nat n / of_nat d)"

text \<open>The first number of digits, up to 17, at which some candidate reads back.\<close>

fun shortest_from :: "nat \<Rightarrow> nat \<Rightarrow> nat \<Rightarrow> nat \<Rightarrow> ustr \<times> int" where
  "shortest_from 0 k n d = ([], 0)"
| "shortest_from (Suc f) k n d =
     (let p = decimal_point n d; e = p - int k;
          cs = filter (reads_back n d e) (digit_candidates (n * 10 ^ nat (- e)) (d * 10 ^ nat e))
      in if cs = [] then shortest_from f (Suc k) n d
         else let ds = dec_digits (hd cs) in
           (rev (dropWhile (\<lambda>c. c = 0x30) (rev ds)), p + (int (length ds) - int k)))"

definition shortest_digits :: "nat \<Rightarrow> nat \<Rightarrow> ustr \<times> int" where
  "shortest_digits n d = shortest_from 17 1 n d"

definition zeros_text :: "nat \<Rightarrow> ustr" where
  "zeros_text n = replicate n 0x30"

text \<open>\<open>repr\<close> of a positive finite float.\<close>

definition layout_repr :: "ustr \<times> int \<Rightarrow> ustr" where
  "layout_repr dp =
     (case dp of (ds, p) \<Rightarrow>
        if - 4 < p \<and> p \<le> 16 then
          (if p \<le> 0 then lit ''0.'' @ zeros_text (nat (- p)) @ ds
           else if int (length ds) \<le> p then ds @ zeros_text (nat p - length ds) @ lit ''.0''
           else take (nat p) ds @ [0x2E] @ drop (nat p) ds)
        else
          (let x = p - 1; xs = dec_digits (nat \<bar>x\<bar>) in
           (if length ds = 1 then ds else take 1 ds @ [0x2E] @ drop 1 ds) @ [0x65] @
           (if x < 0 then [0x2D] else [0x2B]) @ (if length xs = 1 then 0x30 # xs else xs)))"

definition float_repr :: "rat \<Rightarrow> ustr" where
  "float_repr q = (case quotient_of q of (n, d) \<Rightarrow> layout_repr (shortest_digits (nat n) (nat d)))"

subsection \<open>\<open>es6_number\<close>\<close>

definition partition_at :: "nat \<Rightarrow> ustr \<Rightarrow> ustr \<times> ustr" where
  "partition_at c s = (takeWhile (\<lambda>x. x \<noteq> c) s, drop 1 (dropWhile (\<lambda>x. x \<noteq> c) s))"

definition signed_value :: "ustr \<Rightarrow> int" where
  "signed_value s =
     (case s of
        c # r \<Rightarrow> if c = 0x2D then - int (dec_value r) else if c = 0x2B then int (dec_value r) else int (dec_value s)
      | [] \<Rightarrow> 0)"

text \<open>The digits and the position of the point read off the text of \<open>repr\<close>.\<close>

definition repr_digits :: "ustr \<Rightarrow> ustr \<times> int" where
  "repr_digits text =
     (case partition_at 0x65 text of (mantissa, exponent) \<Rightarrow>
      case partition_at 0x2E mantissa of (whole, fr) \<Rightarrow>
        let n = (if exponent = [] then 0 else signed_value exponent);
            stripped = dropWhile (\<lambda>c. c = 0x30) fr;
            (ds, n) = (if whole = [0x30] then (stripped, n - (int (length fr) - int (length stripped)))
                       else (whole @ fr, n + int (length whole)));
            ds = rev (dropWhile (\<lambda>c. c = 0x30) (rev ds))
        in (if ds = [] then [0x30] else ds, n))"

definition es6_layout :: "ustr \<times> int \<Rightarrow> ustr" where
  "es6_layout dn =
     (case dn of (ds, n) \<Rightarrow>
        let k = int (length ds) in
        if k \<le> n \<and> n \<le> 21 then ds @ zeros_text (nat (n - k))
        else if 0 < n \<and> n \<le> 21 then take (nat n) ds @ [0x2E] @ drop (nat n) ds
        else if - 6 < n \<and> n \<le> 0 then lit ''0.'' @ zeros_text (nat (- n)) @ ds
        else (if k = 1 then ds else take 1 ds @ [0x2E] @ drop 1 ds) @ [0x65] @
             (if n - 1 \<ge> 0 then [0x2B] else [0x2D]) @ dec_digits (nat \<bar>n - 1\<bar>))"

definition es6_positive :: "rat \<Rightarrow> ustr" where
  "es6_positive q = es6_layout (repr_digits (float_repr q))"

fun es6_number :: "pyfloat \<Rightarrow> ustr res" where
  "es6_number (Finite q) =
     Inr (if q = 0 then [0x30] else if q < 0 then 0x2D # es6_positive (- q) else es6_positive q)"
| "es6_number _ = Inl ValueError"

subsection \<open>The serializer\<close>

text \<open>\<open>int.__repr__\<close> under the interpreter's digit limit.\<close>

definition int_text :: "int \<Rightarrow> ustr res" where
  "int_text i = (if max_int_digits < length (dec_digits (nat \<bar>i\<bar>)) then Inl IntegerTooLong else Inr (str_of_int i))"

text \<open>\<open>json.dumps\<close> of a string with \<open>ensure_ascii=False\<close> escapes as \<open>jcs_string\<close> does.\<close>

fun bind_encode :: "json \<Rightarrow> ustr res" where
  "bind_encode (JObj d) =
     (if list_ex (\<lambda>m. list_ex is_surrogate (fst m)) d then Inl UnicodeEncodeError
      else rbind (rmap (\<lambda>m. rbind (bind_encode (snd m)) (\<lambda>t. Inr (jcs_string (fst m) @ 0x3A # t)))
                    (sort_members d))
             (\<lambda>ts. Inr (0x7B # comma_join ts @ [0x7D])))"
| "bind_encode (JArr xs) = rbind (rmap bind_encode xs) (\<lambda>ts. Inr (0x5B # comma_join ts @ [0x5D]))"
| "bind_encode (JBool b) = Inr (if b then lit ''true'' else lit ''false'')"
| "bind_encode JNull = Inr (lit ''null'')"
| "bind_encode (JInt i) = int_text i"
| "bind_encode (JFloat f) = es6_number f"
| "bind_encode (JStr s) = Inr (jcs_string s)"

definition canonical_bytes :: "json \<Rightarrow> bytes res" where
  "canonical_bytes v = rbind (bind_encode v) utf8_encode"

definition json_digest :: "(bytes \<Rightarrow> bytes) \<Rightarrow> json \<Rightarrow> ustr res" where
  "json_digest H v = rbind (canonical_bytes v) (\<lambda>b. Inr (sha256_hex H b))"

text \<open>
  \<open>json.loads(raw.decode("utf-8"))\<close> under a handler of \<open>UnicodeDecodeError\<close> and
  \<open>JSONDecodeError\<close>: \<open>None\<close> is the handler, and the integer limit passes it.
\<close>

definition decode_json :: "bytes \<Rightarrow> json option res" where
  "decode_json raw =
     (case utf8_decode raw of
        None \<Rightarrow> Inr None
      | Some text \<Rightarrow>
          (case json_loads_default text of
             Inl ValueError \<Rightarrow> Inr None
           | Inl e \<Rightarrow> Inl e
           | Inr v \<Rightarrow> Inr (Some v)))"

definition is_canonical :: "bytes \<Rightarrow> bool res" where
  "is_canonical raw =
     rbind (decode_json raw) (\<lambda>parsed.
       case parsed of
         None \<Rightarrow> Inr False
       | Some v \<Rightarrow> rbind (canonical_bytes v) (\<lambda>b. Inr (b = raw)))"

end
