(* ===== verification/Binding_Manifest.thy ===== *)
theory Binding_Manifest
  imports Binding_Codec Registry Py_Lines
begin

section \<open>Building a binding record\<close>

text \<open>
  \<open>tools/artifact-binding/manifest.py\<close>: what is read off a trial directory and the manifest
  made of it.  The directory is an argument, with paths as the text below its root; so are
  the clock's text and Python's \<open>float\<close> of a string.  Copying the grading inputs into the
  directory is the list of files written.
\<close>

record files =
  fs_name :: ustr
  fs_exists :: "ustr \<Rightarrow> bool"
  fs_file :: "ustr \<Rightarrow> bool"
  fs_dir :: "ustr \<Rightarrow> bool"
  fs_read :: "ustr \<Rightarrow> bytes option"
  fs_below :: "ustr \<Rightarrow> ustr list"
  fs_safe :: "ustr \<Rightarrow> bool"

text \<open>What the tool runs with: the hash, the signature check and \<open>repr\<close>, and \<open>float\<close>.\<close>

record tool =
  tl_run :: runtime
  tl_float :: "ustr \<Rightarrow> pyfloat option"

definition schema_version :: string where
  "schema_version = ''artifact-binding/v1''"

definition required_roles :: "string list" where
  "required_roles = [''atif_trajectory'', ''trial_result'', ''verifier_files'', ''reward'', ''grading_stdout'', ''grading_stderr'']"

definition archive_roles :: "string list" where
  "archive_roles = [''atif_trajectory'', ''collected_artifact'', ''trial_lock'', ''trial_result'']"

definition grading_input_role :: string where
  "grading_input_role = ''verifier_files''"

definition grading_input_dir :: string where
  "grading_input_dir = ''binding/grading-inputs''"

subsection \<open>Covered files\<close>

record entry =
  en_role :: ustr
  en_path :: ustr
  en_length :: nat
  en_sha256 :: ustr

definition entry_json :: "entry \<Rightarrow> json" where
  "entry_json e = JObj [(lit ''role'', JStr (en_role e)), (lit ''path'', JStr (en_path e)),
     (lit ''length'', JInt (int (en_length e))), (lit ''sha256'', JStr (en_sha256 e))]"

definition entry_of :: "(bytes \<Rightarrow> bytes) \<Rightarrow> ustr \<Rightarrow> ustr \<Rightarrow> bytes \<Rightarrow> entry" where
  "entry_of H role path b = \<lparr>en_role = role, en_path = path, en_length = length b, en_sha256 = sha256_hex H b\<rparr>"

definition file_entry :: "(bytes \<Rightarrow> bytes) \<Rightarrow> files \<Rightarrow> ustr \<Rightarrow> ustr \<Rightarrow> entry res" where
  "file_entry H fs path role =
     (case fs_read fs path of None \<Rightarrow> Inl OSError | Some b \<Rightarrow> Inr (entry_of H role path b))"

text \<open>\<open>sorted(entries, key=lambda e: (e.role, e.path))\<close>: a stable sort by role of the one by path.\<close>

definition sort_entries :: "entry list \<Rightarrow> entry list" where
  "sort_entries es = sort_key en_role (sort_key en_path es)"

definition sorted_entries :: "entry list \<Rightarrow> json" where
  "sorted_entries es = JArr (map entry_json (sort_entries es))"

definition archive_entry :: "entry \<Rightarrow> bool" where
  "archive_entry e \<longleftrightarrow> en_role e \<in> set (map lit archive_roles)"

definition archive_digest :: "(bytes \<Rightarrow> bytes) \<Rightarrow> entry list \<Rightarrow> ustr res" where
  "archive_digest H es = json_digest H (sorted_entries (filter archive_entry es))"

definition verifier_digest :: "(bytes \<Rightarrow> bytes) \<Rightarrow> entry list \<Rightarrow> ustr res" where
  "verifier_digest H es = json_digest H (sorted_entries es)"

subsection \<open>Uncovered dependencies\<close>

record uncovered =
  un_reference :: ustr
  un_reason :: string

definition uncovered_json :: "uncovered \<Rightarrow> json" where
  "uncovered_json u = JObj [(lit ''reference'', JStr (un_reference u)), (lit ''reason'', str (un_reason u))]"

definition external_ref :: "json \<Rightarrow> uncovered list" where
  "external_ref ref =
     (case rget (the_obj ref) ''trajectory_path'' of
        JStr p \<Rightarrow> [\<lparr>un_reference = p, un_reason = ''external subagent trajectory outside the covered set''\<rparr>]
      | _ \<Rightarrow> [])"

definition refs_in_results :: "json list \<Rightarrow> uncovered list" where
  "refs_in_results results =
     concat (map (\<lambda>r. concat (map external_ref (the_arr (rget (the_obj r) ''subagent_trajectory_ref'')))) results)"

definition external_subagent_refs :: "dict \<Rightarrow> uncovered list" where
  "external_subagent_refs doc =
     concat (map (\<lambda>step. refs_in_results (the_arr (rget (the_obj (rget (the_obj step) ''observation'')) ''results'')))
       (the_arr (rget doc ''steps'')))"

subsection \<open>The facts of a trial\<close>

record facts =
  fa_trial_id :: "ustr option"
  fa_trial_id_source :: string
  fa_task_name :: ustr
  fa_reward :: "pyfloat option"
  fa_reward_path :: "string option"
  fa_entries :: "entry list"
  fa_grading_inputs :: "entry list"
  fa_uncovered :: "uncovered list"
  fa_trajectory_id :: "ustr option"
  fa_pointer :: "dict option"

text \<open>Text mode: UTF-8, with every line ending read as a line feed.\<close>

fun universal_newlines :: "ustr \<Rightarrow> ustr" where
  "universal_newlines (c # d # s) =
     (if c = 0x0D then (if d = 0x0A then 0x0A # universal_newlines s else 0x0A # universal_newlines (d # s))
      else c # universal_newlines (d # s))"
| "universal_newlines [c] = (if c = 0x0D then [0x0A] else [c])"
| "universal_newlines [] = []"

definition read_text :: "files \<Rightarrow> ustr \<Rightarrow> ustr res" where
  "read_text fs path =
     (case fs_read fs path of
        None \<Rightarrow> Inl OSError
      | Some b \<Rightarrow> (case utf8_decode b of None \<Rightarrow> Inl UnicodeDecodeError | Some s \<Rightarrow> Inr (universal_newlines s)))"

text \<open>\<open>json.load\<close> of an open text file, and \<open>json.loads\<close> of its text.\<close>

definition load_json :: "files \<Rightarrow> ustr \<Rightarrow> json res" where
  "load_json fs path = rbind (read_text fs path) json_loads_default"

definition str_strip :: "ustr \<Rightarrow> ustr" where
  "str_strip s = rev (dropWhile is_space (rev (dropWhile is_space s)))"

text \<open>\<open>float(v)\<close> of a JSON number; the conversion of a large integer overflows.\<close>

definition int_float :: "int \<Rightarrow> pyfloat" where
  "int_float i =
     (if i = 0 then Finite 0
      else case nearest_double (nat \<bar>i\<bar>) 1 of
        Finite q \<Rightarrow> Finite (if i < 0 then - q else q)
      | f \<Rightarrow> f)"

definition number_float :: "json \<Rightarrow> pyfloat option res" where
  "number_float v =
     (case v of
        JBool b \<Rightarrow> Inr (Some (Finite (if b then 1 else 0)))
      | JInt i \<Rightarrow> (case int_float i of Finite q \<Rightarrow> Inr (Some (Finite q)) | _ \<Rightarrow> Inl OverflowError)
      | JFloat f \<Rightarrow> Inr (Some f)
      | _ \<Rightarrow> Inr None)"

definition reward_txt :: string where
  "reward_txt = ''verifier/reward.txt''"

definition reward_json :: string where
  "reward_json = ''verifier/reward.json''"

text \<open>\<open>float(path.read_text().strip())\<close> under a handler of \<open>ValueError\<close>.\<close>

definition text_float :: "tool \<Rightarrow> files \<Rightarrow> ustr \<Rightarrow> pyfloat option res" where
  "text_float T fs path =
     (case read_text fs path of
        Inl UnicodeDecodeError \<Rightarrow> Inr None
      | Inl e \<Rightarrow> Inl e
      | Inr s \<Rightarrow> Inr (tl_float T (str_strip s)))"

definition read_reward :: "tool \<Rightarrow> files \<Rightarrow> (pyfloat option \<times> string option) res" where
  "read_reward T fs =
     (if fs_exists fs (lit reward_txt) then
        rbind (text_float T fs (lit reward_txt)) (\<lambda>f. Inr (f, Some reward_txt))
      else if fs_exists fs (lit reward_json) then
        rbind (read_text fs (lit reward_json)) (\<lambda>s. rbind (json_loads_default s) (\<lambda>doc.
          case doc of
            JObj d \<Rightarrow>
              if rhas d ''reward'' then rbind (number_float (rget d ''reward'')) (\<lambda>f. Inr (f, Some reward_json))
              else Inr (None, Some reward_json)
          | _ \<Rightarrow> Inr (None, Some reward_json)))
      else Inr (None, None))"

text \<open>\<open>json.loads(path.read_text())\<close> under the handlers of \<open>find_atif\<close>.\<close>

definition load_candidate :: "files \<Rightarrow> ustr \<Rightarrow> json option res" where
  "load_candidate fs path =
     (case rbind (read_text fs path) json_loads_default of
        Inl ValueError \<Rightarrow> Inr None
      | Inl UnicodeDecodeError \<Rightarrow> Inr None
      | Inl OSError \<Rightarrow> Inr None
      | Inl e \<Rightarrow> Inl e
      | Inr v \<Rightarrow> Inr (Some v))"

definition is_atif :: "json \<Rightarrow> bool" where
  "is_atif v = (case rget (the_obj v) ''schema_version'' of JStr s \<Rightarrow> starts_with (lit ''ATIF-'') s | _ \<Rightarrow> False)"

fun first_atif :: "files \<Rightarrow> ustr list \<Rightarrow> ustr option res" where
  "first_atif fs [] = Inr None"
| "first_atif fs (p # ps) =
     rbind (load_candidate fs p) (\<lambda>v.
       case v of
         Some w \<Rightarrow> if is_atif w then Inr (Some p) else first_atif fs ps
       | None \<Rightarrow> first_atif fs ps)"

text \<open>\<open>Path(p).parts\<close> of a relative path, and the order of paths.\<close>

fun split_at :: "nat \<Rightarrow> ustr \<Rightarrow> ustr \<Rightarrow> ustr list" where
  "split_at c cur [] = [cur]"
| "split_at c cur (x # s) = (if x = c then cur # split_at c [] s else split_at c (cur @ [x]) s)"

definition path_parts :: "ustr \<Rightarrow> ustr list" where
  "path_parts p = filter (\<lambda>t. t \<noteq> [] \<and> t \<noteq> [0x2E]) (split_at 0x2F [] p)"

definition sort_paths :: "ustr list \<Rightarrow> ustr list" where
  "sort_paths ps = sort_key path_parts ps"

definition find_atif :: "files \<Rightarrow> ustr option res" where
  "find_atif fs =
     (if \<not> fs_dir fs (lit ''agent'') then Inr None
      else first_atif fs (sort_paths (filter (ends_with (lit ''.json'')) (fs_below fs (lit ''agent'')))))"

definition continuation_ref :: "dict \<Rightarrow> uncovered list" where
  "continuation_ref doc =
     (case rget doc ''continued_trajectory_ref'' of
        JStr (c # s) \<Rightarrow> [\<lparr>un_reference = c # s, un_reason = ''continuation trajectory outside the covered set''\<rparr>]
      | _ \<Rightarrow> [])"

definition atif_facts :: "files \<Rightarrow> ustr \<Rightarrow> (ustr option \<times> dict option \<times> uncovered list) res" where
  "atif_facts fs path =
     rbind (read_text fs path) (\<lambda>s. rbind (json_loads_default s) (\<lambda>v.
       case v of
         JObj doc \<Rightarrow>
           Inr (case rget doc ''trajectory_id'' of JStr t \<Rightarrow> Some t | _ \<Rightarrow> None,
                case rget (the_obj (rget doc ''extra'')) ''artifact_binding'' of JObj d \<Rightarrow> Some d | _ \<Rightarrow> None,
                continuation_ref doc @ external_subagent_refs doc)
       | _ \<Rightarrow> Inl BindingError))"

subsection \<open>Collecting\<close>

definition fixed_files :: "(string \<times> string) list" where
  "fixed_files = [(''trial_result'', ''result.json''), (''trial_lock'', ''lock.json''),
     (''collection_manifest'', ''artifacts/manifest.json''), (''grading_stdout'', ''verifier/test-stdout.txt''),
     (''grading_stderr'', ''verifier/test-stderr.txt'')]"

definition collect_run_artifacts :: "tool \<Rightarrow> files \<Rightarrow> facts \<Rightarrow> facts res" where
  "collect_run_artifacts T fs fa =
     (let H = rt_sha (tl_run T) in
      rbind (rmap (\<lambda>rp. file_entry H fs (lit (snd rp)) (lit (fst rp)))
               (filter (\<lambda>rp. fs_file fs (lit (snd rp)) \<and> fs_safe fs (lit (snd rp))) fixed_files)) (\<lambda>es1.
      rbind (case fa_reward_path fa of
               Some p \<Rightarrow> if fs_file fs (lit p) then rbind (file_entry H fs (lit p) (lit ''reward'')) (\<lambda>e. Inr [e]) else Inr []
             | None \<Rightarrow> Inr []) (\<lambda>es2.
      rbind (find_atif fs) (\<lambda>atif.
      rbind (case atif of
               Some p \<Rightarrow>
                 if fs_safe fs p then
                   rbind (file_entry H fs p (lit ''atif_trajectory'')) (\<lambda>e.
                   rbind (atif_facts fs p) (\<lambda>(tid, ptr, un). Inr ([e], tid, ptr, un)))
                 else Inr ([], None, None, [])
             | None \<Rightarrow> Inr ([], None, None, [])) (\<lambda>(es3, tid, ptr, un).
      rbind (if fs_dir fs (lit ''artifacts'') then
               rmap (\<lambda>p. file_entry H fs p (lit ''collected_artifact''))
                 (filter (\<lambda>p. fs_file fs p \<and> base_name p \<noteq> lit ''manifest.json'' \<and> fs_safe fs p)
                   (sort_paths (fs_below fs (lit ''artifacts''))))
             else Inr []) (\<lambda>es4.
        Inr (fa\<lparr>fa_entries := es1 @ es2 @ es3 @ es4, fa_trajectory_id := tid, fa_pointer := ptr, fa_uncovered := un\<rparr>)))))))"

text \<open>The files of the verifier directory, their place in the trial directory, and their bytes.\<close>

definition captured_path :: "ustr \<Rightarrow> ustr" where
  "captured_path p = lit grading_input_dir @ 0x2F # p"

definition captured_files :: "files option \<Rightarrow> (ustr \<times> bytes) list res" where
  "captured_files vf =
     (case vf of
        None \<Rightarrow> Inr []
      | Some v \<Rightarrow>
          if \<not> fs_dir v [] then Inr []
          else rmap (\<lambda>p. case fs_read v p of None \<Rightarrow> Inl OSError | Some b \<Rightarrow> Inr (captured_path p, b))
                 (filter (\<lambda>p. fs_file v p \<and> fs_safe v p) (sort_paths (fs_below v []))))"

text \<open>
  A directory after files are written to it: their parent directories are made, and a later
  write to a path wins.  Paths are relative, without \<open>.\<close> segments, as \<open>as_posix\<close> prints them.
\<close>

fun join_parts :: "ustr list \<Rightarrow> ustr" where
  "join_parts [] = []"
| "join_parts [t] = t"
| "join_parts (t # u # ts) = t @ 0x2F # join_parts (u # ts)"

definition parents :: "ustr \<Rightarrow> ustr list" where
  "parents p = map (\<lambda>n. join_parts (take n (path_parts p))) [1..<length (path_parts p)]"

definition below :: "ustr \<Rightarrow> ustr \<Rightarrow> bool" where
  "below d p \<longleftrightarrow> d = [] \<or> starts_with (d @ [0x2F]) p"

definition with_files :: "files \<Rightarrow> (ustr \<times> bytes) list \<Rightarrow> files" where
  "with_files fs ws =
     (let W = map fst ws; D = concat (map parents W) in
      fs\<lparr>fs_exists := (\<lambda>p. p \<in> set W \<or> p \<in> set D \<or> fs_exists fs p),
         fs_file := (\<lambda>p. p \<in> set W \<or> fs_file fs p),
         fs_dir := (\<lambda>p. p \<in> set D \<or> fs_dir fs p),
         fs_read := (\<lambda>p. case map_of (rev ws) p of Some b \<Rightarrow> Some b | None \<Rightarrow> fs_read fs p),
         fs_below := (\<lambda>d. fs_below fs d @ filter (\<lambda>q. below d q \<and> q \<notin> set (fs_below fs d)) (remdups (D @ W))),
         fs_safe := (\<lambda>p. p \<in> set W \<or> fs_safe fs p)\<rparr>)"

definition collect_grading_inputs :: "tool \<Rightarrow> files option \<Rightarrow> facts \<Rightarrow> (facts \<times> (ustr \<times> bytes) list) res" where
  "collect_grading_inputs T vf fa =
     rbind (captured_files vf) (\<lambda>ws.
       Inr (fa\<lparr>fa_grading_inputs := map (\<lambda>(p, b). entry_of (rt_sha (tl_run T)) (lit grading_input_role) p b) ws\<rparr>, ws))"

definition collect_facts :: "tool \<Rightarrow> files \<Rightarrow> files option \<Rightarrow> (facts \<times> (ustr \<times> bytes) list) res" where
  "collect_facts T fs vf =
     (if \<not> fs_exists fs (lit ''result.json'') then Inl BindingError
      else
        rbind (read_text fs (lit ''result.json'')) (\<lambda>s. rbind (json_loads_default s) (\<lambda>result.
        rbind (read_reward T fs) (\<lambda>(rw, rp).
          let tid = (case rget (the_obj result) ''id'' of JStr t \<Rightarrow> Some t | _ \<Rightarrow> None);
              fa = \<lparr>fa_trial_id = tid, fa_trial_id_source = (if tid \<noteq> None then ''result.json:id'' else ''absent''),
                    fa_task_name = (case rget (the_obj result) ''task_name'' of JStr t \<Rightarrow> t | _ \<Rightarrow> fs_name fs),
                    fa_reward = rw, fa_reward_path = rp, fa_entries = [], fa_grading_inputs = [], fa_uncovered = [],
                    fa_trajectory_id = None, fa_pointer = None\<rparr>
          in rbind (collect_run_artifacts T fs fa) (collect_grading_inputs T vf)))))"

subsection \<open>The manifest\<close>

definition opt_float :: "pyfloat option \<Rightarrow> json" where
  "opt_float f = (case f of None \<Rightarrow> JNull | Some x \<Rightarrow> JFloat x)"

definition first_of_role :: "string \<Rightarrow> entry list \<Rightarrow> entry option" where
  "first_of_role role es = find (\<lambda>e. en_role e = lit role) es"

definition record_members :: "facts \<Rightarrow> string \<Rightarrow> ustr \<Rightarrow> ustr \<Rightarrow> ustr option \<Rightarrow> ustr \<Rightarrow> ustr \<Rightarrow> ustr \<Rightarrow> ustr \<Rightarrow> dict" where
  "record_members fa operation verifier_id key_id source stamp producer archive verifier =
     [(lit ''schema_version'', str schema_version),
      (lit ''producer'', JObj [(lit ''tool'', str ''aee-bind''), (lit ''tool_version'', str ''1.0.0''), (lit ''producer_id'', JStr producer)]),
      (lit ''run'', JObj [(lit ''framework'', str ''harbor''), (lit ''trial_id'', opt_str (fa_trial_id fa)),
         (lit ''trial_id_source'', str (fa_trial_id_source fa)), (lit ''task_name'', JStr (fa_task_name fa)),
         (lit ''recorded_at'', JStr stamp)]),
      (lit ''operation'', str operation),
      (lit ''artifacts'', sorted_entries (fa_entries fa)),
      (lit ''source_record_digest'', opt_str source),
      (lit ''source_archive_digest'', JStr archive),
      (lit ''verification_inputs'', JObj [(lit ''verifier_id'', JStr verifier_id), (lit ''verifier_digest'', JStr verifier),
         (lit ''grading_inputs'', sorted_entries (fa_grading_inputs fa))]),
      (lit ''dependencies'', JObj [(lit ''status'', str (if fa_uncovered fa \<noteq> [] then ''incomplete'' else ''covered'')),
         (lit ''uncovered'', JArr (map uncovered_json (fa_uncovered fa)))]),
      (lit ''atif'', JObj [(lit ''present'', JBool (list_ex (\<lambda>e. en_role e = lit ''atif_trajectory'') (fa_entries fa))),
         (lit ''trajectory_id'', opt_str (fa_trajectory_id fa)),
         (lit ''document_sha256'', opt_str (map_option en_sha256 (first_of_role ''atif_trajectory'' (fa_entries fa)))),
         (lit ''pointer'', (case fa_pointer fa of None \<Rightarrow> JNull | Some d \<Rightarrow> JObj d))]),
      (lit ''graded_outcome'', JObj [(lit ''reward'', opt_float (fa_reward fa)),
         (lit ''source_path'', (case fa_reward_path fa of None \<Rightarrow> JNull | Some p \<Rightarrow> str p))]),
      (lit ''signer_key_id'', JStr key_id)]"

text \<open>\<open>build\<close>; \<open>now\<close> is the clock's text, used when no stamp or an empty one is given.\<close>

definition build :: "(bytes \<Rightarrow> bytes) \<Rightarrow> ustr \<Rightarrow> facts \<Rightarrow> string \<Rightarrow> ustr \<Rightarrow> ustr \<Rightarrow> ustr option \<Rightarrow> ustr option \<Rightarrow> ustr \<Rightarrow> dict res" where
  "build H now fa operation verifier_id key_id source recorded_at producer =
     (if operation \<notin> {''execute'', ''regrade''} then Inl BindingError
      else if operation = ''regrade'' \<and> source = None then Inl BindingError
      else
        let stamp = (case recorded_at of None \<Rightarrow> now | Some r \<Rightarrow> if r = [] then now else r) in
        rbind (archive_digest H (fa_entries fa)) (\<lambda>archive.
        rbind (verifier_digest H (fa_grading_inputs fa)) (\<lambda>verifier.
          Inr (record_members fa operation verifier_id key_id source stamp producer archive verifier))))"

end
