(* ===== verification/Binding_Verify.thy ===== *)
theory Binding_Verify
  imports Binding_Manifest
begin

section \<open>Verifying and regrading binding records\<close>

text \<open>
  \<open>tools/artifact-binding/verify.py\<close>, \<open>sign.py\<close>, \<open>regrade.py\<close> and the commands of \<open>aee_bind.py\<close>.
  The Ed25519 library is two parameters, the check \<open>rt_sig\<close> and a signing function; the
  grading script is a function on the directory.  Of an outcome the verdict and the codes
  are kept; the messages beside the codes are not.
\<close>

subsection \<open>\<open>sign.py\<close>\<close>

definition seed_length :: nat where
  "seed_length = 32"

definition signature_length :: nat where
  "signature_length = 64"

definition key_id :: "runtime \<Rightarrow> bytes \<Rightarrow> ustr" where
  "key_id R pub = sha256_hex (rt_sha R) pub"

definition verify_bytes :: "runtime \<Rightarrow> bytes \<Rightarrow> bytes \<Rightarrow> bytes \<Rightarrow> bool" where
  "verify_bytes R pub message sg \<longleftrightarrow> length sg = signature_length \<and> rt_sig R pub message sg"

text \<open>\<open>bytes.strip\<close> and \<open>bytes.fromhex\<close>, which both know the ASCII white space only.\<close>

definition ascii_space :: "nat \<Rightarrow> bool" where
  "ascii_space c \<longleftrightarrow> c = 0x20 \<or> 0x09 \<le> c \<and> c \<le> 0x0D"

definition bytes_strip :: "bytes \<Rightarrow> bytes" where
  "bytes_strip b = rev (dropWhile ascii_space (rev (dropWhile ascii_space b)))"

fun from_hex :: "ustr \<Rightarrow> bytes res" where
  "from_hex [] = Inr []"
| "from_hex (c # s) =
     (if ascii_space c then from_hex s
      else case (hex_val c, s) of
        (Some a, d # r) \<Rightarrow>
          (case hex_val d of None \<Rightarrow> Inl ValueError | Some b \<Rightarrow> rbind (from_hex r) (\<lambda>t. Inr ((a * 16 + b) # t)))
      | _ \<Rightarrow> Inl ValueError)"

definition hex_or_raw :: "nat \<Rightarrow> bytes \<Rightarrow> bytes res" where
  "hex_or_raw n b =
     (if length b = n * 2 then
        (case utf8_decode b of None \<Rightarrow> Inl UnicodeDecodeError | Some s \<Rightarrow> from_hex s)
      else Inr b)"

text \<open>\<open>load_seed\<close> of a file and \<open>load_public\<close>; \<open>BadKey\<close> is the module's \<open>KeyError_\<close>.\<close>

definition load_key :: "bytes option \<Rightarrow> bytes res" where
  "load_key file =
     (case file of
        None \<Rightarrow> Inl OSError
      | Some b \<Rightarrow> rbind (hex_or_raw seed_length (bytes_strip b)) (\<lambda>k.
          if length k \<noteq> seed_length then Inl BadKey else Inr k))"

text \<open>\<open>load_seed\<close> of the environment variable.\<close>

definition load_seed_env :: "ustr option \<Rightarrow> bytes res" where
  "load_seed_env v =
     (case v of
        None \<Rightarrow> Inl BadKey
      | Some s \<Rightarrow>
          if s = [] then Inl BadKey
          else rbind (from_hex (str_strip s)) (\<lambda>k. if length k \<noteq> seed_length then Inl BadKey else Inr k))"

subsection \<open>Outcomes\<close>

datatype verdict = Verified | Failed | Not_established

record outcome =
  oc_verdict :: verdict
  oc_codes :: "string list"

fun exit_code :: "verdict \<Rightarrow> int" where
  "exit_code Verified = 0"
| "exit_code Failed = 2"
| "exit_code Not_established = 3"

definition exit_usage :: int where
  "exit_usage = 1"

definition inconclusive :: "string list" where
  "inconclusive = [''artifact-absent'', ''required-role-absent'', ''dependencies-incomplete'']"

subsection \<open>The checks\<close>

definition as_object :: "bytes \<Rightarrow> dict option res" where
  "as_object b = rbind (decode_json b) (\<lambda>p. Inr (case p of Some (JObj d) \<Rightarrow> Some d | _ \<Rightarrow> None))"

definition dict_entries :: "dict \<Rightarrow> string \<Rightarrow> dict list" where
  "dict_entries d key = map the_obj (filter is_obj (the_arr (rget d key)))"

definition grading_entries :: "dict \<Rightarrow> dict list" where
  "grading_entries d = dict_entries (the_obj (rget d ''verification_inputs'')) ''grading_inputs''"

definition check_encoding :: "bytes \<Rightarrow> (dict option \<times> string list) res" where
  "check_encoding b =
     rbind (as_object b) (\<lambda>p.
       case p of
         None \<Rightarrow> Inr (None, [''manifest-unparseable''])
       | Some d \<Rightarrow>
           rbind (is_canonical b) (\<lambda>ok.
             Inr (Some d, (if ok then [] else [''manifest-encoding-not-canonical'']) @
                          (if rget d ''schema_version'' \<noteq> str schema_version then [''schema-version-unsupported''] else []))))"

definition check_signer :: "runtime \<Rightarrow> dict \<Rightarrow> bytes \<Rightarrow> string list" where
  "check_signer R d pub = (if rget d ''signer_key_id'' \<noteq> JStr (key_id R pub) then [''signer-key-mismatch''] else [])"

text \<open>\<open>str(entry.get(key, ""))\<close>.\<close>

definition member_text_of :: "runtime \<Rightarrow> dict \<Rightarrow> string \<Rightarrow> ustr" where
  "member_text_of R e key = (if rhas e key then py_str R (rget e key) else [])"

definition unsafe_path :: "ustr \<Rightarrow> bool" where
  "unsafe_path p \<longleftrightarrow> lit ''..'' \<in> set (path_parts p) \<or> starts_with [0x2F] p"

definition check_entry :: "runtime \<Rightarrow> files \<Rightarrow> dict \<Rightarrow> string list res" where
  "check_entry R fs e =
     (let rel = member_text_of R e ''path'' in
      if unsafe_path rel then Inr [''artifact-path-unsafe'']
      else if \<not> fs_file fs rel then Inr [''artifact-absent'']
      else case fs_read fs rel of
        None \<Rightarrow> Inl OSError
      | Some b \<Rightarrow>
          Inr ((if py_eq (JInt (int (length b))) (rget e ''length'') then [] else [''artifact-length-mismatch'']) @
               (if rget e ''sha256'' = JStr (sha256_hex (rt_sha R) b) then [] else [''artifact-digest-mismatch''])))"

text \<open>The roles, whether a covered file is absent, and the codes.\<close>

definition check_artifacts :: "runtime \<Rightarrow> files \<Rightarrow> dict \<Rightarrow> (ustr list \<times> bool \<times> string list) res" where
  "check_artifacts R fs d =
     (let es = dict_entries d ''artifacts'' @ grading_entries d in
      rbind (rmap (check_entry R fs) es) (\<lambda>cs.
        Inr (map (\<lambda>e. member_text_of R e ''role'') es, list_ex (\<lambda>c. c = [''artifact-absent'']) cs, concat cs)))"

definition check_profile :: "ustr list \<Rightarrow> bool \<times> string list" where
  "check_profile roles =
     (let missing = filter (\<lambda>r. lit r \<notin> set roles) required_roles
      in (missing \<noteq> [], map (\<lambda>_. ''required-role-absent'') missing))"

definition check_dependencies :: "dict \<Rightarrow> bool \<times> string list" where
  "check_dependencies d =
     (if rget (the_obj (rget d ''dependencies'')) ''status'' = str ''incomplete''
      then (True, [''dependencies-incomplete'']) else (False, []))"

definition reward_agrees :: "json \<Rightarrow> pyfloat \<Rightarrow> bool res" where
  "reward_agrees declared actual = rbind (number_float declared) (\<lambda>f. Inr (f = Some actual \<and> actual \<noteq> NaN))"

text \<open>\<open>float(path.read_text().strip())\<close> under a handler of \<open>ValueError\<close> and \<open>OSError\<close>.\<close>

definition covered_reward :: "tool \<Rightarrow> files \<Rightarrow> ustr \<Rightarrow> pyfloat option" where
  "covered_reward T fs path = (case text_float T fs path of Inl _ \<Rightarrow> None | Inr f \<Rightarrow> f)"

definition check_outcome :: "tool \<Rightarrow> files \<Rightarrow> dict \<Rightarrow> string list res" where
  "check_outcome T fs d =
     (let graded = the_obj (rget d ''graded_outcome'') in
      case rget graded ''source_path'' of
        JStr source \<Rightarrow>
          if \<not> fs_file fs source then Inr []
          else (case covered_reward T fs source of
            None \<Rightarrow> Inr []
          | Some actual \<Rightarrow>
              rbind (reward_agrees (rget graded ''reward'') actual) (\<lambda>ok.
                Inr (if ok then [] else [''graded-outcome-mismatch''])))
      | _ \<Rightarrow> Inr [])"

definition check_atif_pointer :: "files \<Rightarrow> ustr \<Rightarrow> dict \<Rightarrow> string list res" where
  "check_atif_pointer fs path atif =
     rbind (load_candidate fs path) (\<lambda>v.
       Inr (case v of
          Some (JObj doc) \<Rightarrow>
            if py_eq (rget atif ''trajectory_id'') (rget doc ''trajectory_id'') then [] else [''atif-trajectory-id-mismatch'']
        | _ \<Rightarrow> []))"

definition check_atif :: "runtime \<Rightarrow> files \<Rightarrow> dict \<Rightarrow> string list res" where
  "check_atif R fs d =
     (let atif = the_obj (rget d ''atif'') in
      if \<not> truthy (rget atif ''present'') then Inr []
      else case find (\<lambda>e. rget e ''role'' = str ''atif_trajectory'') (dict_entries d ''artifacts'') of
        None \<Rightarrow> Inr []
      | Some e \<Rightarrow>
          let path = member_text_of R e ''path'' in
          rbind (if fs_file fs path then check_atif_pointer fs path atif else Inr []) (\<lambda>cs.
            Inr ((if py_eq (rget atif ''document_sha256'') (rget e ''sha256'') then []
                  else [''atif-document-digest-mismatch'']) @ cs)))"

subsection \<open>\<open>verify\<close>\<close>

definition check_signature :: "runtime \<Rightarrow> bytes \<Rightarrow> bytes option \<Rightarrow> bytes \<Rightarrow> string list res" where
  "check_signature R b sg pub =
     (case sg of
        None \<Rightarrow> Inl OSError
      | Some s \<Rightarrow>
          rbind (hex_or_raw signature_length (bytes_strip s)) (\<lambda>blob.
            Inr (if verify_bytes R pub b blob then [] else [''signature-invalid''])))"

definition settle :: "string list \<Rightarrow> bool \<Rightarrow> bool \<Rightarrow> bool \<Rightarrow> outcome" where
  "settle cs absent missing incomplete =
     \<lparr>oc_verdict =
        (if filter (\<lambda>c. c \<notin> set inconclusive) cs \<noteq> [] then Failed
         else if absent \<or> missing \<or> incomplete then Not_established else Verified),
      oc_codes = cs\<rparr>"

text \<open>The manifest and the signature are read from their files, \<open>None\<close> an unreadable one.\<close>

definition verify_record :: "tool \<Rightarrow> files \<Rightarrow> bytes option \<Rightarrow> bytes option \<Rightarrow> bytes \<Rightarrow> outcome res" where
  "verify_record T fs manifest sg pub =
     (let R = tl_run T in
      case manifest of
        None \<Rightarrow> Inl OSError
      | Some b \<Rightarrow>
          rbind (check_encoding b) (\<lambda>(rec, c1).
            case rec of
              None \<Rightarrow> Inr \<lparr>oc_verdict = Failed, oc_codes = c1\<rparr>
            | Some d \<Rightarrow>
                let c2 = check_signer R d pub in
                rbind (if c2 = [] then check_signature R b sg pub else Inr []) (\<lambda>c3.
                rbind (check_artifacts R fs d) (\<lambda>(roles, absent, c4).
                case check_profile roles of (missing, c5) \<Rightarrow>
                case check_dependencies d of (incomplete, c6) \<Rightarrow>
                rbind (check_outcome T fs d) (\<lambda>c7.
                rbind (check_atif R fs d) (\<lambda>c8.
                  Inr (settle (c1 @ c2 @ c3 @ c4 @ c5 @ c6 @ c7 @ c8) absent missing incomplete)))))))"

definition read_record :: "bytes option \<Rightarrow> dict option res" where
  "read_record manifest = (case manifest of None \<Rightarrow> Inl OSError | Some b \<Rightarrow> as_object b)"

definition manifest_digest :: "(bytes \<Rightarrow> bytes) \<Rightarrow> bytes option \<Rightarrow> ustr res" where
  "manifest_digest H manifest =
     rbind (read_record manifest) (\<lambda>p. case p of None \<Rightarrow> Inl ValueError | Some d \<Rightarrow> json_digest H (JObj d))"

subsection \<open>\<open>regrade.py\<close>\<close>

text \<open>The files staged: path and bytes.  A role that cannot be hashed stops the loop.\<close>

definition stage_entry :: "runtime \<Rightarrow> files \<Rightarrow> dict \<Rightarrow> (ustr \<times> bytes) list res" where
  "stage_entry R src e =
     rbind (need_hash (rget e ''role'')) (\<lambda>_.
       if rget e ''role'' \<notin> set (map str archive_roles) then Inr []
       else let rel = member_text_of R e ''path'' in
         if \<not> fs_file src rel then Inr []
         else case fs_read src rel of None \<Rightarrow> Inl OSError | Some b \<Rightarrow> Inr [(rel, b)])"

definition stage_archive :: "runtime \<Rightarrow> files \<Rightarrow> dict \<Rightarrow> (ustr \<times> bytes) list res" where
  "stage_archive R src d = rbind (rmap (stage_entry R src) (dict_entries d ''artifacts'')) (\<lambda>ws. Inr (concat ws))"

text \<open>
  The grading script: from the staged directory, the directory it leaves and its two output
  texts, or an exception (a timeout, output that is not text).
\<close>

type_synonym grader = "files \<Rightarrow> (files \<times> ustr \<times> ustr) res"

definition run_verifier :: "grader \<Rightarrow> files \<Rightarrow> files \<Rightarrow> files res" where
  "run_verifier run vf target =
     (if \<not> fs_file vf (lit ''test.sh'') then Inl RegradeRefused
      else
        rbind (run target) (\<lambda>(left, stdout, stderr).
        rbind (utf8_encode stdout) (\<lambda>o_bytes.
        rbind (utf8_encode stderr) (\<lambda>e_bytes.
          Inr (with_files left [(lit ''verifier/test-stdout.txt'', o_bytes), (lit ''verifier/test-stderr.txt'', e_bytes)])))))"

text \<open>
  \<open>regrade\<close>: the staged files, the new record, its bytes and its signature file.  \<open>sign\<close> is the
  library's signing function under the private seed.
\<close>

definition regrade :: "tool \<Rightarrow> grader \<Rightarrow> (bytes \<Rightarrow> bytes) \<Rightarrow> ustr \<Rightarrow> files \<Rightarrow> bytes option \<Rightarrow> bytes option \<Rightarrow> bytes \<Rightarrow>
    files \<Rightarrow> files \<Rightarrow> ustr \<Rightarrow> ustr option \<Rightarrow> ((ustr \<times> bytes) list \<times> dict \<times> bytes \<times> ustr) res" where
  "regrade T run sign now src manifest sg pub vf target verifier_id recorded_at =
     (let R = tl_run T in
      rbind (verify_record T src manifest sg pub) (\<lambda>oc.
      if oc_verdict oc \<noteq> Verified then Inl RegradeRefused
      else
        rbind (read_record manifest) (\<lambda>p. case p of None \<Rightarrow> Inl RegradeRefused | Some d \<Rightarrow>
        rbind (stage_archive R src d) (\<lambda>staged.
        rbind (run_verifier run vf (with_files target staged)) (\<lambda>graded.
        rbind (collect_facts T graded (Some vf)) (\<lambda>(fa, captured).
        rbind (manifest_digest (rt_sha R) manifest) (\<lambda>source.
        rbind (build (rt_sha R) now fa ''regrade'' verifier_id (key_id R pub) (Some source) recorded_at (lit ''independent'')) (\<lambda>new.
        rbind (canonical_bytes (JObj new)) (\<lambda>b.
          Inr (staged, new, b, hex_of_bytes (sign b)))))))))))"

datatype lineage_problem = Chain_empty | Archives_differ | Source_mismatch nat | First_not_execute | Not_regrade nat

definition source_problems :: "dict list \<Rightarrow> ustr list \<Rightarrow> nat \<Rightarrow> lineage_problem list res" where
  "source_problems records digests i =
     (if i - 1 < length digests then
        Inr (if rget (records ! i) ''source_record_digest'' \<noteq> JStr (digests ! (i - 1)) then [Source_mismatch i] else [])
      else Inl IndexError)"

definition check_lineage :: "runtime \<Rightarrow> dict list \<Rightarrow> ustr list \<Rightarrow> lineage_problem list res" where
  "check_lineage R records digests =
     (if records = [] then Inr [Chain_empty]
      else
        let archives = remdups (map (\<lambda>d. py_str R (rget d ''source_archive_digest'')) records) in
        rbind (rmap (source_problems records digests) [1..<length records]) (\<lambda>ps.
          Inr ((if length archives \<noteq> 1 then [Archives_differ] else []) @ concat ps @
               (if rget (records ! 0) ''operation'' \<noteq> str ''execute'' then [First_not_execute] else []) @
               map Not_regrade (filter (\<lambda>i. rget (records ! i) ''operation'' \<noteq> str ''regrade'') [1..<length records]))))"

subsection \<open>The commands\<close>

text \<open>The handler of \<open>main\<close>: an exit code, or the exception that leaves the program.\<close>

definition guarded :: "int res \<Rightarrow> int res" where
  "guarded r = (case r of Inl BindingError \<Rightarrow> Inr exit_usage | Inl BadKey \<Rightarrow> Inr exit_usage | _ \<Rightarrow> r)"

definition cmd_verify :: "tool \<Rightarrow> files \<Rightarrow> bytes option \<Rightarrow> int res" where
  "cmd_verify T fs pubkey =
     guarded (rbind (load_key pubkey) (\<lambda>pub.
       rbind (verify_record T fs (fs_read fs (lit ''binding/manifest.json'')) (fs_read fs (lit ''binding/manifest.sig'')) pub)
         (\<lambda>oc. Inr (exit_code (oc_verdict oc)))))"

text \<open>\<open>cmd_lineage\<close>: each path's record is read, then its digest, before the chain is checked.\<close>

fun load_chain :: "(bytes \<Rightarrow> bytes) \<Rightarrow> bytes option list \<Rightarrow> (dict list \<times> ustr list) option res" where
  "load_chain H [] = Inr (Some ([], []))"
| "load_chain H (m # ms) =
     rbind (read_record m) (\<lambda>p.
       case p of
         None \<Rightarrow> Inr None
       | Some d \<Rightarrow>
           rbind (manifest_digest H m) (\<lambda>h.
           rbind (load_chain H ms) (\<lambda>rest. Inr (map_option (\<lambda>(ds, hs). (d # ds, h # hs)) rest))))"

definition cmd_lineage :: "runtime \<Rightarrow> bytes option list \<Rightarrow> int res" where
  "cmd_lineage R files =
     guarded (rbind (load_chain (rt_sha R) files) (\<lambda>c.
       case c of
         None \<Rightarrow> Inr exit_usage
       | Some (records, digests) \<Rightarrow>
           rbind (check_lineage R records digests) (\<lambda>ps.
             if ps \<noteq> [] then Inr (exit_code Failed)
             else if rhas (records ! 0) ''source_archive_digest'' then Inr (exit_code Verified) else Inl KeyError)))"

text \<open>The seed is \<open>load_key\<close> of a key file or \<open>load_seed_env\<close>; the result is the directory and the record.\<close>

definition cmd_build :: "tool \<Rightarrow> (bytes \<Rightarrow> bytes) \<Rightarrow> (bytes \<Rightarrow> bytes \<Rightarrow> bytes) \<Rightarrow> ustr \<Rightarrow> bytes res \<Rightarrow> files \<Rightarrow>
    files option \<Rightarrow> ustr \<Rightarrow> ustr option \<Rightarrow> (files \<times> dict) res" where
  "cmd_build T public sign now load fs vf verifier_id recorded_at =
     (let R = tl_run T in
      rbind load (\<lambda>seed.
      rbind (collect_facts T fs vf) (\<lambda>(fa, captured).
      rbind (build (rt_sha R) now fa ''execute'' verifier_id (key_id R (public seed)) None recorded_at (lit ''independent'')) (\<lambda>d.
      rbind (canonical_bytes (JObj d)) (\<lambda>b.
        Inr (with_files fs (captured @ [(lit ''binding/manifest.json'', b),
               (lit ''binding/manifest.sig'', hex_of_bytes (sign seed b))]), d))))))"

end
