(* ===== verification/Binding_Laws.thy ===== *)
theory Binding_Laws
  imports Binding_Verify
begin

section \<open>What verification of a binding record establishes\<close>

text \<open>
  The stages of \<open>verify_record\<close>, the reading of its three verdicts in the codes, and the contract
  a record must meet to be verified, stated without the order of the checks.
\<close>

subsection \<open>Verdicts\<close>

lemma settle_verdict:
  "oc_verdict (settle cs a m i) = Failed \<longleftrightarrow> (\<exists>c \<in> set cs. c \<notin> set inconclusive)"
  "oc_codes (settle cs a m i) = cs"
  by (auto simp: settle_def filter_empty_conv)

lemma list_ex_absent: "list_ex (\<lambda>c. c = [''artifact-absent'']) cs \<Longrightarrow> ''artifact-absent'' \<in> set (concat cs)"
  by (force simp: list_ex_iff)

lemma check_profile_codes: "check_profile roles = (missing, cs) \<Longrightarrow> missing = (cs \<noteq> []) \<and> set cs \<subseteq> {''required-role-absent''}"
  by (auto simp: check_profile_def Let_def)

lemma check_dependencies_codes: "check_dependencies d = (i, cs) \<Longrightarrow> i = (cs \<noteq> []) \<and> set cs \<subseteq> {''dependencies-incomplete''}"
  by (auto simp: check_dependencies_def split: if_splits)

lemma rmap_codes:
  assumes "rmap (check_entry R fs) es = Inr cs" "''artifact-absent'' \<in> set (concat cs)"
  shows "list_ex (\<lambda>c. c = [''artifact-absent'']) cs"
proof -
  from assms(2) obtain c where c: "c \<in> set cs" "''artifact-absent'' \<in> set c" by auto
  with assms(1) obtain e where "check_entry R fs e = Inr c" using rmap_results by metis
  with c(2) have "c = [''artifact-absent'']"
    by (auto simp: check_entry_def Let_def split: if_splits option.splits)
  with c(1) show ?thesis by (auto simp: list_ex_iff)
qed

text \<open>The stages of a run that reads an object.\<close>

lemma verify_stages:
  assumes "verify_record T fs m sg pub = Inr oc"
  obtains (unparseable) b where "m = Some b" "as_object b = Inr None" "oc_verdict oc = Failed" "oc_codes oc = [''manifest-unparseable'']"
  | (checked) b d c1 c3 c4 c5 c6 c7 c8 roles absent missing incomplete where
      "m = Some b" "as_object b = Inr (Some d)" "check_encoding b = Inr (Some d, c1)"
      "if check_signer (tl_run T) d pub = [] then check_signature (tl_run T) b sg pub = Inr c3 else c3 = []"
      "check_artifacts (tl_run T) fs d = Inr (roles, absent, c4)" "check_profile roles = (missing, c5)"
      "check_dependencies d = (incomplete, c6)" "check_outcome T fs d = Inr c7" "check_atif (tl_run T) fs d = Inr c8"
      "oc = settle (c1 @ check_signer (tl_run T) d pub @ c3 @ c4 @ c5 @ c6 @ c7 @ c8) absent missing incomplete"
proof -
  from assms obtain b where m: "m = Some b" by (cases m) (simp_all add: verify_record_def)
  from assms obtain r c1 where e: "check_encoding b = Inr (r, c1)"
    by (cases "check_encoding b") (auto simp: verify_record_def m)
  show thesis
  proof (cases r)
    case None
    with e have "as_object b = Inr None" "c1 = [''manifest-unparseable'']"
      by (auto simp: check_encoding_def elim!: rbind_InrE split: option.splits)
    with assms None e m show thesis by (intro unparseable) (auto simp: verify_record_def)
  next
    case (Some d)
    with e have o: "as_object b = Inr (Some d)"
      by (auto simp: check_encoding_def elim!: rbind_InrE split: option.splits)
    obtain missing c5 incomplete c6 where p: "check_dependencies d = (incomplete, c6)" by fastforce
    note a = assms [unfolded verify_record_def Let_def m option.case e Some rbind.simps prod.case]
    from a obtain c3 where c3: "(if check_signer (tl_run T) d pub = [] then check_signature (tl_run T) b sg pub else Inr []) = Inr c3"
      by (elim rbind_InrE)
    note a = a [unfolded this rbind.simps]
    from a obtain roles absent c4 where c4: "check_artifacts (tl_run T) fs d = Inr (roles, absent, c4)"
      by (auto elim!: rbind_InrE)
    obtain missing c5 where c5: "check_profile roles = (missing, c5)" by fastforce
    note a = a [unfolded c4 rbind.simps prod.case c5 p]
    from a obtain c7 where c7: "check_outcome T fs d = Inr c7" by (elim rbind_InrE)
    note a = a [unfolded c7 rbind.simps]
    from a obtain c8 where c8: "check_atif (tl_run T) fs d = Inr c8" by (elim rbind_InrE)
    note a = a [unfolded c8 rbind.simps]
    have "if check_signer (tl_run T) d pub = [] then check_signature (tl_run T) b sg pub = Inr c3 else c3 = []"
      using c3 by (simp split: if_splits)
    from checked [OF m o e [unfolded Some] this c4 c5 p c7 c8] a show thesis by simp
  qed
qed

lemma verdict_reading:
  assumes "verify_record T fs m sg pub = Inr oc"
  shows "(oc_verdict oc = Verified \<longleftrightarrow> oc_codes oc = []) \<and>
    (oc_verdict oc = Failed \<longleftrightarrow> (\<exists>c \<in> set (oc_codes oc). c \<notin> set inconclusive)) \<and>
    (oc_verdict oc = Not_established \<longleftrightarrow> oc_codes oc \<noteq> [] \<and> set (oc_codes oc) \<subseteq> set inconclusive)"
  using assms
proof (cases rule: verify_stages)
  case unparseable
  then show ?thesis by (simp add: inconclusive_def)
next
  case (checked b d c1 c3 c4 c5 c6 c7 c8 roles absent missing incomplete)
  let ?cs = "c1 @ check_signer (tl_run T) d pub @ c3 @ c4 @ c5 @ c6 @ c7 @ c8"
  from checked(5) obtain cs where cs: "rmap (check_entry (tl_run T) fs) (dict_entries d ''artifacts'' @ grading_entries d) = Inr cs"
    "absent = list_ex (\<lambda>c. c = [''artifact-absent'']) cs" "c4 = concat cs"
    by (auto simp: check_artifacts_def Let_def elim!: rbind_InrE)
  have "absent \<Longrightarrow> c4 \<noteq> []" using list_ex_absent [of cs] cs(2,3) by (metis empty_iff empty_set)
  then have 1: "absent \<or> missing \<or> incomplete \<Longrightarrow> ?cs \<noteq> []"
    using check_profile_codes [OF checked(6)] check_dependencies_codes [OF checked(7)] by auto
  have soft: "?cs \<noteq> [] \<Longrightarrow> set ?cs \<subseteq> set inconclusive \<Longrightarrow> absent \<or> missing \<or> incomplete"
  proof -
    assume a: "?cs \<noteq> []" "set ?cs \<subseteq> set inconclusive"
    have c1: "c1 = []" using checked(3) a(2)
      by (auto simp: check_encoding_def inconclusive_def elim!: rbind_InrE split: option.splits if_splits)
    have c2: "check_signer (tl_run T) d pub = []" using a(2)
      by (auto simp: check_signer_def inconclusive_def split: if_splits)
    have c3: "c3 = []" using checked(4) a(2) c2
      by (auto simp: check_signature_def inconclusive_def elim!: rbind_InrE split: option.splits if_splits)
    have c7: "c7 = []" using checked(8) a(2)
      by (auto simp: check_outcome_def Let_def inconclusive_def elim!: rbind_InrE split: json.splits option.splits if_splits)
    have c8: "c8 = []" using checked(9) a(2)
      by (auto simp: check_atif_def check_atif_pointer_def Let_def inconclusive_def
            elim!: rbind_InrE split: json.splits option.splits if_splits)
    show ?thesis
    proof (cases "c5 = [] \<and> c6 = []")
      case True
      with a(1) c1 c2 c3 c7 c8 obtain c cs' where c: "c \<in> set c4" by (cases c4) auto
      with a(2) have "c \<in> {''artifact-absent'', ''required-role-absent'', ''dependencies-incomplete''}"
        by (auto simp: inconclusive_def)
      moreover from c cs(3) obtain x where x: "c \<in> set x" "x \<in> set cs" by auto
      moreover from rmap_results [OF cs(1) x(2)] obtain e where "check_entry (tl_run T) fs e = Inr x" by blast
      ultimately have "c = ''artifact-absent''"
        by (auto simp: check_entry_def Let_def split: if_splits option.splits)
      with c cs(3) have "list_ex (\<lambda>c. c = [''artifact-absent'']) cs" by (intro rmap_codes [OF cs(1)]) simp
      with cs(2) show ?thesis by blast
    next
      case False
      then show ?thesis using check_profile_codes [OF checked(6)] check_dependencies_codes [OF checked(7)] by auto
    qed
  qed
  have f: "oc_verdict oc = Failed \<longleftrightarrow> (\<exists>c \<in> set ?cs. c \<notin> set inconclusive)"
    by (simp add: checked(10) settle_verdict del: set_append)
  have v: "oc_verdict oc = Verified \<longleftrightarrow> ?cs = []"
  proof
    assume h: "oc_verdict oc = Verified"
    then have "set ?cs \<subseteq> set inconclusive" using f by (metis subsetI verdict.distinct(1))
    moreover have "\<not> (absent \<or> missing \<or> incomplete)" using h by (auto simp: checked(10) settle_def split: if_splits)
    ultimately show "?cs = []" using soft by blast
  next
    assume h: "?cs = []"
    with 1 show "oc_verdict oc = Verified" unfolding checked(10) settle_def by (metis filter.simps(1) outcome.select_convs(1))
  qed
  have n: "oc_verdict oc = Not_established \<longleftrightarrow> ?cs \<noteq> [] \<and> set ?cs \<subseteq> set inconclusive"
    using f v by (cases "oc_verdict oc") (auto simp del: set_append)
  have "oc_codes oc = ?cs" by (simp add: checked(10) settle_verdict)
  with f v n show ?thesis by simp
qed

subsection \<open>The contract of a verified record\<close>

text \<open>Section 7 of \<open>spec/artifact-binding/v1.md\<close>, as far as the code enforces it.\<close>

definition entry_holds :: "runtime \<Rightarrow> files \<Rightarrow> dict \<Rightarrow> bool" where
  "entry_holds R fs e \<longleftrightarrow>
     (let rel = member_text_of R e ''path'' in
      \<not> unsafe_path rel \<and> fs_file fs rel \<and>
      (case fs_read fs rel of
         None \<Rightarrow> False
       | Some b \<Rightarrow> py_eq (JInt (int (length b))) (rget e ''length'') \<and> rget e ''sha256'' = JStr (sha256_hex (rt_sha R) b)))"

definition covered_entries :: "dict \<Rightarrow> dict list" where
  "covered_entries d = dict_entries d ''artifacts'' @ grading_entries d"

definition signed_by :: "runtime \<Rightarrow> bytes \<Rightarrow> bytes option \<Rightarrow> bytes \<Rightarrow> bool" where
  "signed_by R b sg pub \<longleftrightarrow>
     (case sg of
        None \<Rightarrow> False
      | Some s \<Rightarrow> (case hex_or_raw signature_length (bytes_strip s) of Inl _ \<Rightarrow> False | Inr blob \<Rightarrow> verify_bytes R pub b blob))"

definition reward_holds :: "tool \<Rightarrow> files \<Rightarrow> dict \<Rightarrow> bool" where
  "reward_holds T fs d \<longleftrightarrow>
     (let graded = the_obj (rget d ''graded_outcome'') in
      case rget graded ''source_path'' of
        JStr source \<Rightarrow>
          fs_file fs source \<longrightarrow>
          (case covered_reward T fs source of
             None \<Rightarrow> True
           | Some actual \<Rightarrow> actual \<noteq> NaN \<and> number_float (rget graded ''reward'') = Inr (Some actual))
      | _ \<Rightarrow> True)"

definition trajectory_holds :: "runtime \<Rightarrow> files \<Rightarrow> dict \<Rightarrow> bool" where
  "trajectory_holds R fs d \<longleftrightarrow>
     (let atif = the_obj (rget d ''atif'') in
      truthy (rget atif ''present'') \<longrightarrow>
      (case find (\<lambda>e. rget e ''role'' = str ''atif_trajectory'') (dict_entries d ''artifacts'') of
         None \<Rightarrow> True
       | Some e \<Rightarrow>
           py_eq (rget atif ''document_sha256'') (rget e ''sha256'') \<and>
           (fs_file fs (member_text_of R e ''path'') \<longrightarrow>
              (case load_candidate fs (member_text_of R e ''path'') of
                 Inl _ \<Rightarrow> False
               | Inr (Some (JObj doc)) \<Rightarrow> py_eq (rget atif ''trajectory_id'') (rget doc ''trajectory_id'')
               | Inr _ \<Rightarrow> True))))"

definition contract_holds :: "tool \<Rightarrow> files \<Rightarrow> bytes \<Rightarrow> dict \<Rightarrow> bytes option \<Rightarrow> bytes \<Rightarrow> bool" where
  "contract_holds T fs b d sg pub \<longleftrightarrow>
     (let R = tl_run T in
      canonical_bytes (JObj d) = Inr b \<and> rget d ''schema_version'' = str schema_version \<and>
      rget d ''signer_key_id'' = JStr (key_id R pub) \<and> signed_by R b sg pub \<and>
      list_all (entry_holds R fs) (covered_entries d) \<and>
      set (map lit required_roles) \<subseteq> set (map (\<lambda>e. member_text_of R e ''role'') (covered_entries d)) \<and>
      rget (the_obj (rget d ''dependencies'')) ''status'' \<noteq> str ''incomplete'' \<and>
      reward_holds T fs d \<and> trajectory_holds R fs d)"

lemma check_entry_holds: "check_entry R fs e = Inr [] \<longleftrightarrow> entry_holds R fs e"
  by (auto simp: check_entry_def entry_holds_def Let_def split: option.splits if_splits)

lemma rmap_concat_Nil: "rmap f xs = Inr cs \<Longrightarrow> concat cs = [] \<Longrightarrow> list_all (\<lambda>x. f x = Inr []) xs"
  by (induction xs arbitrary: cs) (auto elim!: rbind_InrE)

lemma check_artifacts_holds:
  "check_artifacts R fs d = Inr (roles, absent, []) \<longleftrightarrow>
     list_all (entry_holds R fs) (covered_entries d) \<and> \<not> absent \<and>
     roles = map (\<lambda>e. member_text_of R e ''role'') (covered_entries d)" (is "?l \<longleftrightarrow> ?r")
proof
  assume ?l
  then obtain cs where cs: "rmap (check_entry R fs) (covered_entries d) = Inr cs" "absent = list_ex (\<lambda>c. c = [''artifact-absent'']) cs"
      "concat cs = []" "roles = map (\<lambda>e. member_text_of R e ''role'') (covered_entries d)"
    by (auto simp: check_artifacts_def covered_entries_def Let_def elim!: rbind_InrE)
  from rmap_concat_Nil [OF cs(1,3)] have "list_all (\<lambda>e. check_entry R fs e = Inr []) (covered_entries d)" .
  moreover have "\<not> absent" using cs(2,3) by (auto simp: list_ex_iff)
  ultimately show ?r using cs(4) by (simp add: check_entry_holds)
next
  assume r: ?r
  then have "rmap (check_entry R fs) (covered_entries d) = Inr (map (\<lambda>_. []) (covered_entries d))"
    by (intro rmap_total) (simp add: list_all_iff check_entry_holds)
  with r show ?l
    by (auto simp: check_artifacts_def covered_entries_def [symmetric] Let_def list_ex_iff)
qed

lemma check_profile_holds: "check_profile roles = (m, []) \<longleftrightarrow> \<not> m \<and> set (map lit required_roles) \<subseteq> set roles"
  by (auto simp: check_profile_def Let_def filter_empty_conv)

lemma check_dependencies_holds:
  "check_dependencies d = (i, []) \<longleftrightarrow> \<not> i \<and> rget (the_obj (rget d ''dependencies'')) ''status'' \<noteq> str ''incomplete''"
  by (auto simp: check_dependencies_def)

lemma check_outcome_holds: "check_outcome T fs d = Inr [] \<longleftrightarrow> reward_holds T fs d"
  by (auto simp: check_outcome_def reward_holds_def reward_agrees_def Let_def rbind_eq_Inr split: json.splits option.splits if_splits)

lemma check_atif_pointer_holds:
  "check_atif_pointer fs p atif = Inr [] \<longleftrightarrow>
     (case load_candidate fs p of
        Inl _ \<Rightarrow> False
      | Inr (Some (JObj doc)) \<Rightarrow> py_eq (rget atif ''trajectory_id'') (rget doc ''trajectory_id'')
      | Inr _ \<Rightarrow> True)"
  by (cases "load_candidate fs p") (auto simp: check_atif_pointer_def split: option.split json.split if_split)

lemma check_atif_holds: "check_atif R fs d = Inr [] \<longleftrightarrow> trajectory_holds R fs d"
  unfolding check_atif_def trajectory_holds_def Let_def check_atif_pointer_holds [symmetric]
  by (auto simp: rbind_eq_Inr split: option.split if_splits)

lemma check_signature_holds: "check_signature R b sg pub = Inr [] \<longleftrightarrow> signed_by R b sg pub"
  by (auto simp: check_signature_def signed_by_def rbind_eq_Inr split: option.splits sum.splits if_splits)

lemma check_encoding_holds:
  "check_encoding b = Inr (Some d, []) \<longleftrightarrow>
     as_object b = Inr (Some d) \<and> canonical_bytes (JObj d) = Inr b \<and> rget d ''schema_version'' = str schema_version"
proof -
  have c: "is_canonical b = rbind (canonical_bytes (JObj d)) (\<lambda>c. Inr (c = b))" if h: "as_object b = Inr (Some d)"
  proof -
    from h have "decode_json b = Inr (Some (JObj d))"
      by (auto simp: as_object_def elim!: rbind_InrE split: option.splits json.splits)
    then show ?thesis by (simp add: is_canonical_def)
  qed
  show ?thesis
  proof (cases "as_object b")
    case (Inr p)
    show ?thesis
    proof (cases "p = Some d")
      case True
      with Inr c show ?thesis by (cases "canonical_bytes (JObj d)") (auto simp: check_encoding_def split: if_splits)
    next
      case False
      with Inr show ?thesis by (cases p) (auto simp: check_encoding_def elim!: rbind_InrE)
    qed
  qed (simp add: check_encoding_def)
qed

theorem verified_contract:
  "(\<exists>oc. verify_record T fs m sg pub = Inr oc \<and> oc_verdict oc = Verified) \<longleftrightarrow>
   (\<exists>b d. m = Some b \<and> as_object b = Inr (Some d) \<and> contract_holds T fs b d sg pub)"
proof
  assume "\<exists>oc. verify_record T fs m sg pub = Inr oc \<and> oc_verdict oc = Verified"
  then obtain oc where oc: "verify_record T fs m sg pub = Inr oc" "oc_verdict oc = Verified" by blast
  with verdict_reading [OF oc(1)] have nil: "oc_codes oc = []" by simp
  from oc(1) show "\<exists>b d. m = Some b \<and> as_object b = Inr (Some d) \<and> contract_holds T fs b d sg pub"
  proof (cases rule: verify_stages)
    case unparseable
    with oc show ?thesis by simp
  next
    case (checked b d c1 c3 c4 c5 c6 c7 c8 roles absent missing incomplete)
    from nil have z: "c1 = []" "check_signer (tl_run T) d pub = []" "c3 = []" "c4 = []" "c5 = []" "c6 = []" "c7 = []" "c8 = []"
      by (simp_all add: checked(10) settle_verdict)
    from z(2) have "rget d ''signer_key_id'' = JStr (key_id (tl_run T) pub)" by (simp add: check_signer_def split: if_splits)
    with checked(3-9) z have "contract_holds T fs b d sg pub"
      by (simp add: contract_holds_def Let_def check_encoding_holds check_artifacts_holds check_profile_holds
            check_dependencies_holds check_outcome_holds check_atif_holds check_signature_holds)
    with checked(1,2) show ?thesis by blast
  qed
next
  assume "\<exists>b d. m = Some b \<and> as_object b = Inr (Some d) \<and> contract_holds T fs b d sg pub"
  then obtain b d where m: "m = Some b" "as_object b = Inr (Some d)" and c: "contract_holds T fs b d sg pub" by blast
  let ?roles = "map (\<lambda>e. member_text_of (tl_run T) e ''role'') (covered_entries d)"
  from m c have "check_encoding b = Inr (Some d, [])" "check_signer (tl_run T) d pub = []"
    "check_signature (tl_run T) b sg pub = Inr []" "check_artifacts (tl_run T) fs d = Inr (?roles, False, [])"
    "check_profile ?roles = (False, [])" "check_dependencies d = (False, [])" "check_outcome T fs d = Inr []"
    "check_atif (tl_run T) fs d = Inr []"
    by (simp_all add: contract_holds_def Let_def check_encoding_holds check_artifacts_holds check_profile_holds
          check_dependencies_holds check_outcome_holds check_atif_holds check_signature_holds check_signer_def)
  then have "verify_record T fs m sg pub = Inr (settle [] False False False)"
    by (simp add: verify_record_def m(1) Let_def)
  then show "\<exists>oc. verify_record T fs m sg pub = Inr oc \<and> oc_verdict oc = Verified" by (simp add: settle_def)
qed

end
