(* ===== verification/Lineage_Laws.thy ===== *)
theory Lineage_Laws
  imports Binding_Laws
begin

section \<open>Lineage and regrading\<close>

text \<open>
  The lineage check as a condition on the chain, the history a clean chain of canonical records
  binds, and what a regrade takes over from the record it starts from.
\<close>

subsection \<open>Chains of records\<close>

definition archive_of :: "runtime \<Rightarrow> dict \<Rightarrow> ustr" where
  "archive_of R d = py_str R (rget d ''source_archive_digest'')"

lemma source_problems_Nil:
  "source_problems ds hs i = Inr [] \<longleftrightarrow> i - 1 < length hs \<and> rget (ds ! i) ''source_record_digest'' = JStr (hs ! (i - 1))"
  by (auto simp: source_problems_def)

lemma remdups_one: "length (remdups (map f (x # xs))) = 1 \<longleftrightarrow> (\<forall>y \<in> set xs. f y = f x)"
proof -
  have "length (remdups (map f (x # xs))) = card (insert (f x) (f ` set xs))"
    by (metis length_remdups_card_conv list.set_map list.simps(15) list.simps(9))
  also have "\<dots> = 1 \<longleftrightarrow> (\<forall>y \<in> set xs. f y = f x)"
    by (auto simp: card_1_singleton_iff)
  finally show ?thesis .
qed

text \<open>No problem is reported exactly when the chain is one.\<close>

lemma check_lineage_iff:
  "check_lineage R ds hs = Inr [] \<longleftrightarrow>
     ds \<noteq> [] \<and> length ds \<le> Suc (length hs) \<and> rget (hd ds) ''operation'' = str ''execute'' \<and>
     (\<forall>d \<in> set ds. archive_of R d = archive_of R (hd ds)) \<and>
     (\<forall>i. 0 < i \<and> i < length ds \<longrightarrow> rget (ds ! i) ''operation'' = str ''regrade'' \<and>
        rget (ds ! i) ''source_record_digest'' = JStr (hs ! (i - 1)))" (is "?l \<longleftrightarrow> ?r")
proof (cases ds)
  case Nil
  then show ?thesis by (simp add: check_lineage_def)
next
  case (Cons d0 rest)
  let ?is = "[1..<length ds]"
  let ?srcs = "rmap (source_problems ds hs) ?is"
  have s: "?srcs = Inr ps \<Longrightarrow> concat ps = [] \<longleftrightarrow> (\<forall>i \<in> set ?is. source_problems ds hs i = Inr [])" for ps
  proof
    assume "?srcs = Inr ps" "concat ps = []"
    from rmap_concat_Nil [OF this] show "\<forall>i \<in> set ?is. source_problems ds hs i = Inr []" by (simp only: list_all_iff)
  next
    assume h: "?srcs = Inr ps" "\<forall>i \<in> set ?is. source_problems ds hs i = Inr []"
    then have "?srcs = Inr (map (\<lambda>_. []) ?is)" by (intro rmap_total) blast
    with h(1) show "concat ps = []" by auto
  qed
  have n: "\<not> (\<forall>i \<in> set ?is. source_problems ds hs i = Inr [])" if "?srcs = Inl e" for e
  proof
    assume "\<forall>i \<in> set ?is. source_problems ds hs i = Inr []"
    then have "?srcs = Inr (map (\<lambda>_. []) ?is)" by (intro rmap_total) blast
    with that show False by simp
  qed
  have b: "(\<forall>i \<in> set ?is. i - 1 < length hs) \<longleftrightarrow> length ds \<le> Suc (length hs)" by (auto simp: Cons)
  have "?l \<longleftrightarrow> length (remdups (map (archive_of R) ds)) = 1 \<and> rget d0 ''operation'' = str ''execute'' \<and>
      (\<forall>i \<in> set ?is. source_problems ds hs i = Inr []) \<and> (\<forall>i \<in> set ?is. rget (ds ! i) ''operation'' = str ''regrade'')"
  proof (cases ?srcs)
    case (Inl e)
    with n [OF Inl] show ?thesis by (simp add: check_lineage_def Let_def Cons del: upt_Suc)
  next
    case (Inr ps)
    have o: "map Not_regrade (filter (\<lambda>i. rget (ds ! i) ''operation'' \<noteq> str ''regrade'') ?is) = [] \<longleftrightarrow>
        (\<forall>i \<in> set ?is. rget (ds ! i) ''operation'' = str ''regrade'')" by (simp only: map_is_Nil_conv filter_empty_conv not_not)
    have "ds ! 0 = d0" "ds \<noteq> []" "(\<lambda>d. py_str R (rget d ''source_archive_digest'')) = archive_of R"
      by (simp_all add: Cons fun_eq_iff archive_of_def)
    then have "check_lineage R ds hs = Inr ((if length (remdups (map (archive_of R) ds)) \<noteq> 1 then [Archives_differ] else []) @
        concat ps @ (if rget d0 ''operation'' \<noteq> str ''execute'' then [First_not_execute] else []) @
        map Not_regrade (filter (\<lambda>i. rget (ds ! i) ''operation'' \<noteq> str ''regrade'') ?is))"
      by (simp only: check_lineage_def Let_def Inr rbind.simps if_False)
    then show ?thesis unfolding s [OF Inr, symmetric] o [symmetric] by (simp only: sum.inject append_is_Nil_conv split: if_split) blast
  qed
  also have "\<dots> \<longleftrightarrow> (\<forall>d \<in> set ds. archive_of R d = archive_of R d0) \<and> rget d0 ''operation'' = str ''execute'' \<and>
      length ds \<le> Suc (length hs) \<and>
      (\<forall>i \<in> set ?is. rget (ds ! i) ''source_record_digest'' = JStr (hs ! (i - 1)) \<and> rget (ds ! i) ''operation'' = str ''regrade'')"
    unfolding source_problems_Nil b [symmetric] Cons remdups_one by (auto simp: Cons)
  also have "\<dots> \<longleftrightarrow> ?r"
  proof -
    have m: "i \<in> set ?is \<longleftrightarrow> 0 < i \<and> i < length ds" for i by auto
    have h: "hd ds = d0" "ds \<noteq> []" by (simp_all add: Cons)
    show ?thesis unfolding Ball_def m h(1) using h(2) by blast
  qed
  finally show ?thesis .
qed

text \<open>Loading a chain: one record and one digest per file.\<close>

definition loads :: "(bytes \<Rightarrow> bytes) \<Rightarrow> bytes option \<Rightarrow> dict \<Rightarrow> ustr \<Rightarrow> bool" where
  "loads H m d h \<longleftrightarrow> (\<exists>b. m = Some b \<and> as_object b = Inr (Some d)) \<and> json_digest H (JObj d) = Inr h"

lemma load_chain_loads:
  "load_chain H ms = Inr (Some (ds, hs)) \<Longrightarrow> length ds = length ms \<and> length hs = length ms \<and>
     (\<forall>i < length ms. loads H (ms ! i) (ds ! i) (hs ! i))"
proof (induction ms arbitrary: ds hs)
  case (Cons m ms)
  from Cons.prems obtain d where d: "read_record m = Inr (Some d)" by (auto elim!: rbind_InrE split: option.splits)
  from Cons.prems obtain h where h: "manifest_digest H m = Inr h" by (auto simp: d elim!: rbind_InrE)
  from Cons.prems obtain es gs where e: "load_chain H ms = Inr (Some (es, gs))" "ds = d # es" "hs = h # gs"
    by (auto simp: d h elim!: rbind_InrE)
  have l: "loads H m d h" using d h
    by (auto simp: loads_def manifest_digest_def read_record_def split: option.splits)
  from Cons.IH [OF e(1)] e(2,3) l show ?case by (auto simp: nth_Cons less_Suc_eq_0_disj)
qed simp

text \<open>A stored manifest that is canonical is determined by the digest of its record.\<close>

definition stored_canonical :: "bytes option \<Rightarrow> bool" where
  "stored_canonical m \<longleftrightarrow> (case m of None \<Rightarrow> False | Some b \<Rightarrow> is_canonical b = Inr True)"

lemma stored_canonical_bytes:
  assumes "stored_canonical (Some b)" "as_object b = Inr (Some d)"
  shows "canonical_bytes (JObj d) = Inr b"
proof -
  from assms(2) have "decode_json b = Inr (Some (JObj d))"
    by (auto simp: as_object_def elim!: rbind_InrE split: option.splits json.splits)
  with assms(1) show ?thesis by (cases "canonical_bytes (JObj d)") (simp_all add: stored_canonical_def is_canonical_def)
qed

context hash_function
begin

lemma sha256_hex_inj: "sha256_hex H x = sha256_hex H y \<Longrightarrow> H x = H y"
  unfolding sha256_hex_def by (rule hex_of_bytes_inj) (auto simp: digest_bytes)

lemma loads_digest:
  assumes "loads H m d h" "stored_canonical m"
  shows "m = Some (the m) \<and> as_object (the m) = Inr (Some d) \<and> h = sha256_hex H (the m)"
proof -
  from assms(1) obtain b where b: "m = Some b" "as_object b = Inr (Some d)" "json_digest H (JObj d) = Inr h"
    unfolding loads_def by blast
  with stored_canonical_bytes [OF assms(2) [unfolded b(1)] b(2)] show ?thesis by (simp add: json_digest_def)
qed

lemma loads_same:
  assumes "loads H m d h" "loads H m' d' h" "stored_canonical m" "stored_canonical m'"
    and "inj_on H {the m, the m'}"
  shows "m = m' \<and> d = d'"
proof -
  note a = loads_digest [OF assms(1,3)] and b = loads_digest [OF assms(2,4)]
  then have "sha256_hex H (the m) = sha256_hex H (the m')" by simp
  from inj_onD [OF assms(5) sha256_hex_inj [OF this]] have "the m = the m'" by simp
  with a b show ?thesis by (metis option.inject sum.inject(2))
qed

text \<open>Walking back from equal ends, two chains agree until one of them starts.\<close>

lemma chains_agree:
  assumes l: "load_chain H ms = Inr (Some (ds, hs))" "load_chain H ns = Inr (Some (es, gs))"
    and c: "check_lineage R ds hs = Inr []" "check_lineage R es gs = Inr []"
    and s: "\<forall>m \<in> set ms \<union> set ns. stored_canonical m" and i: "inj_on H (the ` (set ms \<union> set ns))"
    and e: "last hs = last gs"
  shows "k < length ms \<Longrightarrow> k < length ns \<Longrightarrow>
    ms ! (length ms - 1 - k) = ns ! (length ns - 1 - k) \<and> ds ! (length ms - 1 - k) = es ! (length ns - 1 - k)"
proof (induction k)
  note a = load_chain_loads [OF l(1)] load_chain_loads [OF l(2)]
  have same: "ms ! p = ns ! q \<and> ds ! p = es ! q" if "p < length ms" "q < length ns" "hs ! p = gs ! q" for p q
  proof (rule loads_same)
    show "loads H (ms ! p) (ds ! p) (hs ! p)" "loads H (ns ! q) (es ! q) (hs ! p)" using a that by auto
    show "stored_canonical (ms ! p)" "stored_canonical (ns ! q)" using s that by auto
    show "inj_on H {the (ms ! p), the (ns ! q)}" by (rule inj_on_subset [OF i]) (use that in auto)
  qed
  {
    case 0
    with a have "hs \<noteq> []" "gs \<noteq> []" by auto
    with a e have "hs ! (length ms - 1) = gs ! (length ns - 1)" by (simp add: last_conv_nth)
    with 0 show ?case by (intro same) auto
  next
    case (Suc k)
    let ?i = "length ms - 1 - k" and ?j = "length ns - 1 - k"
    from Suc have "ds ! ?i = es ! ?j" by simp
    moreover have "rget (ds ! ?i) ''source_record_digest'' = JStr (hs ! (?i - 1))"
      "rget (es ! ?j) ''source_record_digest'' = JStr (gs ! (?j - 1))"
      using c [unfolded check_lineage_iff] a Suc.prems by auto
    ultimately have h: "hs ! (?i - 1) = gs ! (?j - 1)" by simp
    from same [OF _ _ h] Suc.prems have "ms ! (?i - 1) = ns ! (?j - 1) \<and> ds ! (?i - 1) = es ! (?j - 1)" by simp
    then show ?case by (simp add: diff_diff_left)
  }
qed

lemma lineage_binds:
  assumes l: "load_chain H ms = Inr (Some (ds, hs))" "load_chain H ns = Inr (Some (es, gs))"
    and c: "check_lineage R ds hs = Inr []" "check_lineage R es gs = Inr []"
    and s: "\<forall>m \<in> set ms \<union> set ns. stored_canonical m" and i: "inj_on H (the ` (set ms \<union> set ns))"
    and e: "last hs = last gs"
  shows "ms = ns"
proof -
  note a = load_chain_loads [OF l(1)] load_chain_loads [OF l(2)]
  note k = chains_agree [OF assms]
  note c = c [unfolded check_lineage_iff]
  have ne: "ds \<noteq> []" "es \<noteq> []" "rget (ds ! 0) ''operation'' = str ''execute''" "rget (es ! 0) ''operation'' = str ''execute''"
    using c by (metis hd_conv_nth)+
  have pos: "0 < length ms" "0 < length ns" using ne(1,2) a by auto
  have "\<not> length ms < length ns"
  proof
    assume h: "length ms < length ns"
    with k [of "length ms - 1"] pos have "ds ! 0 = es ! (length ns - length ms)" by auto
    moreover have "rget (es ! (length ns - length ms)) ''operation'' = str ''regrade''" using c(2) a h pos by auto
    ultimately show False using ne(3) by simp
  qed
  moreover have "\<not> length ns < length ms"
  proof
    assume h: "length ns < length ms"
    with k [of "length ns - 1"] pos have "ds ! (length ms - length ns) = es ! 0" by auto
    moreover have "rget (ds ! (length ms - length ns)) ''operation'' = str ''regrade''" using c(1) a h pos by auto
    ultimately show False using ne(4) by simp
  qed
  ultimately have n: "length ms = length ns" by simp
  show ?thesis
  proof (rule nth_equalityI [OF n])
    fix j assume "j < length ms"
    with n k [of "length ms - 1 - j"] show "ms ! j = ns ! j" by simp
  qed
qed

end

subsection \<open>Regrading\<close>

lemma regrade_stages:
  assumes "regrade T run sign now src m sg pub vf target vid stamp = Inr (staged, new, b, sig_text)"
  obtains raw_bytes d graded fa captured source where
    "m = Some raw_bytes" "as_object raw_bytes = Inr (Some d)" "contract_holds T src raw_bytes d sg pub"
    "stage_archive (tl_run T) src d = Inr staged" "run_verifier run vf (with_files target staged) = Inr graded"
    "collect_facts T graded (Some vf) = Inr (fa, captured)" "manifest_digest (rt_sha (tl_run T)) m = Inr source"
    "build (rt_sha (tl_run T)) now fa ''regrade'' vid (key_id (tl_run T) pub) (Some source) stamp (lit ''independent'') = Inr new"
    "canonical_bytes (JObj new) = Inr b" "sig_text = hex_of_bytes (sign b)"
proof -
  note a = assms [unfolded regrade_def Let_def]
  from a obtain oc where oc: "verify_record T src m sg pub = Inr oc" by (elim rbind_InrE)
  with a have v: "oc_verdict oc = Verified" by (auto split: if_splits)
  with oc obtain raw_bytes d where m: "m = Some raw_bytes" "as_object raw_bytes = Inr (Some d)" "contract_holds T src raw_bytes d sg pub"
    using verified_contract by blast
  then have r: "read_record m = Inr (Some d)" by (simp add: read_record_def)
  from a oc v r have a: "rbind (stage_archive (tl_run T) src d) (\<lambda>staged.
        rbind (run_verifier run vf (with_files target staged)) (\<lambda>graded.
        rbind (collect_facts T graded (Some vf)) (\<lambda>(fa, captured).
        rbind (manifest_digest (rt_sha (tl_run T)) m) (\<lambda>source.
        rbind (build (rt_sha (tl_run T)) now fa ''regrade'' vid (key_id (tl_run T) pub) (Some source) stamp (lit ''independent'')) (\<lambda>new.
        rbind (canonical_bytes (JObj new)) (\<lambda>b. Inr (staged, new, b, hex_of_bytes (sign b)))))))) = Inr (staged, new, b, sig_text)"
    by simp
  from a obtain s where s: "stage_archive (tl_run T) src d = Inr s" by (elim rbind_InrE)
  note a = a [unfolded s rbind.simps]
  from a obtain g where g: "run_verifier run vf (with_files target s) = Inr g" by (elim rbind_InrE)
  note a = a [unfolded g rbind.simps]
  from a obtain fa cap where f: "collect_facts T g (Some vf) = Inr (fa, cap)" by (elim rbind_InrE) auto
  note a = a [unfolded f rbind.simps prod.case]
  from a obtain source where h: "manifest_digest (rt_sha (tl_run T)) m = Inr source" by (elim rbind_InrE)
  note a = a [unfolded h rbind.simps]
  from a obtain n where n: "build (rt_sha (tl_run T)) now fa ''regrade'' vid (key_id (tl_run T) pub) (Some source) stamp (lit ''independent'') = Inr n"
    by (elim rbind_InrE)
  note a = a [unfolded n rbind.simps]
  from a obtain c where c: "canonical_bytes (JObj n) = Inr c" by (elim rbind_InrE)
  from a [unfolded c rbind.simps] have "staged = s" "new = n" "b = c" "sig_text = hex_of_bytes (sign c)" by auto
  with m s g f h n c that show thesis by simp
qed

text \<open>Every staged file is a covered archive file whose bytes were just checked.\<close>

lemma staged_checked:
  assumes "contract_holds T src raw_bytes d sg pub" "stage_archive (tl_run T) src d = Inr staged" "(p, x) \<in> set staged"
  shows "\<not> unsafe_path p \<and> (\<exists>e \<in> set (dict_entries d ''artifacts''). rget e ''role'' \<in> set (map str archive_roles) \<and>
    member_text_of (tl_run T) e ''path'' = p \<and> rget e ''sha256'' = JStr (sha256_hex (rt_sha (tl_run T)) x))"
proof -
  from assms(2) obtain ws where ws: "rmap (stage_entry (tl_run T) src) (dict_entries d ''artifacts'') = Inr ws" "staged = concat ws"
    by (auto simp: stage_archive_def elim!: rbind_InrE)
  from ws(2) assms(3) obtain w where w: "w \<in> set ws" "(p, x) \<in> set w" by auto
  from rmap_results [OF ws(1) w(1)] obtain e where e: "e \<in> set (dict_entries d ''artifacts'')" "stage_entry (tl_run T) src e = Inr w"
    by blast
  from e(2) w(2) have s: "rget e ''role'' \<in> set (map str archive_roles)" "member_text_of (tl_run T) e ''path'' = p" "fs_read src p = Some x"
    by (auto simp: stage_entry_def Let_def elim!: rbind_InrE split: if_splits option.splits)
  from assms(1) e(1) have "entry_holds (tl_run T) src e"
    by (auto simp: contract_holds_def covered_entries_def Let_def list_all_iff)
  with s e(1) show ?thesis by (auto simp: entry_holds_def Let_def)
qed

lemma build_members:
  assumes "build H now fa operation vid key source stamp producer = Inr d"
  shows "rget d ''operation'' = str operation" "rget d ''source_record_digest'' = opt_str source"
    "archive_digest H (fa_entries fa) = Inr (the_str (rget d ''source_archive_digest''))" "is_str (rget d ''source_archive_digest'')"
proof -
  let ?stamp = "case stamp of None \<Rightarrow> now | Some r \<Rightarrow> if r = [] then now else r"
  from assms obtain a v where d: "archive_digest H (fa_entries fa) = Inr a" "d = record_members fa operation vid key source ?stamp producer a v"
    by (auto simp: build_def Let_def elim!: rbind_InrE split: if_splits)
  then show "rget d ''operation'' = str operation" "rget d ''source_record_digest'' = opt_str source"
    "archive_digest H (fa_entries fa) = Inr (the_str (rget d ''source_archive_digest''))" "is_str (rget d ''source_archive_digest'')"
    by (simp_all add: record_members_def rget_def)
qed

text \<open>The pair of a source record and its regrade is a clean chain exactly when the source is an
  execute record and the archives agree.\<close>

lemma regrade_pair:
  assumes "regrade T run sign now src m sg pub vf target vid stamp = Inr (staged, new, b, sig_text)"
    and "load_chain (rt_sha (tl_run T)) [m] = Inr (Some ([d], [h]))"
  shows "check_lineage R [d, new] [h, h'] = Inr [] \<longleftrightarrow>
    rget d ''operation'' = str ''execute'' \<and> archive_of R new = archive_of R d"
proof -
  from assms(1) show ?thesis
  proof (rule regrade_stages)
    fix graded fa captured source raw_bytes d'
    assume s: "manifest_digest (rt_sha (tl_run T)) m = Inr source"
      and n: "build (rt_sha (tl_run T)) now fa ''regrade'' vid (key_id (tl_run T) pub) (Some source) stamp (lit ''independent'') = Inr new"
    from assms(2) s have "h = source" by (auto elim!: rbind_InrE split: option.splits)
    with build_members [OF n] show ?thesis
      by (auto simp: check_lineage_iff opt_str_def nth_Cons' less_Suc_eq)
  qed
qed

end
