(* ===== verification/Binding_Numbers.thy ===== *)
theory Binding_Numbers
  imports Binding_Codec Ijson_Laws
begin

section \<open>Whole numbers as floats\<close>

text \<open>
  A double holding an integer below 2 to the 53 is written as that integer: the shortest
  decimal that reads back is the integer's own digits, and both layouts keep them.  So
  \<open>canonical_bytes\<close> agrees with \<open>jcs_dumps\<close> wherever the floats are whole.
\<close>

subsection \<open>Rounding of integers\<close>

lemma bit_len_bounds: "0 < n \<Longrightarrow> 2 ^ (bit_len n - 1) \<le> n \<and> n < 2 ^ bit_len n \<and> 0 < bit_len n"
proof (induction n rule: bit_len.induct)
  case (1 n)
  show ?case
  proof (cases "n = 1")
    case True
    then show ?thesis by (simp add: bit_len.simps)
  next
    case False
    with 1 have h: "0 < n div 2" by simp
    with 1 have i: "2 ^ (bit_len (n div 2) - 1) \<le> n div 2" "n div 2 < 2 ^ bit_len (n div 2)" "0 < bit_len (n div 2)" by simp_all
    have b: "bit_len n = Suc (bit_len (n div 2))" using 1(2) by (simp add: bit_len.simps [of n])
    from i(3) have "(2::nat) ^ bit_len (n div 2) = 2 * 2 ^ (bit_len (n div 2) - 1)" by (simp flip: power_Suc)
    moreover have "n = 2 * (n div 2) + n mod 2" "n mod 2 < 2" by simp_all
    ultimately have "2 ^ bit_len (n div 2) \<le> n" "n < 2 * 2 ^ bit_len (n div 2)" using i(1,2) by linarith+
    then show ?thesis by (simp add: b)
  qed
qed

lemma round_exact: "0 < d \<Longrightarrow> round_half_even (m * d) d = m"
  by (simp add: round_half_even_def)

lemma nearest_double_int:
  assumes "0 < n" "n < 2 ^ 53"
  shows "nearest_double n 1 = Finite (of_nat n)"
proof -
  define t where "t = bit_len n - 1"
  from bit_len_bounds [OF assms(1)] have t: "2 ^ t \<le> n" "bit_len n = Suc t" by (simp_all add: t_def)
  from t(1) assms(2) have "(2::nat) ^ t < 2 ^ 53" by (rule le_less_trans)
  then have "t < 53" by (rule power_less_imp_less_exp [rotated]) simp
  then have le: "t \<le> 52" by simp
  have one: "bit_len 1 = 1" by (simp add: bit_len.simps)
  have e: "max (- 1074) (int t - 52) = int t - 52" using le by simp
  have n: "nat (52 - int t) = 52 - t" "nat (int t - 52) = 0" using le by simp_all
  have big: "\<not> 2 ^ 1024 \<le> n"
  proof
    assume "2 ^ 1024 \<le> n"
    moreover have "(2::nat) ^ 53 \<le> 2 ^ 1024" by (rule power_increasing) simp_all
    ultimately show False using assms(2) by simp
  qed
  have r: "round_half_even (n * 2 ^ (52 - t)) (Suc 0) = n * 2 ^ (52 - t)" using round_exact [of 1] by simp
  show ?thesis
    unfolding nearest_double_def Let_def t(2) one
    using t(1) big by (simp add: e n r)
qed

lemma nearest_double_large:
  assumes "2 ^ 53 \<le> n" "nearest_double n 1 = Finite q"
  shows "2 ^ 53 \<le> q"
proof -
  define t where "t = bit_len n - 1"
  have pos: "0 < n" using assms(1) by (auto intro: gr0I)
  from bit_len_bounds [OF this] have t: "2 ^ t \<le> n" "bit_len n = Suc t" "n < 2 ^ Suc t" by (simp_all add: t_def)
  from assms(1) t(3) have "(2::nat) ^ 53 < 2 ^ Suc t" by (rule le_less_trans)
  then have ge: "53 \<le> t" by (simp only: power_strict_increasing_iff)
  have one: "bit_len 1 = 1" by (simp add: bit_len.simps)
  have e: "max (- 1074) (int t - 52) = int t - 52" using ge by simp
  have n: "nat (52 - int t) = 0" "nat (int t - 52) = t - 52" using ge by simp_all
  let ?m = "round_half_even (n * 2 ^ 0) (1 * 2 ^ (t - 52))"
  from assms(2) have q: "q = of_nat (?m * 2 ^ (t - 52))"
    unfolding nearest_double_def Let_def t(2) one using t(1) by (simp add: e n split: if_splits)
  have "(2::nat) ^ (52 + (t - 52)) = 2 ^ 52 * 2 ^ (t - 52)" by (rule power_add)
  with ge have p: "(2::nat) ^ t = 2 ^ 52 * 2 ^ (t - 52)" by (simp only: le_add_diff_inverse)
  have "2 ^ 52 * 2 ^ (t - 52) \<le> n" using t(1) unfolding p .
  then have "2 ^ 52 \<le> n div 2 ^ (t - 52)" by (simp add: less_eq_div_iff_mult_less_eq)
  also have "\<dots> \<le> ?m" by (simp add: round_half_even_def Let_def)
  finally have "2 ^ 52 * 2 ^ (t - 52) \<le> ?m * 2 ^ (t - 52)" by simp
  then have "2 ^ t \<le> ?m * 2 ^ (t - 52)" unfolding p .
  moreover have "(2::nat) ^ 53 \<le> 2 ^ t" using ge by (intro power_increasing) simp_all
  ultimately have "2 ^ 53 \<le> ?m * 2 ^ (t - 52)" by (rule order_trans [rotated])
  then have "of_nat (2 ^ 53) \<le> (of_nat (?m * 2 ^ (t - 52)) :: rat)" by (simp only: of_nat_le_iff)
  then show ?thesis unfolding q by simp
qed

subsection \<open>Digits\<close>

definition strip_zeros :: "ustr \<Rightarrow> ustr" where
  "strip_zeros ds = rev (dropWhile (\<lambda>c. c = 0x30) (rev ds))"

lemma strip_zeros_append [simp]: "strip_zeros (ds @ replicate e 0x30) = strip_zeros ds"
proof -
  have "dropWhile (\<lambda>c. c = 0x30) (replicate e (0x30::nat) @ xs) = dropWhile (\<lambda>c. c = 0x30) xs" for xs
    by (induction e) auto
  then show ?thesis by (simp add: strip_zeros_def)
qed

lemma strip_zeros_split: "strip_zeros ds @ zeros_text (length ds - length (strip_zeros ds)) = ds"
proof -
  let ?z = "takeWhile (\<lambda>c. c = 0x30) (rev ds)" and ?r = "dropWhile (\<lambda>c. c = 0x30) (rev ds)"
  have "?z = replicate (length ?z) 0x30" by (induction "rev ds") (auto dest: set_takeWhileD intro!: replicate_eqI)
  moreover have "rev ?r @ rev ?z = ds" by (metis rev_append rev_rev_ident takeWhile_dropWhile_id)
  moreover have "length ds = length ?z + length ?r" by (metis length_append length_rev takeWhile_dropWhile_id)
  ultimately show ?thesis by (simp add: strip_zeros_def zeros_text_def) (metis rev_replicate)
qed

lemma length_strip_zeros: "length (strip_zeros ds) \<le> length ds"
  unfolding strip_zeros_def length_rev by (rule order_trans [OF length_dropWhile_le]) simp

lemma strip_digits_neq_Nil: "0 < n \<Longrightarrow> strip_zeros (dec_digits n) \<noteq> []"
proof
  assume n: "0 < n" and s: "strip_zeros (dec_digits n) = []"
  from s have "\<forall>c \<in> set (dec_digits n). c = 0x30" by (simp add: strip_zeros_def dropWhile_eq_Nil_conv)
  then have "hd (dec_digits n) = 0x30" by simp
  with dec_digits_hd [of n] n show False by simp
qed

lemma dec_digits_shift: "0 < m \<Longrightarrow> dec_digits (m * 10 ^ e) = dec_digits m @ replicate e 0x30"
proof (induction e)
  case (Suc e)
  have "m * 10 ^ Suc e = 10 * (m * 10 ^ e)" by simp
  moreover have "\<not> m * 10 ^ Suc e < 10" using Suc.prems by (simp add: Suc_leI)
  ultimately have "dec_digits (m * 10 ^ Suc e) = dec_digits (m * 10 ^ e) @ [0x30]"
    by (subst dec_digits.simps) simp
  with Suc show ?case by (simp add: replicate_append_same [symmetric])
qed simp

lemma length_digits_div:
  assumes "0 < n" "e < length (dec_digits n)"
  shows "length (dec_digits (n div 10 ^ e)) = length (dec_digits n) - e \<and> 0 < n div 10 ^ e"
  using assms(2)
proof (induction e)
  case (Suc e)
  let ?m = "n div 10 ^ e"
  from Suc have i: "length (dec_digits ?m) = length (dec_digits n) - e" "0 < ?m" by simp_all
  with Suc.prems have "1 < length (dec_digits ?m)" by simp
  then have ge: "\<not> ?m < 10" by (subst (asm) dec_digits.simps) (auto split: if_splits)
  then have "length (dec_digits ?m) = Suc (length (dec_digits (?m div 10)))" by (subst dec_digits.simps) simp
  moreover have "n div 10 ^ Suc e = ?m div 10" by (simp only: power_Suc2 div_mult2_eq)
  moreover have "0 < ?m div 10" using ge by (simp add: div_greater_zero_iff)
  ultimately show ?case using i by simp
qed (use assms(1) in simp)

subsection \<open>The shortest decimal of a whole number\<close>

lemma reads_back_int:
  assumes "0 < n" "n < 2 ^ 53" "0 < c"
  shows "reads_back n 1 (int e) c \<longleftrightarrow> c * 10 ^ e = n"
proof -
  have r: "reads_back n 1 (int e) c \<longleftrightarrow> nearest_double (c * 10 ^ e) 1 = Finite (of_nat n)" by (simp add: reads_back_def)
  have pos: "0 < c * 10 ^ e" using assms(3) by simp
  show ?thesis
  proof (cases "c * 10 ^ e < 2 ^ 53")
    case True
    show ?thesis unfolding r nearest_double_int [OF pos True] pyfloat.inject of_nat_eq_iff by simp
  next
    case False
    have "nearest_double (c * 10 ^ e) 1 \<noteq> Finite (of_nat n)"
    proof
      assume "nearest_double (c * 10 ^ e) 1 = Finite (of_nat n)"
      from nearest_double_large [OF _ this] False have "(2::rat) ^ 53 \<le> of_nat n" by simp
      then have "of_nat (2 ^ 53) \<le> (of_nat n :: rat)" by simp
      then show False using assms(2) by (simp only: of_nat_le_iff)
    qed
    with False assms(2) show ?thesis unfolding r by auto
  qed
qed

lemma decimal_point_int: "0 < n \<Longrightarrow> decimal_point n 1 = int (length (dec_digits n))"
proof -
  assume n: "0 < n"
  have one: "length (dec_digits 1) = 1" by (simp add: dec_digits.simps)
  have l: "0 < length (dec_digits n)" by simp
  have e: "int (length (dec_digits n)) - int 1 = int (length (dec_digits n) - 1)"
    by (rule of_nat_diff [symmetric]) (simp add: Suc_leI)
  have f: "int (length (dec_digits n) - 1) + 1 = int (length (dec_digits n))"
    by (subst of_nat_diff) (simp_all add: Suc_leI)
  have "1 * 10 ^ nat (int (length (dec_digits n) - 1)) \<le> n * 10 ^ nat (- int (length (dec_digits n) - 1))"
    using dec_digits_lower [OF n] by simp
  then show ?thesis unfolding decimal_point_def one e Let_def f by simp
qed

lemma shortest_from_int:
  assumes n: "0 < n" "n < 2 ^ 53"
  shows "1 \<le> k \<Longrightarrow> k \<le> length (dec_digits n) \<Longrightarrow> length (dec_digits n) - k < f \<Longrightarrow>
    shortest_from f k n 1 = (strip_zeros (dec_digits n), int (length (dec_digits n)))"
proof (induction f arbitrary: k)
  case (Suc f)
  define L where "L = length (dec_digits n)"
  define e where "e = L - k"
  have ek: "int L - int k = int e" and eL: "e < L" using Suc.prems by (simp_all add: e_def L_def)
  let ?m = "n div 10 ^ e"
  from length_digits_div [OF n(1), of e] eL Suc.prems have m: "length (dec_digits ?m) = k" "0 < ?m"
    by (simp_all add: L_def e_def)
  let ?cs = "filter (reads_back n 1 (int e)) (digit_candidates n (10 ^ e))"
  have s: "shortest_from (Suc f) k n 1 =
      (if ?cs = [] then shortest_from f (Suc k) n 1
       else (strip_zeros (dec_digits (hd ?cs)), int L + (int (length (dec_digits (hd ?cs))) - int k)))"
    unfolding shortest_from.simps Let_def decimal_point_int [OF n(1)] L_def [symmetric] ek strip_zeros_def by simp
  have c: "reads_back n 1 (int e) c \<longleftrightarrow> c * 10 ^ e = n" if "c \<in> {?m, Suc ?m}" for c
    using that m(2) by (intro reads_back_int [OF n]) auto
  show ?case
  proof (cases "10 ^ e dvd n")
    case True
    then have d: "?m * 10 ^ e = n" by simp
    then have "round_half_even n (10 ^ e) = ?m" using round_exact [of "10 ^ e" ?m] by simp
    then have cs: "digit_candidates n (10 ^ e) = [?m, Suc ?m]" by (simp add: digit_candidates_def Let_def)
    then have h: "?cs \<noteq> []" "hd ?cs = ?m" using c d by simp_all
    have "dec_digits n = dec_digits ?m @ replicate e 0x30" using dec_digits_shift [OF m(2), of e] d by simp
    then have z: "strip_zeros (dec_digits ?m) = strip_zeros (dec_digits n)" using strip_zeros_append by metis
    show ?thesis using h(1) unfolding s h(2) m(1) z by (simp add: L_def)
  next
    case False
    then have "?m * 10 ^ e \<noteq> n" "Suc ?m * 10 ^ e \<noteq> n" by (metis dvd_triv_right)+
    then have "?cs = []" using c by (auto simp: digit_candidates_def Let_def filter_empty_conv)
    moreover from False have "e \<noteq> 0" by (metis one_dvd power_0)
    ultimately show ?thesis using Suc.IH [of "Suc k"] Suc.prems unfolding s by (simp add: e_def L_def)
  qed
qed simp

lemma float_repr_int:
  assumes n: "0 < n" "n < 2 ^ 53"
  shows "float_repr (of_nat n) = dec_digits n @ lit ''.0''"
proof -
  have q: "quotient_of (of_nat n) = (int n, 1)" by (simp add: of_nat_rat quotient_of_Fract normalize_def)
  have b: "n < 10 ^ 16" using n(2) by simp
  have L: "length (dec_digits n) \<le> 16" by (rule length_dec_digits [OF b]) simp
  have l1: "1 \<le> length (dec_digits n)" by (simp add: Suc_leI)
  have "shortest_digits n 1 = (strip_zeros (dec_digits n), int (length (dec_digits n)))"
    unfolding shortest_digits_def by (rule shortest_from_int [OF n]) (use L l1 in simp_all)
  moreover have "int (length (strip_zeros (dec_digits n))) \<le> int (length (dec_digits n))" using length_strip_zeros by simp
  ultimately have "float_repr (of_nat n) =
      strip_zeros (dec_digits n) @ zeros_text (length (dec_digits n) - length (strip_zeros (dec_digits n))) @ lit ''.0''"
    using L l1 by (simp add: float_repr_def q layout_repr_def)
  then show ?thesis using strip_zeros_split [of "dec_digits n"] by (metis append_assoc)
qed

lemma digits_plain: "x \<in> set (dec_digits n) \<Longrightarrow> x \<noteq> 0x65 \<and> x \<noteq> 0x2E"
  using dec_digits_digits [of n] by (auto simp: list_all_iff is_digit_def)

lemma partition_at_absent: "c \<notin> set s \<Longrightarrow> partition_at c s = (s, [])"
proof -
  assume "c \<notin> set s"
  then have "dropWhile (\<lambda>x. x \<noteq> c) s = []" "takeWhile (\<lambda>x. x \<noteq> c) s = s"
    by (auto simp: dropWhile_eq_Nil_conv takeWhile_eq_all_conv)
  then show ?thesis by (simp only: partition_at_def drop_Nil)
qed

lemma partition_at_here: "c \<notin> set s \<Longrightarrow> partition_at c (s @ c # r) = (s, r)"
  by (auto simp: partition_at_def takeWhile_append dropWhile_append)

lemma es6_positive_int:
  assumes n: "0 < n" "n < 2 ^ 53"
  shows "es6_positive (of_nat n) = dec_digits n"
proof -
  let ?ds = "dec_digits n" and ?s = "strip_zeros (dec_digits n)"
  have dot: "lit ''.0'' = [0x2E, 0x30]" by (simp add: lit_def)
  have p: "partition_at 0x65 (?ds @ [0x2E, 0x30]) = (?ds @ [0x2E, 0x30], [])" "partition_at 0x2E (?ds @ [0x2E, 0x30]) = (?ds, [0x30])"
    by (rule partition_at_absent partition_at_here, use digits_plain in force)+
  have w: "?ds \<noteq> [0x30]" using dec_digits_hd [of n] n(1) by auto
  have nz: "\<not> (\<forall>x \<in> set ?ds. x = 0x30)"
    using dec_digits_hd [of n] n(1) list.set_sel(1) [OF dec_digits_neq_Nil [of n]] by auto
  have z: "rev (dropWhile (\<lambda>c. c = 0x30) (rev (?ds @ [0x30]))) = ?s" by (simp add: strip_zeros_def)
  have r: "repr_digits (float_repr (of_nat n)) = (?s, int (length ?ds))"
    unfolding float_repr_int [OF n] dot repr_digits_def p Let_def prod.case
    using w z nz strip_digits_neq_Nil [OF n(1)] by auto
  have b: "n < 10 ^ 16" using n(2) by simp
  have L: "length ?ds \<le> 16" by (rule length_dec_digits [OF b]) simp
  have "es6_layout (?s, int (length ?ds)) = ?s @ zeros_text (length ?ds - length ?s)"
    using L length_strip_zeros [of ?ds] by (simp add: es6_layout_def Let_def nat_diff_distrib)
  then show ?thesis unfolding es6_positive_def r by (simp add: strip_zeros_split)
qed

theorem es6_number_int:
  assumes "\<bar>i\<bar> < safe_int_limit"
  shows "es6_number (Finite (of_int i)) = Inr (str_of_int i)"
proof -
  have b: "nat \<bar>i\<bar> < 2 ^ 53" using assms by (simp add: safe_int_limit_def nat_less_iff)
  consider "i = 0" | "0 < i" | "i < 0" by linarith
  then show ?thesis
  proof cases
    case 1
    then show ?thesis by (simp add: str_of_int_def)
  next
    case 2
    have q: "(of_int i :: rat) = of_nat (nat i)" using 2 by simp
    have "es6_number (Finite (of_nat (nat i))) = Inr (es6_positive (of_nat (nat i)))" using 2 by simp
    also have "es6_positive (of_nat (nat i)) = dec_digits (nat i)" by (rule es6_positive_int) (use 2 b in simp_all)
    finally show ?thesis unfolding q using 2 by (simp add: str_of_int_def)
  next
    case 3
    have q: "(of_int i :: rat) = - of_nat (nat (- i))" using 3 by simp
    have "es6_number (Finite (- of_nat (nat (- i)))) = Inr (0x2D # es6_positive (of_nat (nat (- i))))" using 3 by simp
    also have "es6_positive (of_nat (nat (- i))) = dec_digits (nat (- i))" by (rule es6_positive_int) (use 3 b in simp_all)
    finally show ?thesis unfolding q using 3 by (simp add: str_of_int_def)
  qed
qed

subsection \<open>Agreement with the reference serializer\<close>

text \<open>The values both serializers write: floats are whole and below 2 to the 53.\<close>

definition whole_float :: "pyfloat \<Rightarrow> bool" where
  "whole_float f \<longleftrightarrow> (case f of Finite q \<Rightarrow> snd (quotient_of q) = 1 \<and> \<bar>fst (quotient_of q)\<bar> < safe_int_limit | _ \<Rightarrow> False)"

fun bind_value :: "json \<Rightarrow> bool" where
  "bind_value (JFloat f) = whole_float f"
| "bind_value (JInt i) = (\<bar>i\<bar> < safe_int_limit)"
| "bind_value (JArr xs) = list_all bind_value xs"
| "bind_value (JObj d) =
     (distinct (map fst d) \<and> list_all (\<lambda>m. scalars (fst m) \<and> bmp (fst m) \<and> bind_value (snd m)) d)"
| "bind_value (JStr s) = scalars s"
| "bind_value v = True"

text \<open>The same value with its whole floats as integers, which is what a decoder reads back.\<close>

fun whole :: "json \<Rightarrow> json" where
  "whole (JFloat (Finite q)) = JInt (fst (quotient_of q))"
| "whole (JArr xs) = JArr (map whole xs)"
| "whole (JObj d) = JObj (map (\<lambda>m. (fst m, whole (snd m))) d)"
| "whole v = v"

lemma whole_float_cases:
  assumes "whole_float f"
  obtains i where "f = Finite (of_int i)" "\<bar>i\<bar> < safe_int_limit" "fst (quotient_of (of_int i)) = i"
proof -
  from assms obtain q where q: "f = Finite q" "snd (quotient_of q) = 1" "\<bar>fst (quotient_of q)\<bar> < safe_int_limit"
    by (auto simp: whole_float_def split: pyfloat.splits)
  then have "q = of_int (fst (quotient_of q))" by (metis div_by_1 of_int_1 prod.collapse quotient_of_div)
  with q that [of "fst (quotient_of q)"] show thesis by metis
qed

lemma whole_jcs_value: "bind_value v \<Longrightarrow> jcs_value (whole v)"
proof (induction v rule: bind_value.induct)
  case (1 f)
  then obtain i where "f = Finite (of_int i)" "\<bar>i\<bar> < safe_int_limit" "fst (quotient_of (of_int i)) = i"
    by (auto elim: whole_float_cases)
  then show ?case by simp
next
  case (4 d)
  have "map fst (map (\<lambda>m. (fst m, whole (snd m))) d) = map fst d" by simp
  with 4 show ?case by (auto simp: list_all_iff simp del: map_map)
qed (auto simp: list_all_iff)

lemma whole_text: "bind_value v \<Longrightarrow> bind_encode v = jcs_ser (whole v)"
proof (induction v rule: bind_encode.induct)
  case (1 d)
  show ?case
  proof (cases "list_ex (\<lambda>m. list_ex is_surrogate (fst m)) d")
    case True
    then show ?thesis by (simp add: list_ex_iff)
  next
    case False
    have "rmap (\<lambda>m. rbind (bind_encode (snd m)) (\<lambda>t. Inr (jcs_string (fst m) @ 0x3A # t))) (sort_members d) =
        rmap (\<lambda>m. rbind (jcs_ser (whole (snd m))) (\<lambda>t. Inr (jcs_string (fst m) @ 0x3A # t))) (sort_members d)"
    proof (rule rmap_cong [OF refl])
      fix m assume "m \<in> set (sort_members d)"
      then have "bind_encode (snd m) = jcs_ser (whole (snd m))" using 1 False by (auto simp: list_all_iff)
      then show "rbind (bind_encode (snd m)) (\<lambda>t. Inr (jcs_string (fst m) @ 0x3A # t)) =
          rbind (jcs_ser (whole (snd m))) (\<lambda>t. Inr (jcs_string (fst m) @ 0x3A # t))" by simp
    qed
    with False show ?thesis by (simp add: sort_members_map rmap_map list_ex_iff)
  qed
next
  case (2 xs)
  then have "rmap bind_encode xs = rmap (\<lambda>x. jcs_ser (whole x)) xs" by (intro rmap_cong) (auto simp: list_all_iff)
  then show ?case by (simp add: rmap_map)
next
  case (5 i)
  then show ?case using safe_digits [of i] by (simp add: int_text_def)
next
  case (6 f)
  then obtain i where "f = Finite (of_int i)" "\<bar>i\<bar> < safe_int_limit" "fst (quotient_of (of_int i)) = i"
    by (auto elim: whole_float_cases)
  with es6_number_int [of i] show ?case by simp
qed auto

lemma jcs_text: "bind_value v \<Longrightarrow> jcs_ser v = jcs_ser (whole v)"
proof (induction v rule: jcs_ser.induct)
  case (4 f)
  then obtain i where i: "f = Finite (of_int i)" "\<bar>i\<bar> < safe_int_limit" "fst (quotient_of (of_int i)) = i"
    by (auto elim: whole_float_cases)
  with 4 have "snd (quotient_of (rat_of_int i)) = 1" by (simp add: whole_float_def)
  with i show ?case by simp
next
  case (6 xs)
  then have "rmap jcs_ser xs = rmap (\<lambda>x. jcs_ser (whole x)) xs" by (intro rmap_cong) (auto simp: list_all_iff)
  then show ?case by (simp add: rmap_map)
next
  case (7 d)
  show ?case
  proof (cases "list_ex (\<lambda>m. list_ex is_surrogate (fst m)) d")
    case True
    then show ?thesis by (simp add: list_ex_iff)
  next
    case False
    have "rmap (\<lambda>m. rbind (jcs_ser (snd m)) (\<lambda>t. Inr (jcs_string (fst m) @ 0x3A # t))) (sort_members d) =
        rmap (\<lambda>m. rbind (jcs_ser (whole (snd m))) (\<lambda>t. Inr (jcs_string (fst m) @ 0x3A # t))) (sort_members d)"
    proof (rule rmap_cong [OF refl])
      fix m assume "m \<in> set (sort_members d)"
      then have "jcs_ser (snd m) = jcs_ser (whole (snd m))" using 7 False by (auto simp: list_all_iff)
      then show "rbind (jcs_ser (snd m)) (\<lambda>t. Inr (jcs_string (fst m) @ 0x3A # t)) =
          rbind (jcs_ser (whole (snd m))) (\<lambda>t. Inr (jcs_string (fst m) @ 0x3A # t))" by simp
    qed
    with False show ?thesis by (simp add: sort_members_map rmap_map list_ex_iff)
  qed
qed auto

theorem bind_encode_agrees: "bind_value v \<Longrightarrow> canonical_bytes v = jcs_dumps v"
  by (simp add: canonical_bytes_def jcs_dumps_def whole_text jcs_text)

lemma scalars_join: "list_all scalars ts \<Longrightarrow> scalars (comma_join ts)"
  by (induction ts rule: comma_join.induct) (auto simp: scalar_def is_surrogate_def)

lemma whole_scalars: "bind_value v \<Longrightarrow> jcs_ser (whole v) = Inr t \<Longrightarrow> scalars t"
proof (induction v arbitrary: t rule: bind_value.induct)
  case (1 f)
  then obtain i where "f = Finite (of_int i)" "\<bar>i\<bar> < safe_int_limit" "fst (quotient_of (of_int i)) = i"
    by (auto elim: whole_float_cases)
  with 1 show ?case using str_of_int_no_quote [of i] by simp
next
  case (2 i)
  then show ?case using str_of_int_no_quote [of i] by simp
next
  case (3 xs)
  from "3.prems"(2) obtain ts where t: "rmap (\<lambda>x. jcs_ser (whole x)) xs = Inr ts" "t = 0x5B # comma_join ts @ [0x5D]"
    by (auto simp: rmap_map elim!: rbind_InrE)
  have "scalars u" if "u \<in> set ts" for u
    using rmap_results [OF t(1) that] "3.IH" "3.prems"(1) by (auto simp: list_all_iff)
  then show ?case using scalars_join [of ts] by (simp add: t(2) list_all_iff scalar_def is_surrogate_def)
next
  case (4 d)
  from "4.prems"(2) obtain ts where t: "t = 0x7B # comma_join ts @ [0x7D]"
    "rmap (\<lambda>m. rbind (jcs_ser (whole (snd m))) (\<lambda>t. Inr (jcs_string (fst m) @ 0x3A # t))) (sort_members d) = Inr ts"
    by (auto simp: sort_members_map rmap_map elim!: rbind_InrE split: if_splits)
  have "scalars u" if u: "u \<in> set ts" for u
  proof -
    from rmap_results [OF t(2) u] obtain m w where m: "m \<in> set d" "jcs_ser (whole (snd m)) = Inr w" "u = jcs_string (fst m) @ 0x3A # w"
      by (auto elim!: rbind_InrE)
    with 4 have "scalars w" "scalars (fst m)" by (auto simp: list_all_iff)
    then show ?thesis using jcs_string_scalars by (simp add: m(3) scalar_def is_surrogate_def)
  qed
  then show ?case using scalars_join [of ts] by (simp add: t(1) list_all_iff scalar_def is_surrogate_def)
qed (auto simp: jcs_string_scalars lit_scalars split: if_splits)

lemma bind_value_canon: "bind_value v \<Longrightarrow> bind_value (canon (whole v)) \<and> whole (canon (whole v)) = canon (whole v)"
proof (induction v rule: bind_value.induct)
  case (1 f)
  then obtain i where "f = Finite (of_int i)" "\<bar>i\<bar> < safe_int_limit" "fst (quotient_of (of_int i)) = i"
    by (auto elim: whole_float_cases)
  then show ?case by simp
next
  case (4 d)
  define e where "e = sort_members (map (\<lambda>m. (fst m, canon (whole (snd m)))) d)"
  have c: "canon (whole (JObj d)) = JObj e" by (simp add: e_def comp_def)
  have d: "distinct (map fst e)" using "4.prems" by (simp add: e_def distinct_sort_members comp_def)
  have w: "whole (snd m) = snd m" "scalars (fst m) \<and> bmp (fst m) \<and> bind_value (snd m)" if "m \<in> set e" for m
  proof -
    from that obtain m' where m: "m' \<in> set d" "m = (fst m', canon (whole (snd m')))" by (auto simp: e_def)
    with "4.prems" have "scalars (fst m')" "bmp (fst m')" "bind_value (snd m')" by (auto simp: list_all_iff)
    with "4.IH" [OF m(1)] show "whole (snd m) = snd m" "scalars (fst m) \<and> bmp (fst m) \<and> bind_value (snd m)"
      by (simp_all add: m(2))
  qed
  have "map (\<lambda>m. (fst m, whole (snd m))) e = e" by (rule map_idI) (simp add: w(1))
  moreover have "bind_value (JObj e)" using d w(2) by (simp add: list_all_iff)
  ultimately show ?case unfolding c by simp
qed (auto simp: list_all_iff)

lemma canonical_bytes_total: "bind_value v \<Longrightarrow> \<exists>b. canonical_bytes v = Inr b"
proof -
  assume v: "bind_value v"
  from jcs_ser_reads [OF whole_jcs_value [OF v] keeps_distinct_hooks(1)] obtain t where t: "jcs_ser (whole v) = Inr t" by blast
  with whole_scalars [OF v t] show ?thesis by (simp add: canonical_bytes_def whole_text v utf8_encode_scalars)
qed

text \<open>Decoding the canonical bytes gives the value in canonical order, whole floats as integers.\<close>

theorem canonical_bytes_decode:
  assumes "bind_value v" "canonical_bytes v = Inr b"
  shows "decode_json b = Inr (Some (canon (whole v))) \<and> canonical_bytes (canon (whole v)) = Inr b"
proof -
  from assms obtain t where t: "jcs_ser (whole v) = Inr t" "utf8_encode t = Inr b"
    by (auto simp: canonical_bytes_def whole_text elim!: rbind_InrE)
  have sc: "scalars t" using whole_scalars [OF assms(1) t(1)] .
  with t(2) have "b = utf8_bytes t" by (simp add: utf8_encode_scalars)
  with sc have u: "utf8_decode b = Some t" by (simp add: utf8_decode_encode)
  have p: "json_loads_default t = Inr (canon (whole v))"
    unfolding json_loads_default_def by (rule jcs_ser_parses [OF whole_jcs_value [OF assms(1)] keeps_distinct_hooks(3) t(1)])
  have "canonical_bytes (canon (whole v)) = Inr b"
    using bind_value_canon [OF assms(1)] by (simp add: canonical_bytes_def whole_text jcs_ser_canon t)
  with u p show ?thesis by (simp add: decode_json_def)
qed

end
