(* ===== verification/Binding_Round_Trip.thy ===== *)
theory Binding_Round_Trip
  imports Binding_Laws Binding_Numbers
begin

section \<open>An honest record verifies\<close>

text \<open>
  \<open>cmd_build\<close> followed by \<open>verify_record\<close> on the directory it leaves: the record is decoded from
  its canonical bytes, every covered file is found as it was read, and the signature file is
  read back.
\<close>

subsection \<open>Reading the record back\<close>

definition parsed :: "json \<Rightarrow> json" where
  "parsed v = canon (whole v)"

lemma parsed_simps [simp]:
  "parsed (JStr s) = JStr s" "parsed JNull = JNull" "parsed (JBool c) = JBool c" "parsed (JInt i) = JInt i"
  "parsed (JArr xs) = JArr (map parsed xs)" "parsed (opt_str t) = opt_str t"
  by (simp_all add: parsed_def opt_str_def split: option.split)

lemma parsed_obj: "\<exists>d'. parsed (JObj d) = JObj d'"
  by (simp add: parsed_def)

lemma dget_parsed:
  assumes "distinct (map fst d)"
  shows "dget (the_obj (parsed (JObj d))) k = parsed (dget d k)"
proof -
  let ?e = "map (\<lambda>m. (fst m, parsed (snd m))) d"
  have e: "the_obj (parsed (JObj d)) = sort_members ?e" by (simp add: parsed_def comp_def)
  have "distinct (map fst ?e)" using assms by (simp add: comp_def)
  then have "map_of (sort_members ?e) = map_of ?e"
    by (intro map_of_inject_set [THEN iffD2]) (simp_all add: distinct_sort_members)
  moreover have "map_of ?e k = map_option parsed (map_of d k)" by (induction d) auto
  ultimately show ?thesis unfolding e dget_def by (cases "map_of d k") simp_all
qed

lemma rget_parsed: "distinct (map fst d) \<Longrightarrow> rget (the_obj (parsed (JObj d))) k = parsed (rget d k)"
  by (simp add: rget_def dget_parsed)

definition entry_dict :: "entry \<Rightarrow> dict" where
  "entry_dict e = the_obj (parsed (entry_json e))"

lemma entry_dict_members [simp]:
  "rget (entry_dict e) ''role'' = JStr (en_role e)" "rget (entry_dict e) ''path'' = JStr (en_path e)"
  "rget (entry_dict e) ''length'' = JInt (int (en_length e))" "rget (entry_dict e) ''sha256'' = JStr (en_sha256 e)"
  unfolding entry_dict_def entry_json_def
  by (subst rget_parsed, simp add: lit_def, simp add: rget_def lit_def)+

lemma rhas_rget: "rget d k \<noteq> JNull \<Longrightarrow> rhas d k"
  using not_dmem_dget by (auto simp: rget_def rhas_def)

lemma entry_dict_texts [simp]:
  "member_text_of R (entry_dict e) ''role'' = en_role e" "member_text_of R (entry_dict e) ''path'' = en_path e"
  using rhas_rget [of "entry_dict e" "''role''"] rhas_rget [of "entry_dict e" "''path''"]
  by (simp_all add: member_text_of_def py_str_def)

lemma dict_entries_parsed:
  "rget r k = parsed (sorted_entries es) \<Longrightarrow> dict_entries r k = map entry_dict (sort_entries es)"
proof -
  have "is_obj (parsed (entry_json e))" for e using parsed_obj by (auto simp: entry_json_def is_obj_iff)
  then show "rget r k = parsed (sorted_entries es) \<Longrightarrow> ?thesis"
    by (simp add: dict_entries_def sorted_entries_def filter_map comp_def entry_dict_def)
qed

lemma set_sort_entries [simp]: "set (sort_entries es) = set es"
  by (simp add: sort_entries_def)

subsection \<open>Covered files\<close>

definition entry_ok :: "runtime \<Rightarrow> files \<Rightarrow> entry \<Rightarrow> bool" where
  "entry_ok R fs e \<longleftrightarrow> \<not> unsafe_path (en_path e) \<and> fs_file fs (en_path e) \<and>
     (\<exists>b. fs_read fs (en_path e) = Some b \<and> e = entry_of (rt_sha R) (en_role e) (en_path e) b)"

lemma entry_ok_holds: "entry_ok R fs e \<Longrightarrow> entry_holds R fs (entry_dict e)"
  by (auto simp: entry_ok_def entry_holds_def entry_of_def Let_def) (metis entry.select_convs(3,4))+

subsection \<open>Signature files\<close>

lemma from_hex_digits: "bytes_ok bs \<Longrightarrow> from_hex (hex_of_bytes bs) = Inr bs"
proof (induction bs)
  case (Cons x bs)
  then have x: "x div 16 < 16" "x mod 16 < 16" by (simp_all add: less_mult_imp_div_less)
  have "\<not> ascii_space (hex_digit n)" if "n < 16" for n using that by (auto simp: ascii_space_def hex_digit_def)
  with x Cons hex_val_digit [OF x(1)] hex_val_digit [OF x(2)] show ?case
    by (simp add: hex_of_bytes_def)
qed (simp add: hex_of_bytes_def)

lemma hex_chars: "c \<in> set (hex_of_bytes bs) \<Longrightarrow> bytes_ok bs \<Longrightarrow> c < 0x80 \<and> \<not> ascii_space c"
proof -
  assume "c \<in> set (hex_of_bytes bs)" "bytes_ok bs"
  then obtain x where x: "x < 256" "c = hex_digit (x div 16) \<or> c = hex_digit (x mod 16)"
    by (auto simp: hex_of_bytes_def bytes_ok_def list_all_iff)
  from x(1) have "x div 16 < 16" by (simp add: less_mult_imp_div_less)
  with x(2) is_hex_lower_digit [of "x div 16"] is_hex_lower_digit [of "x mod 16"] have "is_hex_lower c" by auto
  then show ?thesis by (auto simp: is_hex_lower_def ascii_space_def)
qed

lemma strip_plain: "(\<And>c. c \<in> set s \<Longrightarrow> \<not> ascii_space c) \<Longrightarrow> bytes_strip s = s"
proof -
  assume h: "\<And>c. c \<in> set s \<Longrightarrow> \<not> ascii_space c"
  have "dropWhile ascii_space t = t" if "set t \<subseteq> set s" for t using h that by (cases t) auto
  from this [of s] this [of "rev s"] show ?thesis by (simp add: bytes_strip_def)
qed

lemma utf8_decode_ascii: "\<forall>c \<in> set s. c < 0x80 \<Longrightarrow> utf8_decode s = Some s"
proof -
  assume h: "\<forall>c \<in> set s. c < 0x80"
  then have "scalars s" by (fastforce simp: scalars_def scalar_def is_surrogate_def list_all_iff)
  moreover have "utf8_bytes s = s" using h by (intro utf8_ascii) (simp add: list_all_iff)
  ultimately show ?thesis using utf8_decode_encode [of s] by simp
qed

lemma signature_file_reads:
  assumes "length s = signature_length" "bytes_ok s" "rt_sig R pub b s"
  shows "signed_by R b (Some (hex_of_bytes s)) pub"
proof -
  have c: "\<And>c. c \<in> set (hex_of_bytes s) \<Longrightarrow> \<not> ascii_space c" "\<forall>c \<in> set (hex_of_bytes s). c < 0x80"
    using hex_chars [OF _ assms(2)] by blast+
  have "length (hex_of_bytes s) = signature_length * 2" using assms(1) by (simp add: hex_of_bytes_def length_concat comp_def sum_list_triv)
  then have "hex_or_raw signature_length (bytes_strip (hex_of_bytes s)) = Inr s"
    using strip_plain [OF c(1)] utf8_decode_ascii [OF c(2)] from_hex_digits [OF assms(2)] by (simp add: hex_or_raw_def)
  with assms show ?thesis by (simp add: signed_by_def verify_bytes_def)
qed

subsection \<open>The members of a decoded record\<close>

lemma number_float_whole: "whole_float f \<Longrightarrow> number_float (parsed (JFloat f)) = Inr (Some f) \<and> f \<noteq> NaN"
proof -
  assume "whole_float f"
  then obtain i where i: "f = Finite (of_int i)" "\<bar>i\<bar> < safe_int_limit" "fst (quotient_of (of_int i)) = i"
    by (rule whole_float_cases)
  have "int_float i = Finite (of_int i)"
  proof (cases "i = 0")
    case False
    have "nearest_double (nat \<bar>i\<bar>) 1 = Finite (of_nat (nat \<bar>i\<bar>))"
      by (rule nearest_double_int) (use False i(2) in \<open>auto simp: safe_int_limit_def nat_less_iff\<close>)
    with False show ?thesis by (simp add: int_float_def)
  qed (simp add: int_float_def)
  with i show ?thesis by (simp add: parsed_def number_float_def)
qed

lemma rget_Cons [simp]: "rget ((lit k, v) # d) j = (if j = k then v else rget d j)"
  using str_inj [of j k] by (simp add: rget_def str_def)

lemma rget_Nil [simp]: "rget [] j = JNull"
  by (simp add: rget_def)

lemma record_names: "distinct (map fst (record_members fa operation vid key source stamp producer archive verifier))"
  by (simp add: record_members_def lit_def)

lemma record_gets:
  assumes "d = record_members fa operation vid key source stamp producer archive verifier"
    and "r = the_obj (parsed (JObj d))"
  shows "rget r ''schema_version'' = str schema_version" "rget r ''signer_key_id'' = JStr key"
    "rget r ''artifacts'' = parsed (sorted_entries (fa_entries fa))"
    "rget (the_obj (rget r ''verification_inputs'')) ''grading_inputs'' = parsed (sorted_entries (fa_grading_inputs fa))"
    "rget (the_obj (rget r ''dependencies'')) ''status'' = str (if fa_uncovered fa \<noteq> [] then ''incomplete'' else ''covered'')"
    "rget (the_obj (rget r ''graded_outcome'')) ''reward'' = parsed (opt_float (fa_reward fa))"
    "rget (the_obj (rget r ''graded_outcome'')) ''source_path'' = (case fa_reward_path fa of None \<Rightarrow> JNull | Some p \<Rightarrow> str p)"
    "rget (the_obj (rget r ''atif'')) ''present'' = JBool (list_ex (\<lambda>e. en_role e = lit ''atif_trajectory'') (fa_entries fa))"
    "rget (the_obj (rget r ''atif'')) ''trajectory_id'' = opt_str (fa_trajectory_id fa)"
    "rget (the_obj (rget r ''atif'')) ''document_sha256'' = opt_str (map_option en_sha256 (first_of_role ''atif_trajectory'' (fa_entries fa)))"
proof -
  have g: "rget r k = parsed (rget d k)" for k unfolding assms(2) by (rule rget_parsed) (simp add: assms(1) record_names)
  have o: "rget (the_obj (parsed (JObj e))) k = parsed (rget e k)" if "distinct (map fst e)" for e k
    using that by (rule rget_parsed)
  have n: "distinct (map fst [(lit ''verifier_id'', a), (lit ''verifier_digest'', b), (lit ''grading_inputs'', c)])"
    "distinct (map fst [(lit ''status'', a), (lit ''uncovered'', b)])" "distinct (map fst [(lit ''reward'', a), (lit ''source_path'', b)])"
    "distinct (map fst [(lit ''present'', a), (lit ''trajectory_id'', b), (lit ''document_sha256'', c), (lit ''pointer'', e)])"
    for a b c e :: json by (simp_all add: lit_def)
  note s = g assms(1) record_members_def o [OF n(1)] o [OF n(2)] o [OF n(3)] o [OF n(4)]
  show "rget r ''schema_version'' = str schema_version" "rget r ''signer_key_id'' = JStr key"
    "rget r ''artifacts'' = parsed (sorted_entries (fa_entries fa))"
    by (simp_all add: g assms(1) record_members_def str_def)
  show "rget (the_obj (rget r ''verification_inputs'')) ''grading_inputs'' = parsed (sorted_entries (fa_grading_inputs fa))"
    "rget (the_obj (rget r ''dependencies'')) ''status'' = str (if fa_uncovered fa \<noteq> [] then ''incomplete'' else ''covered'')"
    "rget (the_obj (rget r ''graded_outcome'')) ''reward'' = parsed (opt_float (fa_reward fa))"
    "rget (the_obj (rget r ''graded_outcome'')) ''source_path'' = (case fa_reward_path fa of None \<Rightarrow> JNull | Some p \<Rightarrow> str p)"
    "rget (the_obj (rget r ''atif'')) ''present'' = JBool (list_ex (\<lambda>e. en_role e = lit ''atif_trajectory'') (fa_entries fa))"
    "rget (the_obj (rget r ''atif'')) ''trajectory_id'' = opt_str (fa_trajectory_id fa)"
    "rget (the_obj (rget r ''atif'')) ''document_sha256'' = opt_str (map_option en_sha256 (first_of_role ''atif_trajectory'' (fa_entries fa)))"
    by (simp_all add: s str_def split: option.split)
qed

lemma record_reward_whole:
  assumes "bind_value (JObj (record_members fa operation vid key source stamp producer archive verifier))" "fa_reward fa = Some f"
  shows "whole_float f"
  using assms by (simp add: record_members_def opt_float_def)

text \<open>A run of the checks in which only the completeness checks may add codes.\<close>

lemma verify_soft:
  assumes "check_encoding b = Inr (Some d, [])" "check_signer (tl_run T) d pub = []" "check_signature (tl_run T) b sg pub = Inr []"
    and "check_artifacts (tl_run T) fs d = Inr (roles, False, [])" "check_outcome T fs d = Inr []" "check_atif (tl_run T) fs d = Inr []"
  shows "\<exists>oc. verify_record T fs (Some b) sg pub = Inr oc \<and> oc_verdict oc \<noteq> Failed \<and>
    (oc_verdict oc = Verified \<longleftrightarrow> set (map lit required_roles) \<subseteq> set roles \<and>
       rget (the_obj (rget d ''dependencies'')) ''status'' \<noteq> str ''incomplete'')"
proof -
  obtain missing c5 where p: "check_profile roles = (missing, c5)" by fastforce
  obtain incomplete c6 where i: "check_dependencies d = (incomplete, c6)" by fastforce
  let ?oc = "settle (c5 @ c6) False missing incomplete"
  have v: "verify_record T fs (Some b) sg pub = Inr ?oc" using assms by (simp add: verify_record_def Let_def p i)
  have "set (c5 @ c6) \<subseteq> set inconclusive"
    using check_profile_codes [OF p] check_dependencies_codes [OF i] by (auto simp: inconclusive_def)
  then have "oc_verdict ?oc \<noteq> Failed" by (auto simp: settle_verdict)
  moreover have "oc_verdict ?oc = Verified \<longleftrightarrow> c5 = [] \<and> c6 = []"
    using verdict_reading [OF v] by (simp add: settle_verdict)
  moreover have "c5 = [] \<longleftrightarrow> set (map lit required_roles) \<subseteq> set roles"
    using check_profile_holds [of roles missing] p check_profile_codes [OF p] by (auto simp: check_profile_def Let_def filter_empty_conv)
  moreover have "c6 = [] \<longleftrightarrow> rget (the_obj (rget d ''dependencies'')) ''status'' \<noteq> str ''incomplete''"
    using i by (auto simp: check_dependencies_def split: if_splits)
  ultimately show ?thesis using v by blast
qed

lemma find_member: "find P xs = Some x \<Longrightarrow> x \<in> set xs \<and> P x"
  by (auto simp: find_Some_iff)

definition covered_roles :: "facts \<Rightarrow> ustr set" where
  "covered_roles fa = en_role ` (set (fa_entries fa) \<union> set (fa_grading_inputs fa))"

lemma verify_built:
  assumes d: "d = record_members fa operation vid (key_id (tl_run T) pub) source stamp producer archive verifier"
    and v: "bind_value (JObj d)" "canonical_bytes (JObj d) = Inr b" and sg: "signed_by (tl_run T) b sg pub"
    and ok: "\<And>e. e \<in> set (fa_entries fa) \<union> set (fa_grading_inputs fa) \<Longrightarrow> entry_ok (tl_run T) fs e"
    and rw: "\<And>p f. fa_reward_path fa = Some p \<Longrightarrow> covered_reward T fs (lit p) = Some f \<Longrightarrow> fa_reward fa = Some f"
    and tr: "\<And>e. e \<in> set (fa_entries fa) \<Longrightarrow> en_role e = lit ''atif_trajectory'' \<Longrightarrow> en_path e = tp \<and>
      (\<exists>v. load_candidate fs tp = Inr v \<and> (\<forall>doc. v = Some (JObj doc) \<longrightarrow> py_eq (opt_str (fa_trajectory_id fa)) (rget doc ''trajectory_id'')))"
  shows "\<exists>oc. verify_record T fs (Some b) sg pub = Inr oc \<and> oc_verdict oc \<noteq> Failed \<and>
    (oc_verdict oc = Verified \<longleftrightarrow> set (map lit required_roles) \<subseteq> covered_roles fa \<and> fa_uncovered fa = [])"
proof -
  obtain r where r: "parsed (JObj d) = JObj r" using parsed_obj by blast
  then have r': "r = the_obj (parsed (JObj d))" by simp
  note g = record_gets [OF d r']
  let ?R = "tl_run T"
  have es: "dict_entries r ''artifacts'' = map entry_dict (sort_entries (fa_entries fa))"
    "grading_entries r = map entry_dict (sort_entries (fa_grading_inputs fa))"
    using g(3,4) by (auto intro!: dict_entries_parsed simp: grading_entries_def)
  from canonical_bytes_decode [OF v] r have c: "decode_json b = Inr (Some (JObj r))" "canonical_bytes (JObj r) = Inr b"
    by (simp_all add: parsed_def)
  then have "as_object b = Inr (Some r)" by (simp add: as_object_def)
  with c(2) g(1) have 1: "check_encoding b = Inr (Some r, [])" by (simp add: check_encoding_holds)
  have 2: "check_signer ?R r pub = []" using g(2) by (simp add: check_signer_def)
  have 3: "check_signature ?R b sg pub = Inr []" using sg by (simp add: check_signature_holds)
  let ?roles = "map (\<lambda>e. member_text_of ?R e ''role'') (covered_entries r)"
  have "list_all (entry_holds ?R fs) (covered_entries r)"
    using ok by (auto simp: covered_entries_def es list_all_iff intro!: entry_ok_holds)
  then have 4: "check_artifacts ?R fs r = Inr (?roles, False, [])" by (simp add: check_artifacts_holds)
  have "reward_holds T fs r"
  proof (cases "fa_reward_path fa")
    case None
    then show ?thesis using g(7) by (simp add: reward_holds_def Let_def)
  next
    case (Some p)
    have n: "number_float (parsed (opt_float (Some f))) = Inr (Some f) \<and> f \<noteq> NaN" if "covered_reward T fs (lit p) = Some f" for f
    proof -
      from rw [OF Some that] have "whole_float f" using v(1) unfolding d by (rule record_reward_whole [rotated])
      from number_float_whole [OF this] show ?thesis by (simp add: opt_float_def)
    qed
    show ?thesis
    proof (cases "covered_reward T fs (lit p)")
      case None
      then show ?thesis using g(7) Some by (simp add: reward_holds_def Let_def str_def)
    next
      case (Some f)
      with rw [OF \<open>fa_reward_path fa = Some p\<close> Some] n [OF Some] show ?thesis
        using g(6,7) \<open>fa_reward_path fa = Some p\<close> by (simp add: reward_holds_def Let_def str_def)
    qed
  qed
  then have 5: "check_outcome T fs r = Inr []" by (simp add: check_outcome_holds)
  have "trajectory_holds ?R fs r"
  proof (cases "find (\<lambda>e. rget e ''role'' = str ''atif_trajectory'') (dict_entries r ''artifacts'')")
    case None
    then show ?thesis by (simp add: trajectory_holds_def Let_def)
  next
    case (Some e')
    from find_member [OF Some] have m: "e' \<in> set (dict_entries r ''artifacts'')" "rget e' ''role'' = str ''atif_trajectory''"
      by simp_all
    from m(1) obtain e where e: "e' = entry_dict e" "e \<in> set (fa_entries fa)" by (auto simp: es)
    from m(2) have ro: "en_role e = lit ''atif_trajectory''" by (simp add: e(1) str_def)
    with e(2) obtain e1 where e1: "first_of_role ''atif_trajectory'' (fa_entries fa) = Some e1"
      by (cases "first_of_role ''atif_trajectory'' (fa_entries fa)") (auto simp: first_of_role_def find_None_iff)
    from find_member [OF e1 [unfolded first_of_role_def]]
    have "e1 \<in> set (fa_entries fa)" "en_role e1 = lit ''atif_trajectory''" by simp_all
    with tr e ro have "en_path e1 = en_path e" "entry_ok ?R fs e" "entry_ok ?R fs e1" using ok by auto
    then have "en_sha256 e1 = en_sha256 e"
      unfolding entry_ok_def entry_of_def by (metis entry.select_convs(4) option.inject)
    moreover from tr [OF e(2) ro] obtain w where "load_candidate fs (en_path e) = Inr w"
      "\<forall>doc. w = Some (JObj doc) \<longrightarrow> py_eq (opt_str (fa_trajectory_id fa)) (rget doc ''trajectory_id'')" by blast
    ultimately show ?thesis using Some e(1) e1 g(9,10)
      by (simp add: trajectory_holds_def Let_def opt_str_def split: option.splits json.splits)
  qed
  then have 6: "check_atif ?R fs r = Inr []" by (simp add: check_atif_holds)
  have "set ?roles = covered_roles fa" by (auto simp: covered_entries_def es covered_roles_def)
  moreover have "rget (the_obj (rget r ''dependencies'')) ''status'' \<noteq> str ''incomplete'' \<longleftrightarrow> fa_uncovered fa = []"
    using g(5) by simp
  ultimately show ?thesis using verify_soft [OF 1 2 3 4 5 6] by simp
qed

subsection \<open>What is collected\<close>

text \<open>
  The directories considered: what lies below a directory is found there under a path without
  \<open>..\<close> segments, and what can be read is a file.
\<close>

definition tidy :: "files \<Rightarrow> bool" where
  "tidy fs \<longleftrightarrow> (\<forall>d. \<forall>p \<in> set (fs_below fs d). below d p \<and> \<not> unsafe_path p) \<and> (\<forall>p. fs_read fs p \<noteq> None \<longrightarrow> fs_file fs p)"

definition outside :: "ustr \<Rightarrow> bool" where
  "outside p \<longleftrightarrow> \<not> starts_with (lit ''binding/'') p"

definition source_ok :: "runtime \<Rightarrow> files \<Rightarrow> entry \<Rightarrow> bool" where
  "source_ok R fs e \<longleftrightarrow> entry_ok R fs e \<and> outside (en_path e)"

lemma file_entry_source:
  assumes "file_entry (rt_sha R) fs p role = Inr e" "tidy fs" "\<not> unsafe_path p" "outside p"
  shows "source_ok R fs e \<and> en_role e = role \<and> en_path e = p"
  using assms by (auto simp: file_entry_def source_ok_def entry_ok_def entry_of_def tidy_def split: option.splits)

lemma starts_with_hd: "starts_with (c # s) p \<Longrightarrow> p \<noteq> [] \<and> hd p = c"
  by (cases p) (auto simp: starts_with_def)

lemma below_outside: "below (lit ''agent'') p \<Longrightarrow> outside p" "below (lit ''artifacts'') p \<Longrightarrow> outside p"
  by (auto simp: below_def outside_def lit_def dest!: starts_with_hd)

lemma first_atif_member: "first_atif fs ps = Inr (Some p) \<Longrightarrow> p \<in> set ps"
  by (induction ps) (auto elim!: rbind_InrE split: option.splits if_splits)

lemma find_atif_safe: "find_atif fs = Inr (Some p) \<Longrightarrow> tidy fs \<Longrightarrow> \<not> unsafe_path p \<and> outside p"
  using below_outside(1)
  by (auto simp: find_atif_def sort_paths_def tidy_def dest!: first_atif_member split: if_splits)

lemma file_entries_source:
  assumes "rmap (\<lambda>x. file_entry (rt_sha R) fs (f x) (g x)) xs = Inr es" "tidy fs"
    and "\<And>x. x \<in> set xs \<Longrightarrow> \<not> unsafe_path (f x) \<and> outside (f x)" "e \<in> set es"
  shows "source_ok R fs e \<and> en_role e \<in> g ` set xs"
proof -
  from rmap_results [OF assms(1,4)] obtain x where x: "x \<in> set xs" "file_entry (rt_sha R) fs (f x) (g x) = Inr e" by blast
  from file_entry_source [OF x(2) assms(2)] assms(3) [OF x(1)] x(1) show ?thesis by blast
qed

lemma fixed_paths: "rp \<in> set fixed_files \<Longrightarrow> \<not> unsafe_path (lit (snd rp)) \<and> outside (lit (snd rp)) \<and> fst rp \<noteq> ''atif_trajectory''"
  by (auto simp: fixed_files_def unsafe_path_def path_parts_def outside_def starts_with_def lit_def)

definition trajectory_found :: "files \<Rightarrow> facts \<Rightarrow> ustr \<Rightarrow> bool" where
  "trajectory_found fs fa p \<longleftrightarrow> find_atif fs = Inr (Some p) \<and> fs_safe fs p \<and>
     atif_facts fs p = Inr (fa_trajectory_id fa, fa_pointer fa, fa_uncovered fa)"

lemma collected_sources:
  assumes c: "collect_run_artifacts T fs fa0 = Inr fa" and t: "tidy fs"
    and p: "fa_reward_path fa0 \<in> {None, Some reward_txt, Some reward_json}"
  shows "(\<forall>e \<in> set (fa_entries fa). source_ok (tl_run T) fs e \<and> (en_role e = lit ''atif_trajectory'' \<longrightarrow> trajectory_found fs fa (en_path e))) \<and>
    fa_reward fa = fa_reward fa0 \<and> fa_reward_path fa = fa_reward_path fa0 \<and> fa_grading_inputs fa = fa_grading_inputs fa0"
proof -
  let ?R = "tl_run T" and ?atif = "lit ''atif_trajectory''"
  note a = c [unfolded collect_run_artifacts_def Let_def]
  from a obtain es1 where es1: "rmap (\<lambda>rp. file_entry (rt_sha ?R) fs (lit (snd rp)) (lit (fst rp)))
      (filter (\<lambda>rp. fs_file fs (lit (snd rp)) \<and> fs_safe fs (lit (snd rp))) fixed_files) = Inr es1" by (elim rbind_InrE)
  note a = a [unfolded es1 rbind.simps]
  from a obtain es2 where es2: "(case fa_reward_path fa0 of
      Some p \<Rightarrow> if fs_file fs (lit p) then rbind (file_entry (rt_sha ?R) fs (lit p) (lit ''reward'')) (\<lambda>e. Inr [e]) else Inr []
    | None \<Rightarrow> Inr []) = Inr es2" by (elim rbind_InrE)
  note a = a [unfolded es2 rbind.simps]
  from a obtain atif where f: "find_atif fs = Inr atif" by (elim rbind_InrE)
  note a = a [unfolded f rbind.simps]
  from a obtain es3 tid ptr un where es3: "(case atif of
      Some p \<Rightarrow> if fs_safe fs p then rbind (file_entry (rt_sha ?R) fs p ?atif)
          (\<lambda>e. rbind (atif_facts fs p) (\<lambda>(tid, ptr, un). Inr ([e], tid, ptr, un)))
        else Inr ([], None, None, [])
    | None \<Rightarrow> Inr ([], None, None, [])) = Inr (es3, tid, ptr, un)" by (elim rbind_InrE) (auto split: prod.splits)
  note a = a [unfolded es3 rbind.simps prod.case]
  from a obtain es4 where es4: "(if fs_dir fs (lit ''artifacts'') then
        rmap (\<lambda>p. file_entry (rt_sha ?R) fs p (lit ''collected_artifact''))
          (filter (\<lambda>p. fs_file fs p \<and> base_name p \<noteq> lit ''manifest.json'' \<and> fs_safe fs p) (sort_paths (fs_below fs (lit ''artifacts''))))
      else Inr []) = Inr es4" by (elim rbind_InrE)
  from a [unfolded es4 rbind.simps] have fa: "fa = fa0\<lparr>fa_entries := es1 @ es2 @ es3 @ es4, fa_trajectory_id := tid, fa_pointer := ptr, fa_uncovered := un\<rparr>"
    by simp
  have 1: "source_ok ?R fs e \<and> en_role e \<noteq> ?atif" if "e \<in> set es1" for e
  proof -
    from file_entries_source [OF es1 t _ that] fixed_paths
    have "source_ok ?R fs e" "en_role e \<in> (\<lambda>rp. lit (fst rp)) ` set fixed_files" by auto
    with fixed_paths show ?thesis by force
  qed
  have 2: "source_ok ?R fs e \<and> en_role e \<noteq> ?atif" if "e \<in> set es2" for e
  proof -
    from es2 that obtain q where q: "fa_reward_path fa0 = Some q" "file_entry (rt_sha ?R) fs (lit q) (lit ''reward'') = Inr e"
      by (auto elim!: rbind_InrE split: option.splits if_splits)
    with p have "\<not> unsafe_path (lit q) \<and> outside (lit q)"
      by (auto simp: reward_txt_def reward_json_def unsafe_path_def path_parts_def outside_def starts_with_def lit_def)
    with file_entry_source [OF q(2) t] show ?thesis by simp
  qed
  have 3: "source_ok ?R fs e \<and> trajectory_found fs fa (en_path e)" if "e \<in> set es3" for e
  proof -
    from es3 that obtain q where q: "atif = Some q" "file_entry (rt_sha ?R) fs q ?atif = Inr e" "atif_facts fs q = Inr (tid, ptr, un)" "fs_safe fs q"
      by (auto elim!: rbind_InrE split: option.splits if_splits)
    from find_atif_safe [OF f [unfolded q(1)] t] file_entry_source [OF q(2) t] have "source_ok ?R fs e" "en_path e = q" by blast+
    with f q show ?thesis by (simp add: trajectory_found_def fa)
  qed
  have 4: "source_ok ?R fs e \<and> en_role e \<noteq> ?atif" if "e \<in> set es4" for e
  proof -
    from es4 that have r: "rmap (\<lambda>p. file_entry (rt_sha ?R) fs p (lit ''collected_artifact''))
          (filter (\<lambda>p. fs_file fs p \<and> base_name p \<noteq> lit ''manifest.json'' \<and> fs_safe fs p) (sort_paths (fs_below fs (lit ''artifacts'')))) = Inr es4"
      by (auto split: if_splits)
    have "\<not> unsafe_path p \<and> outside p" if "p \<in> set (fs_below fs (lit ''artifacts''))" for p
      using t that below_outside(2) unfolding tidy_def by blast
    then have "source_ok ?R fs e" "en_role e = lit ''collected_artifact''"
      using file_entries_source [OF r t _ that] by (auto simp: sort_paths_def)
    then show ?thesis by simp
  qed
  from 1 2 3 4 show ?thesis by (auto simp: fa)
qed

subsection \<open>The directory that is left\<close>

lemma with_files_outside:
  assumes "\<forall>q \<in> fst ` set ws. \<not> outside q" "outside p"
  shows "fs_read (with_files fs ws) p = fs_read fs p" "fs_file (with_files fs ws) p = fs_file fs p"
proof -
  have n: "p \<notin> fst ` set ws" using assms by blast
  then have "map_of (rev ws) p = None" by (simp add: map_of_eq_None_iff)
  with n show "fs_read (with_files fs ws) p = fs_read fs p" "fs_file (with_files fs ws) p = fs_file fs p"
    by (simp_all add: with_files_def Let_def)
qed

lemma reads_alike:
  assumes "fs_read fs' p = fs_read fs p"
  shows "load_candidate fs' p = load_candidate fs p" "covered_reward T fs' p = covered_reward T fs p"
    "text_float T fs' p = text_float T fs p"
  using assms by (simp_all add: load_candidate_def covered_reward_def text_float_def read_text_def)

lemma split_at_append: "split_at c cur (s @ c # t) = split_at c cur s @ split_at c [] t"
  by (induction s arbitrary: cur) auto

lemma captured_safe: "\<not> unsafe_path p \<Longrightarrow> \<not> unsafe_path (captured_path p) \<and> \<not> outside (captured_path p)"
proof -
  assume p: "\<not> unsafe_path p"
  have "path_parts (captured_path p) = path_parts (lit grading_input_dir) @ path_parts p"
    by (simp add: path_parts_def captured_path_def split_at_append)
  moreover have "path_parts (lit grading_input_dir) = [lit ''binding'', lit ''grading-inputs'']" by code_simp
  ultimately have "lit ''..'' \<notin> set (path_parts (captured_path p))" using p by (simp add: unsafe_path_def)
  then show ?thesis
    by (simp add: unsafe_path_def outside_def captured_path_def grading_input_dir_def starts_with_def lit_def)
qed

lemma captured_members:
  assumes "captured_files vf = Inr ws" "\<And>v. vf = Some v \<Longrightarrow> tidy v" "(q, b) \<in> set ws"
  shows "\<not> unsafe_path q \<and> \<not> outside q \<and> q \<notin> {lit ''binding/manifest.json'', lit ''binding/manifest.sig''} \<and> map_of (rev ws) q = Some b"
proof -
  from assms(1,3) obtain v where v: "vf = Some v" by (cases vf) (auto simp: captured_files_def)
  let ?cap = "\<lambda>p. case fs_read v p of None \<Rightarrow> Inl OSError | Some b \<Rightarrow> Inr (captured_path p, b)"
  from assms(1,3) v have r: "rmap ?cap (filter (\<lambda>p. fs_file v p \<and> fs_safe v p) (sort_paths (fs_below v []))) = Inr ws"
    by (auto simp: captured_files_def split: if_splits)
  have m: "\<exists>p. p \<in> set (fs_below v []) \<and> q' = captured_path p \<and> fs_read v p = Some b'" if "(q', b') \<in> set ws" for q' b'
    using rmap_results [OF r that] by (auto simp: sort_paths_def split: option.splits)
  from m [OF assms(3)] obtain p where p: "p \<in> set (fs_below v [])" "q = captured_path p" "fs_read v p = Some b" by blast
  with assms(2) [OF v] have "\<not> unsafe_path p" by (auto simp: tidy_def)
  note safe = captured_safe [OF this]
  have inj: "captured_path p = captured_path p' \<Longrightarrow> p = p'" for p p' by (simp add: captured_path_def)
  have "q \<in> fst ` set (rev ws)" using assms(3) by force
  then have "map_of (rev ws) q \<noteq> None" by (simp only: map_of_eq_None_iff not_not)
  then obtain b' where b': "map_of (rev ws) q = Some b'" by blast
  from map_of_SomeD [OF this] have "(q, b') \<in> set ws" by simp
  from m [OF this] obtain p' where p': "q = captured_path p'" "fs_read v p' = Some b'" by blast
  have "p = p'" by (rule inj) (simp only: p(2) [symmetric] p'(1) [symmetric])
  with p(3) p'(2) have "b' = b" by simp
  moreover have "q \<notin> {lit ''binding/manifest.json'', lit ''binding/manifest.sig''}"
    by (auto simp: p(2) captured_path_def grading_input_dir_def lit_def)
  ultimately show ?thesis using safe b' p(2) by simp
qed

text \<open>The bytes of what \<open>cmd_build\<close> writes.\<close>

lemma built_reads:
  assumes "fs' = with_files fs (ws @ [(lit ''binding/manifest.json'', b), (lit ''binding/manifest.sig'', s)])"
    and "fst ` set ws \<inter> {lit ''binding/manifest.json'', lit ''binding/manifest.sig''} = {}"
  shows "fs_read fs' (lit ''binding/manifest.json'') = Some b" "fs_read fs' (lit ''binding/manifest.sig'') = Some s"
    "(q, c) \<in> set ws \<Longrightarrow> map_of (rev ws) q = Some c \<Longrightarrow> fs_read fs' q = Some c \<and> fs_file fs' q"
proof -
  show "fs_read fs' (lit ''binding/manifest.json'') = Some b" "fs_read fs' (lit ''binding/manifest.sig'') = Some s"
    by (simp_all add: assms(1) with_files_def Let_def)
  assume q: "(q, c) \<in> set ws" "map_of (rev ws) q = Some c"
  from q(1) have i: "q \<in> fst ` set ws" by force
  then have "q \<noteq> lit ''binding/manifest.json''" "q \<noteq> lit ''binding/manifest.sig''" using assms(2) by blast+
  with q i show "fs_read fs' q = Some c \<and> fs_file fs' q"
    by (simp add: assms(1) with_files_def Let_def)
qed

subsection \<open>Build, then verify\<close>

text \<open>
  What an honest trial needs beyond being read without an error: the reward comes from
  \<open>reward.txt\<close> when \<open>reward.json\<close> is there, and the trajectory names itself with a string or
  not at all.
\<close>

definition readable_trial :: "files \<Rightarrow> bool" where
  "readable_trial fs \<longleftrightarrow> tidy fs \<and> (fs_exists fs (lit reward_json) \<longrightarrow> fs_exists fs (lit reward_txt)) \<and>
     (\<forall>p doc. find_atif fs = Inr (Some p) \<and> load_candidate fs p = Inr (Some (JObj doc)) \<longrightarrow>
        rget doc ''trajectory_id'' = JNull \<or> is_str (rget doc ''trajectory_id''))"

text \<open>The documented behaviour of the Ed25519 library for one key pair.\<close>

definition signs :: "runtime \<Rightarrow> (bytes \<Rightarrow> bytes) \<Rightarrow> bytes \<Rightarrow> bool" where
  "signs R sign pub \<longleftrightarrow> (\<forall>b. length (sign b) = signature_length \<and> bytes_ok (sign b) \<and> rt_sig R pub b (sign b))"

text \<open>What the facts of a trial are, and the reward among them.\<close>

lemma facts_of_tidy:
  assumes "collect_facts T fs vf = Inr (fa, ws)" "tidy fs"
  shows "(\<forall>e \<in> set (fa_entries fa). source_ok (tl_run T) fs e \<and> (en_role e = lit ''atif_trajectory'' \<longrightarrow> trajectory_found fs fa (en_path e))) \<and>
    captured_files vf = Inr ws \<and>
    fa_grading_inputs fa = map (\<lambda>(p, b). entry_of (rt_sha (tl_run T)) (lit grading_input_role) p b) ws \<and>
    read_reward T fs = Inr (fa_reward fa, fa_reward_path fa)"
proof -
  have ex: "fs_exists fs (lit ''result.json'') = True" using assms(1) by (auto simp: collect_facts_def split: if_splits)
  note a = assms(1) [unfolded collect_facts_def ex simp_thms if_False]
  from a obtain s where s: "read_text fs (lit ''result.json'') = Inr s" by (elim rbind_InrE)
  note a = a [unfolded s rbind.simps]
  from a obtain result where res: "json_loads_default s = Inr result" by (elim rbind_InrE)
  note a = a [unfolded res rbind.simps]
  from a obtain rw rp where r: "read_reward T fs = Inr (rw, rp)" by (elim rbind_InrE) auto
  from a [unfolded r rbind.simps prod.case Let_def]
  obtain fa0 fa1 where f: "collect_run_artifacts T fs fa0 = Inr fa1" "collect_grading_inputs T vf fa1 = Inr (fa, ws)"
    "fa_reward fa0 = rw" "fa_reward_path fa0 = rp" by (elim rbind_InrE) auto
  have p: "fa_reward_path fa0 \<in> {None, Some reward_txt, Some reward_json}"
    using r unfolding f(4) read_reward_def by (auto elim!: rbind_InrE split: if_splits json.splits)
  from f(2) have g: "captured_files vf = Inr ws"
    "fa = fa1\<lparr>fa_grading_inputs := map (\<lambda>(p, b). entry_of (rt_sha (tl_run T)) (lit grading_input_role) p b) ws\<rparr>"
    by (auto simp: collect_grading_inputs_def elim!: rbind_InrE)
  from collected_sources [OF f(1) assms(2) p] g r f(3,4) show ?thesis by (simp add: trajectory_found_def)
qed

lemma facts_of_trial:
  assumes "collect_facts T fs vf = Inr (fa, ws)" "readable_trial fs"
  shows "fa_reward_path fa = None \<or> fa_reward_path fa = Some reward_txt \<and> text_float T fs (lit reward_txt) = Inr (fa_reward fa)"
  using facts_of_tidy [OF assms(1)] assms(2)
  by (auto simp: readable_trial_def read_reward_def elim!: rbind_InrE split: if_splits)

lemma atif_facts_document:
  assumes "atif_facts fs p = Inr (tid, ptr, un)"
  shows "\<exists>doc. load_candidate fs p = Inr (Some (JObj doc)) \<and> tid = (case rget doc ''trajectory_id'' of JStr t \<Rightarrow> Some t | _ \<Rightarrow> None)"
proof -
  from assms obtain s where s: "read_text fs p = Inr s" unfolding atif_facts_def by (elim rbind_InrE)
  note a = assms [unfolded atif_facts_def s rbind.simps]
  from a obtain v where v: "json_loads_default s = Inr v" by (elim rbind_InrE)
  from a [unfolded v rbind.simps] obtain doc where "v = JObj doc" "tid = (case rget doc ''trajectory_id'' of JStr t \<Rightarrow> Some t | _ \<Rightarrow> None)"
    by (cases v) auto
  with s v show ?thesis by (simp add: load_candidate_def)
qed

lemma built_stages:
  assumes "cmd_build T public sign now (Inr seed) fs vf vid stamp = Inr (fs', d)"
  obtains fa ws m st a' v' where "collect_facts T fs vf = Inr (fa, ws)" "canonical_bytes (JObj d) = Inr m"
    "d = record_members fa ''execute'' vid (key_id (tl_run T) (public seed)) None st (lit ''independent'') a' v'"
    "fs' = with_files fs (ws @ [(lit ''binding/manifest.json'', m), (lit ''binding/manifest.sig'', hex_of_bytes (sign seed m))])"
proof -
  let ?R = "tl_run T"
  note a = assms [unfolded cmd_build_def Let_def rbind.simps]
  from a obtain fa ws where f: "collect_facts T fs vf = Inr (fa, ws)" by (elim rbind_InrE) auto
  note a = a [unfolded f rbind.simps prod.case]
  from a obtain d1 where d1: "build (rt_sha ?R) now fa ''execute'' vid (key_id ?R (public seed)) None stamp (lit ''independent'') = Inr d1"
    by (elim rbind_InrE)
  note a = a [unfolded d1 rbind.simps]
  from a obtain m where m: "canonical_bytes (JObj d1) = Inr m" by (elim rbind_InrE)
  from a [unfolded m rbind.simps] have fs': "fs' = with_files fs (ws @ [(lit ''binding/manifest.json'', m),
      (lit ''binding/manifest.sig'', hex_of_bytes (sign seed m))])" and d: "d1 = d" by simp_all
  from d1 obtain a' v' st where "d = record_members fa ''execute'' vid (key_id ?R (public seed)) None st (lit ''independent'') a' v'"
    by (auto simp: build_def Let_def d elim!: rbind_InrE split: if_splits)
  with f m d fs' that show thesis by blast
qed

text \<open>Nothing outside the record's own directory changes, and the inputs are captured in it.\<close>

lemma built_files:
  assumes fs': "fs' = with_files fs (ws @ [(lit ''binding/manifest.json'', m), (lit ''binding/manifest.sig'', s)])"
    and cap: "captured_files vf = Inr ws" and t: "\<forall>v. vf = Some v \<longrightarrow> tidy v"
  shows "fs_read fs' (lit ''binding/manifest.json'') = Some m" "fs_read fs' (lit ''binding/manifest.sig'') = Some s"
    "outside p \<Longrightarrow> fs_read fs' p = fs_read fs p" "outside p \<Longrightarrow> fs_file fs' p = fs_file fs p"
    "(q, c) \<in> set ws \<Longrightarrow> \<not> unsafe_path q \<and> fs_read fs' q = Some c \<and> fs_file fs' q"
proof -
  have C: "\<not> unsafe_path q \<and> \<not> outside q \<and> q \<notin> {lit ''binding/manifest.json'', lit ''binding/manifest.sig''} \<and> map_of (rev ws) q = Some c"
    if "(q, c) \<in> set ws" for q c by (rule captured_members [OF cap _ that]) (use t in blast)
  have "fst ` set ws \<inter> {lit ''binding/manifest.json'', lit ''binding/manifest.sig''} = {}" using C by force
  note B = built_reads [OF fs' this]
  have "\<not> outside (lit ''binding/manifest.json'')" "\<not> outside (lit ''binding/manifest.sig'')"
    by (simp_all add: outside_def starts_with_def lit_def)
  with C have "\<forall>q \<in> fst ` set (ws @ [(lit ''binding/manifest.json'', m), (lit ''binding/manifest.sig'', s)]). \<not> outside q"
    by auto
  note W = with_files_outside [OF this, where fs = fs, folded fs']
  show "fs_read fs' (lit ''binding/manifest.json'') = Some m" "fs_read fs' (lit ''binding/manifest.sig'') = Some s" by (rule B)+
  show "outside p \<Longrightarrow> fs_read fs' p = fs_read fs p" "outside p \<Longrightarrow> fs_file fs' p = fs_file fs p" by (rule W; assumption)+
  assume q: "(q, c) \<in> set ws"
  with C [OF q] B(3) [OF q] show "\<not> unsafe_path q \<and> fs_read fs' q = Some c \<and> fs_file fs' q" by blast
qed

lemma built_entries:
  assumes fs': "fs' = with_files fs (ws @ [(lit ''binding/manifest.json'', m), (lit ''binding/manifest.sig'', s)])"
    and f: "collect_facts T fs vf = Inr (fa, ws)" and t: "tidy fs" "\<forall>v. vf = Some v \<longrightarrow> tidy v"
    and e: "e \<in> set (fa_entries fa) \<union> set (fa_grading_inputs fa)"
  shows "entry_ok (tl_run T) fs' e"
proof (cases "e \<in> set (fa_entries fa)")
  case True
  with facts_of_tidy [OF f t(1)] have c: "captured_files vf = Inr ws" "source_ok (tl_run T) fs e" by blast+
  from built_files [OF fs' c(1) t(2)] c(2) show ?thesis by (simp add: source_ok_def entry_ok_def)
next
  case False
  with e facts_of_tidy [OF f t(1)] obtain q c where q: "captured_files vf = Inr ws" "(q, c) \<in> set ws"
    "e = entry_of (rt_sha (tl_run T)) (lit grading_input_role) q c" by auto
  from built_files(5) [OF fs' q(1) t(2) q(2)] q(3) show ?thesis by (simp add: entry_ok_def entry_of_def)
qed

lemma build_then_verify:
  assumes b: "cmd_build T public sign now (Inr seed) fs vf vid stamp = Inr (fs', d)"
    and v: "bind_value (JObj d)" and sg: "signs (tl_run T) (sign seed) (public seed)"
    and t: "readable_trial fs" "\<And>v. vf = Some v \<Longrightarrow> tidy v"
  shows "\<exists>fa ws oc. collect_facts T fs vf = Inr (fa, ws) \<and>
    verify_record T fs' (fs_read fs' (lit ''binding/manifest.json'')) (fs_read fs' (lit ''binding/manifest.sig'')) (public seed) = Inr oc \<and>
    oc_verdict oc \<noteq> Failed \<and>
    (oc_verdict oc = Verified \<longleftrightarrow> set (map lit required_roles) \<subseteq> covered_roles fa \<and> fa_uncovered fa = [])"
proof -
  let ?R = "tl_run T"
  from b obtain fa ws m st a' v' where f: "collect_facts T fs vf = Inr (fa, ws)" and m: "canonical_bytes (JObj d) = Inr m"
    and rec: "d = record_members fa ''execute'' vid (key_id ?R (public seed)) None st (lit ''independent'') a' v'"
    and fs': "fs' = with_files fs (ws @ [(lit ''binding/manifest.json'', m), (lit ''binding/manifest.sig'', hex_of_bytes (sign seed m))])"
    by (rule built_stages)
  have td: "tidy fs" using t(1) by (simp add: readable_trial_def)
  note F = facts_of_tidy [OF f td] and rwF = facts_of_trial [OF f t(1)]
  from F have cap: "captured_files vf = Inr ws" by blast
  have "\<forall>v. vf = Some v \<longrightarrow> tidy v" using t(2) by blast
  note B = built_files [OF fs' cap this]
  have sig: "signed_by ?R m (Some (hex_of_bytes (sign seed m))) (public seed)"
    by (rule signature_file_reads) (use sg in \<open>auto simp: signs_def\<close>)
  note ok = built_entries [OF fs' f td \<open>\<forall>v. vf = Some v \<longrightarrow> tidy v\<close>]
  have out: "outside (lit reward_txt)" by (simp add: outside_def starts_with_def lit_def reward_txt_def)
  have rw: "fa_reward fa = Some f'" if "fa_reward_path fa = Some p" "covered_reward T fs' (lit p) = Some f'" for p f'
    using that rwF reads_alike(2) [OF B(3) [OF out]] by (auto simp: covered_reward_def)
  define tp where "tp = (case find_atif fs of Inr (Some p) \<Rightarrow> p | _ \<Rightarrow> [])"
  have tr: "en_path e = tp \<and> (\<exists>v. load_candidate fs' tp = Inr v \<and>
      (\<forall>doc. v = Some (JObj doc) \<longrightarrow> py_eq (opt_str (fa_trajectory_id fa)) (rget doc ''trajectory_id'')))"
    if e: "e \<in> set (fa_entries fa)" "en_role e = lit ''atif_trajectory''" for e
  proof -
    from F e have s: "source_ok ?R fs e" and tf: "trajectory_found fs fa (en_path e)" by blast+
    then have p: "en_path e = tp" "find_atif fs = Inr (Some tp)" by (simp_all add: trajectory_found_def tp_def)
    from tf have "atif_facts fs tp = Inr (fa_trajectory_id fa, fa_pointer fa, fa_uncovered fa)" by (simp add: trajectory_found_def p(1))
    from atif_facts_document [OF this] obtain doc where doc: "load_candidate fs tp = Inr (Some (JObj doc))"
      "fa_trajectory_id fa = (case rget doc ''trajectory_id'' of JStr t \<Rightarrow> Some t | _ \<Rightarrow> None)" by blast
    from t(1) p(2) doc(1) have "rget doc ''trajectory_id'' = JNull \<or> is_str (rget doc ''trajectory_id'')"
      by (simp add: readable_trial_def)
    then have "opt_str (fa_trajectory_id fa) = rget doc ''trajectory_id'' \<and> (rget doc ''trajectory_id'' = JNull \<or> is_str (rget doc ''trajectory_id''))"
      by (auto simp: doc(2) opt_str_def is_str_iff)
    then have "py_eq (opt_str (fa_trajectory_id fa)) (rget doc ''trajectory_id'')" by (auto simp: is_str_iff)
    moreover have "load_candidate fs' tp = load_candidate fs tp"
      by (rule reads_alike(1), rule B(3)) (use s p(1) in \<open>simp add: source_ok_def\<close>)
    ultimately show ?thesis using doc(1) p(1) by simp
  qed
  have "\<exists>oc. verify_record T fs' (Some m) (Some (hex_of_bytes (sign seed m))) (public seed) = Inr oc \<and> oc_verdict oc \<noteq> Failed \<and>
    (oc_verdict oc = Verified \<longleftrightarrow> set (map lit required_roles) \<subseteq> covered_roles fa \<and> fa_uncovered fa = [])"
    by (rule verify_built [OF rec v m sig ok rw tr])
  with f show ?thesis unfolding B(1,2) by blast
qed

subsection \<open>Where an honest record fails\<close>

text \<open>
  \<open>read_reward\<close> takes the reward of \<open>reward.json\<close> from an object only, while \<open>check_outcome\<close> reads
  any covered reward file as the text of a number.
\<close>

text \<open>Verifying a record in the directory it was built in always answers.\<close>

lemma built_answers:
  assumes b: "cmd_build T public sign now (Inr seed) fs vf vid stamp = Inr (fs', d)" and v: "bind_value (JObj d)"
    and sg: "signs (tl_run T) (sign seed) (public seed)" and t: "tidy fs" "\<forall>v. vf = Some v \<longrightarrow> tidy v"
  shows "\<exists>oc. verify_record T fs' (fs_read fs' (lit ''binding/manifest.json'')) (fs_read fs' (lit ''binding/manifest.sig'')) (public seed) = Inr oc"
proof -
  let ?R = "tl_run T"
  from b obtain fa ws m st a' v' where f: "collect_facts T fs vf = Inr (fa, ws)" and m: "canonical_bytes (JObj d) = Inr m"
    and rec: "d = record_members fa ''execute'' vid (key_id ?R (public seed)) None st (lit ''independent'') a' v'"
    and fs': "fs' = with_files fs (ws @ [(lit ''binding/manifest.json'', m), (lit ''binding/manifest.sig'', hex_of_bytes (sign seed m))])"
    by (rule built_stages)
  note F = facts_of_tidy [OF f t(1)]
  from F have cap: "captured_files vf = Inr ws" by blast
  note B = built_files [OF fs' cap t(2)]
  obtain r where r: "parsed (JObj d) = JObj r" using parsed_obj by blast
  then have r': "r = the_obj (parsed (JObj d))" by simp
  note g = record_gets [OF rec r']
  have es: "dict_entries r ''artifacts'' = map entry_dict (sort_entries (fa_entries fa))"
    "grading_entries r = map entry_dict (sort_entries (fa_grading_inputs fa))"
    using g(3,4) by (auto intro!: dict_entries_parsed simp: grading_entries_def)
  from canonical_bytes_decode [OF v m] r have c: "as_object m = Inr (Some r)" "canonical_bytes (JObj r) = Inr m"
    by (simp_all add: parsed_def as_object_def)
  with g(1) have 1: "check_encoding m = Inr (Some r, [])" by (simp add: check_encoding_holds)
  have 2: "check_signer ?R r (public seed) = []" using g(2) by (simp add: check_signer_def)
  have "signed_by ?R m (Some (hex_of_bytes (sign seed m))) (public seed)"
    by (rule signature_file_reads) (use sg in \<open>auto simp: signs_def\<close>)
  then have 3: "check_signature ?R m (Some (hex_of_bytes (sign seed m))) (public seed) = Inr []" by (simp add: check_signature_holds)
  have "list_all (entry_holds ?R fs') (covered_entries r)"
    using built_entries [OF fs' f t] by (auto simp: covered_entries_def es list_all_iff intro!: entry_ok_holds)
  then have 4: "check_artifacts ?R fs' r = Inr (map (\<lambda>e. member_text_of ?R e ''role'') (covered_entries r), False, [])"
    by (simp add: check_artifacts_holds)
  have n: "\<exists>x. number_float (parsed (opt_float (fa_reward fa))) = Inr x"
    using number_float_whole record_reward_whole [OF v [unfolded rec]]
    by (cases "fa_reward fa") (auto simp: opt_float_def number_float_def)
  then have 5: "\<exists>c7. check_outcome T fs' r = Inr c7"
    using g(6,7) by (auto simp: check_outcome_def Let_def reward_agrees_def str_def split: option.splits)
  have "\<exists>x. load_candidate fs' (en_path e) = Inr x" if e: "e \<in> set (fa_entries fa)" "en_role e = lit ''atif_trajectory''" for e
  proof -
    from F e have s: "outside (en_path e)" "trajectory_found fs fa (en_path e)" by (auto simp: source_ok_def)
    then obtain x where "load_candidate fs (en_path e) = Inr x" using atif_facts_document by (force simp: trajectory_found_def)
    then show ?thesis using reads_alike(1) [OF B(3) [OF s(1)]] by simp
  qed
  then have "\<exists>x. load_candidate fs' (member_text_of ?R e' ''path'') = Inr x"
    if "find (\<lambda>e. rget e ''role'' = str ''atif_trajectory'') (dict_entries r ''artifacts'') = Some e'" for e'
    using find_member [OF that] by (auto simp: es str_def)
  then have 6: "\<exists>c8. check_atif ?R fs' r = Inr c8"
    by (fastforce simp: check_atif_def check_atif_pointer_def Let_def split: option.splits)
  obtain missing c5 where p: "check_profile (map (\<lambda>e. member_text_of ?R e ''role'') (covered_entries r)) = (missing, c5)" by fastforce
  obtain incomplete c6 where i: "check_dependencies r = (incomplete, c6)" by fastforce
  from 5 6 show ?thesis unfolding B(1,2) by (auto simp: verify_record_def Let_def 1 2 3 4 p i)
qed

lemma scalar_reward_facts:
  assumes "read_reward T fs = Inr (rw, rp)" "\<not> fs_exists fs (lit reward_txt)" "fs_exists fs (lit reward_json)"
    and "read_text fs (lit reward_json) = Inr s" "json_loads_default s = Inr v" "\<not> is_obj v"
  shows "rw = None \<and> rp = Some reward_json"
  using assms by (cases v) (simp_all add: read_reward_def)

lemma scalar_reward_fails:
  assumes b: "cmd_build T public sign now (Inr seed) fs vf vid stamp = Inr (fs', d)" and v: "bind_value (JObj d)"
    and t: "tidy fs" "\<forall>v. vf = Some v \<longrightarrow> tidy v"
    and rw: "\<not> fs_exists fs (lit reward_txt)" "fs_exists fs (lit reward_json)" "fs_file fs (lit reward_json)"
    and js: "text_float T fs (lit reward_json) = Inr (Some f)"
      "read_text fs (lit reward_json) = Inr s" "json_loads_default s = Inr w" "\<not> is_obj w"
    and sg: "signs (tl_run T) (sign seed) (public seed)"
  shows "\<exists>oc. verify_record T fs' (fs_read fs' (lit ''binding/manifest.json'')) (fs_read fs' (lit ''binding/manifest.sig'')) (public seed) = Inr oc \<and>
    oc_verdict oc = Failed \<and> ''graded-outcome-mismatch'' \<in> set (oc_codes oc)"
proof -
  from b obtain fa ws m st a' v' where f: "collect_facts T fs vf = Inr (fa, ws)" and m: "canonical_bytes (JObj d) = Inr m"
    and rec: "d = record_members fa ''execute'' vid (key_id (tl_run T) (public seed)) None st (lit ''independent'') a' v'"
    and fs': "fs' = with_files fs (ws @ [(lit ''binding/manifest.json'', m), (lit ''binding/manifest.sig'', hex_of_bytes (sign seed m))])"
    by (rule built_stages)
  from built_answers [OF b v sg t] obtain oc where
    oc: "verify_record T fs' (fs_read fs' (lit ''binding/manifest.json'')) (fs_read fs' (lit ''binding/manifest.sig'')) (public seed) = Inr oc" by blast
  from facts_of_tidy [OF f t(1)] scalar_reward_facts [OF _ rw(1,2) js(2-4)]
  have F: "captured_files vf = Inr ws" "fa_reward fa = None" "fa_reward_path fa = Some reward_json" by blast+
  note B = built_files [OF fs' F(1) t(2)]
  obtain r where r: "parsed (JObj d) = JObj r" using parsed_obj by blast
  then have "r = the_obj (parsed (JObj d))" by simp
  note g = record_gets(6,7) [OF rec this]
  from canonical_bytes_decode [OF v m] r have "as_object m = Inr (Some r)" by (simp add: as_object_def parsed_def)
  have out: "outside (lit reward_json)" by (simp add: outside_def starts_with_def lit_def reward_json_def)
  have "covered_reward T fs' (lit reward_json) = Some f"
    using js(1) reads_alike(3) [OF B(3) [OF out], of T] by (simp add: covered_reward_def)
  moreover have "fs_file fs' (lit reward_json)" using B(4) [OF out] rw(3) by simp
  ultimately have c: "check_outcome T fs' r = Inr [''graded-outcome-mismatch'']"
    using g F(2,3) by (simp add: check_outcome_def Let_def str_def reward_agrees_def number_float_def opt_float_def)
  from oc have "''graded-outcome-mismatch'' \<in> set (oc_codes oc)"
  proof (cases rule: verify_stages)
    case unparseable
    with B(1) \<open>as_object m = Inr (Some r)\<close> show ?thesis by simp
  next
    case (checked b' d' c1 c3 c4 c5 c6 c7 c8 roles absent missing incomplete)
    with B(1) \<open>as_object m = Inr (Some r)\<close> c have "c7 = [''graded-outcome-mismatch'']" by simp
    then show ?thesis by (simp add: checked(10) settle_verdict)
  qed
  with verdict_reading [OF oc] have "oc_verdict oc = Failed" by (force simp: inconclusive_def)
  with oc \<open>''graded-outcome-mismatch'' \<in> set (oc_codes oc)\<close> show ?thesis by blast
qed

subsection \<open>Staging a built record\<close>

lemma stage_parsed:
  assumes "rget r ''artifacts'' = parsed (sorted_entries es)" "\<And>e. e \<in> set es \<Longrightarrow> entry_ok R src e"
  shows "stage_archive R src r = Inr (map (\<lambda>e. (en_path e, the (fs_read src (en_path e)))) (filter archive_entry (sort_entries es)))"
proof -
  have "stage_entry R src (entry_dict e) = Inr (if archive_entry e then [(en_path e, the (fs_read src (en_path e)))] else [])"
    if "e \<in> set es" for e
    using assms(2) [OF that]
    by (auto simp: stage_entry_def archive_entry_def entry_ok_def need_hash_def raise_if_def str_def Let_def)
  then have "rmap (stage_entry R src) (dict_entries r ''artifacts'') =
      Inr (map (\<lambda>e. if archive_entry e then [(en_path e, the (fs_read src (en_path e)))] else []) (sort_entries es))"
    unfolding dict_entries_parsed [OF assms(1)] rmap_map by (intro rmap_total) simp
  moreover have "concat (map (\<lambda>e. if archive_entry e then [f e] else []) xs) = map f (filter archive_entry xs)" for f :: "entry \<Rightarrow> ustr \<times> bytes" and xs
    by (induction xs) auto
  ultimately show ?thesis by (simp add: stage_archive_def)
qed

end
