(* ===== verification/Binding_Properties.thy ===== *)
theory Binding_Properties
  imports Lineage_Laws Binding_Round_Trip Examples Inclusion_Properties
begin

section \<open>Properties of the artifact-binding tool\<close>

text \<open>
  Records of \<open>tools/artifact-binding\<close>: building and verifying, what a verified record says of
  the bytes on disk, regrading and lineage.  A small trial directory carries the witnesses.
\<close>

subsection \<open>A trial directory\<close>

definition disk :: "(string \<times> string) list \<Rightarrow> files" where
  "disk fs =
     (let names = map (lit \<circ> fst) fs; held = map (\<lambda>(p, s). (lit p, lit s)) fs in
      \<lparr>fs_name = lit ''trial'', fs_exists = (\<lambda>p. p \<in> set names), fs_file = (\<lambda>p. p \<in> set names),
       fs_dir = (\<lambda>d. list_ex (below d) names), fs_read = map_of held,
       fs_below = (\<lambda>d. filter (below d) names), fs_safe = (\<lambda>_. True)\<rparr>)"

lemma tidy_disk: "list_all (\<lambda>p. \<not> unsafe_path (lit (fst p))) fs \<Longrightarrow> tidy (disk fs)"
  by (auto simp: tidy_def disk_def Let_def list_all_iff comp_def case_prod_beta image_iff dest!: map_of_SomeD)

definition trial_files :: "(string \<times> string) list" where
  "trial_files = [(''result.json'', ''{\"id\":\"t\"}''), (''verifier/reward.txt'', ''1.0''),
     (''verifier/test-stdout.txt'', ''ok''), (''verifier/test-stderr.txt'', ''''),
     (''agent/a.json'', ''{\"schema_version\":\"ATIF-v1.7\",\"trajectory_id\":\"x\"}'')]"

definition test_files :: "(string \<times> string) list" where
  "test_files = [(''test.sh'', ''echo 1'')]"

definition demo_tool :: tool where
  "demo_tool = \<lparr>tl_run = toy, tl_float = (\<lambda>s. if s \<in> {lit ''1.0'', lit ''1''} then Some (Finite 1) else None)\<rparr>"

definition demo_build :: "(string \<times> string) list \<Rightarrow> (files \<times> dict) res" where
  "demo_build fs = cmd_build demo_tool (\<lambda>_. [1]) (\<lambda>_ _. replicate 64 7) (lit ''now'') (Inr (replicate 32 0))
     (disk fs) (Some (disk test_files)) (lit ''v'') None"

definition demo_verify :: "files \<Rightarrow> outcome res" where
  "demo_verify fs = verify_record demo_tool fs (fs_read fs (lit ''binding/manifest.json'')) (fs_read fs (lit ''binding/manifest.sig'')) [1]"

definition demo_facts :: facts where
  "demo_facts =
     (let entry = (\<lambda>role path n. \<lparr>en_role = lit role, en_path = lit path, en_length = n, en_sha256 = hex_of_bytes (replicate 32 0)\<rparr> :: entry) in
      \<lparr>fa_trial_id = Some (lit ''t''), fa_trial_id_source = ''result.json:id'', fa_task_name = lit ''trial'',
       fa_reward = Some (Finite 1), fa_reward_path = Some reward_txt,
       fa_entries = [entry ''trial_result'' ''result.json'' 10, entry ''grading_stdout'' ''verifier/test-stdout.txt'' 2,
         entry ''grading_stderr'' ''verifier/test-stderr.txt'' 0, entry ''reward'' ''verifier/reward.txt'' 3,
         entry ''atif_trajectory'' ''agent/a.json'' 50],
       fa_grading_inputs = [entry ''verifier_files'' ''binding/grading-inputs/test.sh'' 6],
       fa_uncovered = [], fa_trajectory_id = Some (lit ''x''), fa_pointer = None\<rparr>)"

lemma demo_collected:
  "collect_facts demo_tool (disk trial_files) (Some (disk test_files)) = Inr (demo_facts, [(lit ''binding/grading-inputs/test.sh'', lit ''echo 1'')])"
  by code_simp

lemma demo_digests:
  "archive_digest (rt_sha toy) (fa_entries demo_facts) = Inr (hex_of_bytes (replicate 32 0))"
  "verifier_digest (rt_sha toy) (fa_grading_inputs demo_facts) = Inr (hex_of_bytes (replicate 32 0))"
  by code_simp+

definition demo_record :: dict where
  "demo_record = record_members demo_facts ''execute'' (lit ''v'') (key_id toy [1]) None (lit ''now'') (lit ''independent'')
     (hex_of_bytes (replicate 32 0)) (hex_of_bytes (replicate 32 0))"

lemma demo_record_bound: "bind_value (JObj demo_record)"
  by code_simp

lemma demo_built: "\<exists>fs. demo_build trial_files = Inr (fs, demo_record)"
proof -
  obtain b where b: "canonical_bytes (JObj demo_record) = Inr b" using canonical_bytes_total [OF demo_record_bound] by blast
  have T: "rt_sha (tl_run demo_tool) = rt_sha toy" "tl_run demo_tool = toy" by (simp_all add: demo_tool_def)
  have "build (rt_sha toy) (lit ''now'') demo_facts ''execute'' (lit ''v'') (key_id toy [1]) None None (lit ''independent'') = Inr demo_record"
    by (simp add: build_def demo_digests Let_def demo_record_def)
  with b show ?thesis
    by (simp add: demo_build_def cmd_build_def demo_collected T Let_def)
qed

lemma disks_tidy: "tidy (disk trial_files)" "tidy (disk test_files)"
  by (rule tidy_disk, code_simp)+

lemma demo_readable: "readable_trial (disk trial_files)"
proof -
  have f: "find_atif (disk trial_files) = Inr (Some (lit ''agent/a.json''))" by code_simp
  have l: "(case load_candidate (disk trial_files) (lit ''agent/a.json'') of Inr (Some (JObj d)) \<Rightarrow> is_str (rget d ''trajectory_id'') | _ \<Rightarrow> True)"
    by code_simp
  have r: "fs_exists (disk trial_files) (lit reward_txt)" by code_simp
  from f l r disks_tidy(1) show ?thesis by (auto simp: readable_trial_def)
qed

lemma demo_signs: "signs toy (\<lambda>_. replicate 64 7) [1]"
  by (simp add: signs_def signature_length_def toy_def bytes_ok_def)

lemma demo_verified:
  "\<exists>fs. demo_build trial_files = Inr (fs, demo_record) \<and> (\<exists>oc. demo_verify fs = Inr oc \<and> oc_verdict oc = Verified)"
proof -
  from demo_built obtain fs where b: "demo_build trial_files = Inr (fs, demo_record)" by blast
  have T: "tl_run demo_tool = toy" by (simp add: demo_tool_def)
  from build_then_verify [OF b [unfolded demo_build_def] demo_record_bound _ demo_readable] demo_signs disks_tidy(2)
  obtain oc where "demo_verify fs = Inr oc"
    "oc_verdict oc = Verified \<longleftrightarrow> set (map lit required_roles) \<subseteq> covered_roles demo_facts \<and> fa_uncovered demo_facts = []"
    by (auto simp: T demo_verify_def demo_collected)
  moreover have "set (map lit required_roles) \<subseteq> covered_roles demo_facts \<and> fa_uncovered demo_facts = []" by code_simp
  ultimately show ?thesis using b by blast
qed

lemma demo_outcome:
  obtains fs oc where "demo_build trial_files = Inr (fs, demo_record)" "demo_verify fs = Inr oc" "oc_verdict oc = Verified"
  using demo_verified by blast

subsection \<open>Building and verifying\<close>




text \<open>The three verdicts can be read off the codes: no code is \<open>verified\<close>, a code outside the
  three inconclusive ones is \<open>failed\<close>, and inconclusive codes alone are \<open>not-established\<close>.\<close>

theorem binding_verdict_of_codes:
  assumes "verify_record T fs m sg pub = Inr oc"
  shows "oc_verdict oc =
    (if oc_codes oc = [] then Verified
     else if list_ex (\<lambda>c. c \<notin> set inconclusive) (oc_codes oc) then Failed else Not_established)"
  using verdict_reading [OF assms] by (cases "oc_verdict oc") (auto simp: list_ex_iff)

theorem binding_verdict_of_codes_witness: "\<exists>fs oc. demo_verify fs = Inr oc \<and> oc_verdict oc = Verified \<and> oc_codes oc = []"
proof (rule demo_outcome)
  fix fs oc
  assume a: "demo_verify fs = Inr oc" "oc_verdict oc = Verified"
  from binding_verdict_of_codes [OF a(1) [unfolded demo_verify_def]] a(2) have "oc_codes oc = []" by (auto split: if_splits)
  with a show ?thesis by blast
qed

text \<open>C15: two directories in which one record is verified hold the same bytes at every covered
  path, unless those bytes collide under the hash: a covered file cannot change unnoticed.\<close>

theorem same_record_same_bytes:
  assumes "hash_function (rt_sha (tl_run T))"
    and "verify_record T fs m sg pub = Inr oc" "oc_verdict oc = Verified"
    and "verify_record T fs' m sg' pub' = Inr oc'" "oc_verdict oc' = Verified"
    and "as_object (the m) = Inr (Some d)" "e \<in> set (covered_entries d)"
    and "inj_on (rt_sha (tl_run T)) ((\<lambda>fs. the (fs_read fs (member_text_of (tl_run T) e ''path''))) ` {fs, fs'})"
  shows "fs_read fs (member_text_of (tl_run T) e ''path'') = fs_read fs' (member_text_of (tl_run T) e ''path'') \<and>
    fs_read fs (member_text_of (tl_run T) e ''path'') \<noteq> None"
proof -
  let ?p = "member_text_of (tl_run T) e ''path''" and ?H = "rt_sha (tl_run T)"
  from assms(2,3) verified_contract obtain b d1 where 1: "m = Some b" "as_object b = Inr (Some d1)" "contract_holds T fs b d1 sg pub" by blast
  from assms(4,5) verified_contract obtain b' d2 where 2: "m = Some b'" "as_object b' = Inr (Some d2)" "contract_holds T fs' b' d2 sg' pub'" by blast
  from 1 2 assms(6) have "d1 = d" "d2 = d" by simp_all
  with 1(3) 2(3) assms(7) have "entry_holds (tl_run T) fs e" "entry_holds (tl_run T) fs' e"
    by (simp_all add: contract_holds_def Let_def list_all_iff)
  then obtain x y where r: "fs_read fs ?p = Some x" "fs_read fs' ?p = Some y" and h: "sha256_hex ?H x = sha256_hex ?H y"
    by (auto simp: entry_holds_def Let_def split: option.splits)
  from inj_onD [OF assms(8) _ _ _, of x y] hash_function.sha256_hex_inj [OF assms(1) h] r have "x = y" by auto
  with r show ?thesis by simp
qed

theorem same_record_same_bytes_witness:
  "\<exists>fs b d e. demo_build trial_files = Inr (fs, demo_record) \<and> fs_read fs (lit ''binding/manifest.json'') = Some b \<and>
     as_object b = Inr (Some d) \<and> e \<in> set (covered_entries d) \<and> fs_read fs (member_text_of toy e ''path'') \<noteq> None"
proof (rule demo_outcome)
  fix fs oc
  assume a: "demo_build trial_files = Inr (fs, demo_record)" "demo_verify fs = Inr oc" "oc_verdict oc = Verified"
  let ?m = "fs_read fs (lit ''binding/manifest.json'')"
  have T: "tl_run demo_tool = toy" by (simp add: demo_tool_def)
  have h: "hash_function (rt_sha (tl_run demo_tool))" by unfold_locales (simp_all add: T toy_def bytes_ok_def)
  from a(2,3) obtain b d where d: "?m = Some b" "as_object b = Inr (Some d)" "contract_holds demo_tool fs b d (fs_read fs (lit ''binding/manifest.sig'')) [1]"
    using verified_contract unfolding demo_verify_def by blast
  from d(3) have "set (map lit required_roles) \<subseteq> set (map (\<lambda>e. member_text_of toy e ''role'') (covered_entries d))"
    by (simp add: contract_holds_def Let_def T)
  then obtain e where e: "e \<in> set (covered_entries d)" by (auto simp: required_roles_def)
  note v = a(2) [unfolded demo_verify_def]
  have "fs_read fs (member_text_of toy e ''path'') \<noteq> None"
    using same_record_same_bytes [OF h v a(3) v a(3) _ e] d(1,2) by (simp add: T)
  with a(1) d(1,2) e show ?thesis by blast
qed

text \<open>C33: the tool's own serializer writes the bytes of the verifier's canonical serializer for
  every value whose floats are whole and whose numbers lie below 2 to the 53.\<close>

theorem binding_serializer_agrees:
  assumes "bind_value v"
  shows "canonical_bytes v = jcs_dumps v \<and> (\<exists>b. canonical_bytes v = Inr b \<and> decode_json b = Inr (Some (canon (whole v))))"
  using bind_encode_agrees [OF assms] canonical_bytes_total [OF assms] canonical_bytes_decode [OF assms] by blast

theorem binding_serializer_agrees_witness: "canonical_bytes (JObj demo_record) = jcs_dumps (JObj demo_record)"
  using binding_serializer_agrees [OF demo_record_bound] by blast

text \<open>C34: an honestly built and signed record of a trial whose \<open>reward.json\<close> is a bare number is
  always answered with \<open>failed\<close>: the builder takes a reward from an object only, the check
  reads the number.\<close>

theorem scalar_reward_record_fails:
  assumes "cmd_build T public sign now (Inr seed) fs vf vid stamp = Inr (fs', d)" "bind_value (JObj d)"
    and "tidy fs" "\<forall>v. vf = Some v \<longrightarrow> tidy v" "signs (tl_run T) (sign seed) (public seed)"
    and "\<not> fs_exists fs (lit reward_txt)" "fs_exists fs (lit reward_json)" "fs_file fs (lit reward_json)"
    and "text_float T fs (lit reward_json) = Inr (Some f)"
      "read_text fs (lit reward_json) = Inr s" "json_loads_default s = Inr w" "\<not> is_obj w"
  shows "\<exists>oc. verify_record T fs' (fs_read fs' (lit ''binding/manifest.json'')) (fs_read fs' (lit ''binding/manifest.sig'')) (public seed) = Inr oc \<and>
    oc_verdict oc = Failed \<and> ''graded-outcome-mismatch'' \<in> set (oc_codes oc)"
  using assms(1-4,6-12,5) by (rule scalar_reward_fails)

definition scalar_files :: "(string \<times> string) list" where
  "scalar_files = [(''result.json'', ''{}''), (''verifier/reward.json'', ''1'')]"

definition scalar_facts :: facts where
  "scalar_facts =
     (let entry = (\<lambda>role path n. \<lparr>en_role = lit role, en_path = lit path, en_length = n, en_sha256 = hex_of_bytes (replicate 32 0)\<rparr> :: entry) in
      \<lparr>fa_trial_id = None, fa_trial_id_source = ''absent'', fa_task_name = lit ''trial'',
       fa_reward = None, fa_reward_path = Some reward_json,
       fa_entries = [entry ''trial_result'' ''result.json'' 2, entry ''reward'' ''verifier/reward.json'' 1],
       fa_grading_inputs = [entry ''verifier_files'' ''binding/grading-inputs/test.sh'' 6],
       fa_uncovered = [], fa_trajectory_id = None, fa_pointer = None\<rparr>)"

definition scalar_record :: dict where
  "scalar_record = record_members scalar_facts ''execute'' (lit ''v'') (key_id toy [1]) None (lit ''now'') (lit ''independent'')
     (hex_of_bytes (replicate 32 0)) (hex_of_bytes (replicate 32 0))"

lemma scalar_collected:
  "collect_facts demo_tool (disk scalar_files) (Some (disk test_files)) = Inr (scalar_facts, [(lit ''binding/grading-inputs/test.sh'', lit ''echo 1'')])"
  "archive_digest (rt_sha toy) (fa_entries scalar_facts) = Inr (hex_of_bytes (replicate 32 0))"
  "verifier_digest (rt_sha toy) (fa_grading_inputs scalar_facts) = Inr (hex_of_bytes (replicate 32 0))"
  "bind_value (JObj scalar_record)"
  by code_simp+

lemma scalar_built: "\<exists>fs. demo_build scalar_files = Inr (fs, scalar_record)"
proof -
  obtain b where b: "canonical_bytes (JObj scalar_record) = Inr b" using canonical_bytes_total [OF scalar_collected(4)] by blast
  have T: "tl_run demo_tool = toy" by (simp add: demo_tool_def)
  have "build (rt_sha toy) (lit ''now'') scalar_facts ''execute'' (lit ''v'') (key_id toy [1]) None None (lit ''independent'') = Inr scalar_record"
    by (simp add: build_def scalar_collected(2,3) Let_def scalar_record_def)
  with b show ?thesis by (simp add: demo_build_def cmd_build_def scalar_collected(1) T Let_def)
qed

theorem scalar_reward_record_fails_witness:
  "\<exists>fs oc. demo_build scalar_files = Inr (fs, scalar_record) \<and> demo_verify fs = Inr oc \<and> oc_verdict oc = Failed"
proof -
  from scalar_built obtain fs where b: "demo_build scalar_files = Inr (fs, scalar_record)" by blast
  have T: "tl_run demo_tool = toy" by (simp add: demo_tool_def)
  have "tidy (disk scalar_files)" by (rule tidy_disk) code_simp
  moreover have "\<forall>v. Some (disk test_files) = Some v \<longrightarrow> tidy v" using disks_tidy(2) by blast
  moreover have "signs (tl_run demo_tool) ((\<lambda>_ _. replicate 64 7) (replicate 32 0)) ((\<lambda>_. [1]) (replicate 32 0))"
    using demo_signs by (simp add: T)
  moreover have "\<not> fs_exists (disk scalar_files) (lit reward_txt)" "fs_exists (disk scalar_files) (lit reward_json)"
    "fs_file (disk scalar_files) (lit reward_json)" "text_float demo_tool (disk scalar_files) (lit reward_json) = Inr (Some (Finite 1))"
    "read_text (disk scalar_files) (lit reward_json) = Inr (lit ''1'')" "json_loads_default (lit ''1'') = Inr (JInt 1)" "\<not> is_obj (JInt 1)"
    by code_simp+
  ultimately show ?thesis
    using scalar_reward_record_fails [OF b [unfolded demo_build_def] scalar_collected(4)] b unfolding demo_verify_def by blast
qed

subsection \<open>Regrading and lineage\<close>

text \<open>C17: a regrade succeeds only from a record that meets the contract; every file it stages lies
  under a safe path and is a covered archive file whose bytes have the declared digest, and
  the new record names the source record's digest.  Beside its source it passes the lineage
  check exactly when the source is an execute record and both name one archive.\<close>

theorem regrade_rests_on_verified:
  assumes "regrade T run sign now src m sg pub vf target vid stamp = Inr (staged, new, b, sig_text)"
  shows "\<exists>c d h. m = Some c \<and> as_object c = Inr (Some d) \<and> contract_holds T src c d sg pub \<and>
    (\<forall>(p, x) \<in> set staged. \<not> unsafe_path p \<and> (\<exists>e \<in> set (dict_entries d ''artifacts''). rget e ''role'' \<in> set (map str archive_roles) \<and>
       member_text_of (tl_run T) e ''path'' = p \<and> rget e ''sha256'' = JStr (sha256_hex (rt_sha (tl_run T)) x))) \<and>
    manifest_digest (rt_sha (tl_run T)) m = Inr h \<and> rget new ''source_record_digest'' = JStr h \<and>
    (check_lineage (tl_run T) [d, new] [h, h'] = Inr [] \<longleftrightarrow>
       rget d ''operation'' = str ''execute'' \<and> archive_of (tl_run T) new = archive_of (tl_run T) d)"
proof -
  from assms obtain c d graded fa captured h where
    s: "m = Some c" "as_object c = Inr (Some d)" "contract_holds T src c d sg pub"
    "stage_archive (tl_run T) src d = Inr staged" "manifest_digest (rt_sha (tl_run T)) m = Inr h"
    "build (rt_sha (tl_run T)) now fa ''regrade'' vid (key_id (tl_run T) pub) (Some h) stamp (lit ''independent'') = Inr new"
    by (rule regrade_stages)
  have l: "load_chain (rt_sha (tl_run T)) [m] = Inr (Some ([d], [h]))" using s(1,2,5) by (simp add: read_record_def)
  from build_members(2) [OF s(6)] have "rget new ''source_record_digest'' = JStr h" by (simp add: opt_str_def)
  with s(1-3,5) staged_checked [OF s(3,4)] regrade_pair [OF assms l] show ?thesis by blast
qed

definition demo_grader :: grader where
  "demo_grader fs = Inr (with_files fs [(lit reward_txt, lit ''1.0'')], lit ''ok'', [])"

definition demo_staged :: "(ustr \<times> bytes) list" where
  "demo_staged = map (\<lambda>p. (lit p, the (fs_read (disk trial_files) (lit p)))) [''agent/a.json'', ''result.json'']"

definition demo_graded :: files where
  "demo_graded =
     with_files (with_files (with_files (disk []) demo_staged) [(lit reward_txt, lit ''1.0'')])
       [(lit ''verifier/test-stdout.txt'', lit ''ok''), (lit ''verifier/test-stderr.txt'', [])]"

definition regraded_record :: "ustr \<Rightarrow> dict" where
  "regraded_record h = record_members demo_facts ''regrade'' (lit ''v'') (key_id toy [1]) (Some h) (lit ''now'') (lit ''independent'')
     (hex_of_bytes (replicate 32 0)) (hex_of_bytes (replicate 32 0))"

lemma regraded_facts:
  "collect_facts demo_tool demo_graded (Some (disk test_files)) = Inr (demo_facts, [(lit ''binding/grading-inputs/test.sh'', lit ''echo 1'')])"
  "bind_value (JObj (regraded_record (hex_of_bytes (replicate 32 0))))"
  by code_simp+

lemma demo_run_verifier: "run_verifier demo_grader (disk test_files) (with_files (disk []) demo_staged) = Inr demo_graded"
proof -
  have "fs_file (disk test_files) (lit ''test.sh'')" "utf8_encode (lit ''ok'') = Inr (lit ''ok'')" "utf8_encode [] = Inr []" by code_simp+
  then show ?thesis by (simp add: run_verifier_def demo_grader_def demo_graded_def)
qed

lemma demo_stages:
  assumes "demo_build trial_files = Inr (fs, d)" "fs_read fs (lit ''binding/manifest.json'') = Some m" "as_object m = Inr (Some r)"
    and "bind_value (JObj d)"
  shows "stage_archive toy fs r = Inr demo_staged"
proof -
  have T: "tl_run demo_tool = toy" by (simp add: demo_tool_def)
  from assms(1) [unfolded demo_build_def] obtain fa ws m' st a' v' where
    f: "collect_facts demo_tool (disk trial_files) (Some (disk test_files)) = Inr (fa, ws)" and m: "canonical_bytes (JObj d) = Inr m'"
    and rec: "d = record_members fa ''execute'' (lit ''v'') (key_id (tl_run demo_tool) [1]) None st (lit ''independent'') a' v'"
    and fs: "fs = with_files (disk trial_files) (ws @ [(lit ''binding/manifest.json'', m'), (lit ''binding/manifest.sig'', hex_of_bytes (replicate 64 7))])"
    by (rule built_stages)
  from f have fa: "fa = demo_facts" "captured_files (Some (disk test_files)) = Inr ws"
    using facts_of_tidy [OF f disks_tidy(1)] by (simp_all add: demo_collected)
  have t: "\<forall>v. Some (disk test_files) = Some v \<longrightarrow> tidy v" using disks_tidy(2) by blast
  note B = built_files [OF fs fa(2) t]
  from B(1) assms(2) have "m' = m" by simp
  with canonical_bytes_decode [OF assms(4) m] assms(3) have r: "parsed (JObj d) = JObj r"
    by (auto simp: as_object_def parsed_def split: json.splits)
  then have "r = the_obj (parsed (JObj d))" by simp
  from record_gets(3) [OF rec this] have g: "rget r ''artifacts'' = parsed (sorted_entries (fa_entries demo_facts))" by (simp add: fa)
  have ok: "entry_ok toy fs e" if "e \<in> set (fa_entries demo_facts)" for e
    using built_entries [OF fs f disks_tidy(1) t, of e] that by (simp add: fa T)
  have p: "map en_path (filter archive_entry (sort_entries (fa_entries demo_facts))) = [lit ''agent/a.json'', lit ''result.json'']"
    by code_simp
  have o: "outside (lit ''agent/a.json'')" "outside (lit ''result.json'')" by code_simp+
  have "map (\<lambda>e. (en_path e, the (fs_read fs (en_path e)))) (filter archive_entry (sort_entries (fa_entries demo_facts))) =
      map (\<lambda>p. (p, the (fs_read fs p))) (map en_path (filter archive_entry (sort_entries (fa_entries demo_facts))))" by simp
  also have "\<dots> = demo_staged" unfolding p using B(3) [OF o(1)] B(3) [OF o(2)] by (simp add: demo_staged_def)
  finally show ?thesis using stage_parsed [OF g ok] by simp
qed

theorem regrade_rests_on_verified_witness:
  "\<exists>fs oc staged new b s. demo_verify fs = Inr oc \<and>
     regrade demo_tool demo_grader (\<lambda>_. replicate 64 7) (lit ''now'') fs (fs_read fs (lit ''binding/manifest.json''))
       (fs_read fs (lit ''binding/manifest.sig'')) [1] (disk test_files) (disk []) (lit ''v'') None = Inr (staged, new, b, s) \<and>
     rget new ''source_record_digest'' = JStr (hex_of_bytes (replicate 32 0))"
proof (rule demo_outcome)
  fix fs :: files and oc
  let ?m = "fs_read fs (lit ''binding/manifest.json'')" and ?s = "fs_read fs (lit ''binding/manifest.sig'')"
  let ?h = "hex_of_bytes (replicate 32 0)"
  assume a: "demo_build trial_files = Inr (fs, demo_record)" "demo_verify fs = Inr oc" "oc_verdict oc = Verified"
  have T: "tl_run demo_tool = toy" "rt_sha toy = (\<lambda>_. replicate 32 0)" by (simp_all add: demo_tool_def toy_def)
  note v = a(2) [unfolded demo_verify_def]
  from v a(3) obtain m r where m: "?m = Some m" "as_object m = Inr (Some r)" "contract_holds demo_tool fs m r ?s [1]"
    using verified_contract by blast
  then have h: "manifest_digest (rt_sha toy) ?m = Inr ?h"
    by (simp add: manifest_digest_def read_record_def json_digest_def contract_holds_def Let_def sha256_hex_def T)
  obtain b where b: "canonical_bytes (JObj (regraded_record ?h)) = Inr b" using canonical_bytes_total [OF regraded_facts(2)] by blast
  have n: "build (rt_sha toy) (lit ''now'') demo_facts ''regrade'' (lit ''v'') (key_id toy [1]) (Some ?h) None (lit ''independent'') = Inr (regraded_record ?h)"
    by (simp add: build_def demo_digests Let_def regraded_record_def)
  have st: "stage_archive toy fs r = Inr demo_staged" by (rule demo_stages [OF a(1) m(1,2) demo_record_bound])
  have rd: "read_record ?m = Inr (Some r)" using m(1,2) by (simp add: read_record_def)
  have rg: "regrade demo_tool demo_grader (\<lambda>_. replicate 64 7) (lit ''now'') fs ?m ?s [1] (disk test_files) (disk []) (lit ''v'') None =
      Inr (demo_staged, regraded_record ?h, b, hex_of_bytes (replicate 64 7))"
    unfolding regrade_def Let_def T(1) v rbind.simps rd
    by (simp add: a(3) st demo_run_verifier regraded_facts(1) h n b del: One_nat_def)
  from regrade_rests_on_verified [OF rg] h have "rget (regraded_record ?h) ''source_record_digest'' = JStr ?h" by (auto simp: T(1))
  with a(2) rg show ?thesis by blast
qed

text \<open>C16: two chains of canonical manifests that pass the lineage check and end in the same digest
  are the same chain, from its first record on, unless two of the manifests collide.\<close>

theorem lineage_binds_history:
  assumes "hash_function H" "load_chain H ms = Inr (Some (ds, hs))" "load_chain H ns = Inr (Some (es, gs))"
    and "check_lineage R ds hs = Inr []" "check_lineage R es gs = Inr []" "last hs = last gs"
    and "\<forall>m \<in> set ms \<union> set ns. stored_canonical m" "inj_on H (the ` (set ms \<union> set ns))"
  shows "ms = ns"
  using assms by (intro hash_function.lineage_binds [OF assms(1-5)]) simp_all

definition first_manifest :: bytes where
  "first_manifest = lit ''{\"operation\":\"execute\",\"source_archive_digest\":\"x\"}''"

definition second_manifest :: bytes where
  "second_manifest = lit ''{\"operation\":\"regrade\",\"source_archive_digest\":\"x\",\"source_record_digest\":\"'' @
     sha256_hex sum_hash first_manifest @ lit ''\"}''"

definition demo_chain :: "(dict list \<times> ustr list) option res" where
  "demo_chain = load_chain sum_hash [Some first_manifest, Some second_manifest]"

lemma demo_chain_loads:
  "(case demo_chain of Inr (Some (ds, hs)) \<Rightarrow> check_lineage toy ds hs = Inr [] | _ \<Rightarrow> False)"
  "stored_canonical (Some first_manifest)" "stored_canonical (Some second_manifest)" "sum_hash first_manifest \<noteq> sum_hash second_manifest"
  by code_simp+

theorem lineage_binds_history_witness:
  "\<exists>ds hs. demo_chain = Inr (Some (ds, hs)) \<and>
     (\<forall>ns es gs. load_chain sum_hash ns = Inr (Some (es, gs)) \<and> check_lineage toy es gs = Inr [] \<and> last hs = last gs \<and>
        set ns \<subseteq> {Some first_manifest, Some second_manifest} \<longrightarrow> ns = [Some first_manifest, Some second_manifest])"
proof -
  from demo_chain_loads(1) obtain ds hs where c: "demo_chain = Inr (Some (ds, hs))" "check_lineage toy ds hs = Inr []"
    by (auto split: sum.splits option.splits)
  have i: "inj_on sum_hash {first_manifest, second_manifest}" using demo_chain_loads(4) by (auto simp: inj_on_def)
  have "ns = [Some first_manifest, Some second_manifest]"
    if n: "load_chain sum_hash ns = Inr (Some (es, gs))" "check_lineage toy es gs = Inr []" "last hs = last gs"
      "set ns \<subseteq> {Some first_manifest, Some second_manifest}" for ns es gs
  proof -
    have s: "\<forall>m \<in> set [Some first_manifest, Some second_manifest] \<union> set ns. stored_canonical m"
      using n(4) demo_chain_loads(2,3) by auto
    have "the ` (set [Some first_manifest, Some second_manifest] \<union> set ns) \<subseteq> {first_manifest, second_manifest}" using n(4) by auto
    from lineage_binds_history [OF sum_hash_function c(1) [unfolded demo_chain_def] n(1) c(2) n(2,3) s inj_on_subset [OF i this]]
    show ?thesis by simp
  qed
  with c(1) show ?thesis by blast
qed

text \<open>The lineage command does not verify the records of a chain: two files that carry no
  version, no artifacts and no signature make a clean lineage.\<close>

theorem lineage_of_unsigned_records:
  "cmd_lineage \<lparr>rt_sha = sum_hash, rt_sig = (\<lambda>_ _ _. False), rt_repr = (\<lambda>_. [])\<rparr> [Some first_manifest, Some second_manifest] = Inr (exit_code Verified)"
  by code_simp

end
