(* ===== verification/Json_Dumps.thy ===== *)
theory Json_Dumps
  imports Binding_Numbers
begin

section \<open>\<open>json.dumps\<close> and \<open>json.loads\<close> on bytes\<close>

text \<open>
  What \<open>scripts/mutationdiff.py\<close> uses of the standard library's JSON module: the compact
  writer with sorted members, with and without \<open>ensure_ascii\<close>, the indented writer, and the
  reader of a byte string, which guesses its encoding first.  Members are sorted by code
  point, not by UTF-16 unit.  A float is written by its \<open>repr\<close>; the sign of a zero float is
  not represented, as everywhere in this development.  The recursion limit is not modelled.
\<close>

subsection \<open>Writing\<close>

text \<open>One escape per UTF-16 unit of a character outside printable ASCII.\<close>

definition unit_escape :: "nat \<Rightarrow> ustr" where
  "unit_escape u =
     [0x5C, 0x75, hex_digit (u div 4096), hex_digit (u div 256 mod 16), hex_digit (u div 16 mod 16), hex_digit (u mod 16)]"

definition ascii_char :: "nat \<Rightarrow> ustr" where
  "ascii_char c =
     (if c = 0x22 \<or> c = 0x5C \<or> c < 0x20 then jcs_char c
      else if c \<le> 0x7E then [c]
      else concat (map unit_escape (utf16_units c)))"

definition dumps_string :: "bool \<Rightarrow> ustr \<Rightarrow> ustr" where
  "dumps_string ascii s = (if ascii then 0x22 # concat (map ascii_char s) @ [0x22] else jcs_string s)"

fun dumps_float :: "pyfloat \<Rightarrow> ustr" where
  "dumps_float (Finite q) =
     (if q = 0 then lit ''0.0'' else if q < 0 then 0x2D # float_repr (- q) else float_repr q)"
| "dumps_float PosInf = lit ''Infinity''"
| "dumps_float NegInf = lit ''-Infinity''"
| "dumps_float NaN = lit ''NaN''"

text \<open>\<open>sorted(d.items())\<close>: no two keys of a dict are equal, so the keys decide.\<close>

definition sorted_items :: "(ustr \<times> 'a) list \<Rightarrow> (ustr \<times> 'a) list" where
  "sorted_items d = sort_key fst d"

lemma set_sorted_items [simp]: "set (sorted_items d) = set d"
  by (simp add: sorted_items_def)

lemma sorted_items_cong [fundef_cong]: "d = e \<Longrightarrow> sorted_items d = sorted_items e"
  by simp

text \<open>\<open>json.dumps(v, sort_keys=True, separators=(",", ":"), ensure_ascii=...)\<close>.\<close>

fun dumps :: "bool \<Rightarrow> json \<Rightarrow> ustr res" where
  "dumps ascii JNull = Inr (lit ''null'')"
| "dumps ascii (JBool b) = Inr (if b then lit ''true'' else lit ''false'')"
| "dumps ascii (JInt i) = int_text i"
| "dumps ascii (JFloat f) = Inr (dumps_float f)"
| "dumps ascii (JStr s) = Inr (dumps_string ascii s)"
| "dumps ascii (JArr xs) = rbind (rmap (dumps ascii) xs) (\<lambda>ts. Inr (0x5B # comma_join ts @ [0x5D]))"
| "dumps ascii (JObj d) =
     rbind (rmap (\<lambda>m. rbind (dumps ascii (snd m)) (\<lambda>t. Inr (dumps_string ascii (fst m) @ 0x3A # t))) (sorted_items d))
           (\<lambda>ts. Inr (0x7B # comma_join ts @ [0x7D]))"

text \<open>\<open>json.dumps(v, sort_keys=True, indent=2, ensure_ascii=False)\<close>, at an indentation level.\<close>

fun sep_join :: "ustr \<Rightarrow> ustr list \<Rightarrow> ustr" where
  "sep_join sep [] = []"
| "sep_join sep [t] = t"
| "sep_join sep (t # u # ts) = t @ sep @ sep_join sep (u # ts)"

definition newline_indent :: "nat \<Rightarrow> ustr" where
  "newline_indent n = 0x0A # replicate (2 * n) 0x20"

fun dumps_indented :: "nat \<Rightarrow> json \<Rightarrow> ustr res" where
  "dumps_indented n (JArr xs) =
     (if xs = [] then Inr (lit ''[]'')
      else rbind (rmap (dumps_indented (Suc n)) xs) (\<lambda>ts.
             Inr (0x5B # newline_indent (Suc n) @ sep_join (0x2C # newline_indent (Suc n)) ts @ newline_indent n @ [0x5D])))"
| "dumps_indented n (JObj d) =
     (if d = [] then Inr (lit ''{}'')
      else rbind (rmap (\<lambda>m. rbind (dumps_indented (Suc n) (snd m)) (\<lambda>t.
               Inr (dumps_string False (fst m) @ 0x3A # 0x20 # t))) (sorted_items d)) (\<lambda>ts.
             Inr (0x7B # newline_indent (Suc n) @ sep_join (0x2C # newline_indent (Suc n)) ts @ newline_indent n @ [0x7D])))"
| "dumps_indented n v = dumps False v"

subsection \<open>Reading bytes\<close>

text \<open>\<open>json.detect_encoding\<close>.\<close>

datatype encoding = Utf8 | Utf8Sig | Utf16 | Utf16BE | Utf16LE | Utf32 | Utf32BE | Utf32LE

definition detect_encoding :: "bytes \<Rightarrow> encoding" where
  "detect_encoding b =
     (if starts_with [0, 0, 0xFE, 0xFF] b \<or> starts_with [0xFF, 0xFE, 0, 0] b then Utf32
      else if starts_with [0xFE, 0xFF] b \<or> starts_with [0xFF, 0xFE] b then Utf16
      else if starts_with [0xEF, 0xBB, 0xBF] b then Utf8Sig
      else (case b of
        [b0, b1] \<Rightarrow> if b0 = 0 then Utf16BE else if b1 = 0 then Utf16LE else Utf8
      | b0 # b1 # b2 # b3 # _ \<Rightarrow>
          if b0 = 0 then (if b1 \<noteq> 0 then Utf16BE else Utf32BE)
          else if b1 = 0 then (if b2 \<noteq> 0 \<or> b3 \<noteq> 0 then Utf16LE else Utf32LE)
          else Utf8
      | _ \<Rightarrow> Utf8))"

text \<open>\<open>bytes.decode(..., "surrogatepass")\<close>: a surrogate of its own decodes to itself.\<close>

definition surrogate_step :: "bytes \<Rightarrow> (nat \<times> bytes) option" where
  "surrogate_step bs =
     (case bs of
        b0 # b1 # b2 # r \<Rightarrow>
          if b0 = 0xED \<and> 0xA0 \<le> b1 \<and> b1 \<le> 0xBF \<and> is_cont b2
          then Some (0xD000 + (b1 - 0x80) * 64 + (b2 - 0x80), r) else None
      | _ \<Rightarrow> None)"

definition utf8_step_pass :: "bytes \<Rightarrow> (nat \<times> bytes) option" where
  "utf8_step_pass bs = (case utf8_step bs of None \<Rightarrow> surrogate_step bs | Some x \<Rightarrow> Some x)"

lemma utf8_step_pass_shorter: "utf8_step_pass bs = Some (c, r) \<Longrightarrow> length r < length bs"
  by (auto simp: utf8_step_pass_def surrogate_step_def dest: utf8_step_shorter split: option.splits list.splits if_splits)

function utf8_decode_pass :: "bytes \<Rightarrow> ustr option" where
  "utf8_decode_pass bs =
     (if bs = [] then Some []
      else (case utf8_step_pass bs of
        None \<Rightarrow> None
      | Some (c, r) \<Rightarrow> map_option ((#) c) (utf8_decode_pass r)))"
  by pat_completeness auto
termination
  by (relation "measure length") (auto dest: utf8_step_pass_shorter)

declare utf8_decode_pass.simps [simp del]

fun units_of :: "bool \<Rightarrow> bytes \<Rightarrow> nat list option" where
  "units_of big [] = Some []"
| "units_of big (a # b # r) = map_option ((#) (if big then a * 256 + b else b * 256 + a)) (units_of big r)"
| "units_of big _ = None"

fun join_units :: "nat list \<Rightarrow> ustr" where
  "join_units (h # l # r) =
     (if is_high h \<and> is_low l then (0x10000 + (h - 0xD800) * 1024 + (l - 0xDC00)) # join_units r
      else h # join_units (l # r))"
| "join_units us = us"

definition utf16_decode_pass :: "bool \<Rightarrow> bytes \<Rightarrow> ustr option" where
  "utf16_decode_pass big b = map_option join_units (units_of big b)"

fun utf32_decode_pass :: "bool \<Rightarrow> bytes \<Rightarrow> ustr option" where
  "utf32_decode_pass big [] = Some []"
| "utf32_decode_pass big (a # b # c # d # r) =
     (let u = (if big then ((a * 256 + b) * 256 + c) * 256 + d else ((d * 256 + c) * 256 + b) * 256 + a) in
      if u < 0x110000 then map_option ((#) u) (utf32_decode_pass big r) else None)"
| "utf32_decode_pass big _ = None"

definition decode_pass :: "bytes \<Rightarrow> ustr option" where
  "decode_pass b =
     (case detect_encoding b of
        Utf8 \<Rightarrow> utf8_decode_pass b
      | Utf8Sig \<Rightarrow> utf8_decode_pass (drop 3 b)
      | Utf16 \<Rightarrow> utf16_decode_pass (take 1 b = [0xFE]) (drop 2 b)
      | Utf16BE \<Rightarrow> utf16_decode_pass True b
      | Utf16LE \<Rightarrow> utf16_decode_pass False b
      | Utf32 \<Rightarrow> utf32_decode_pass (take 1 b = [0]) (drop 4 b)
      | Utf32BE \<Rightarrow> utf32_decode_pass True b
      | Utf32LE \<Rightarrow> utf32_decode_pass False b)"

text \<open>\<open>json.loads(raw)\<close> under a handler of \<open>ValueError\<close>: \<open>None\<close> is the handler.\<close>

definition loads_bytes :: "bytes \<Rightarrow> json option" where
  "loads_bytes raw =
     (case decode_pass raw of
        None \<Rightarrow> None
      | Some t \<Rightarrow> (case json_loads_default t of Inl _ \<Rightarrow> None | Inr v \<Rightarrow> Some v))"

end
