(* ===== verification/Mutation_Marks.thy ===== *)
theory Mutation_Marks
  imports Commitments Json_Dumps
begin

section \<open>Which derived fields agree with their derivation\<close>

text \<open>
  The first half of \<open>scripts/mutationdiff.py\<close>: the derivations a statement's digests, Merkle
  root, run binding, result and signatures are compared with, and the map of marks saying
  which of them agree.  The module states these derivations a second time, beside the
  verifier.  Hash, signature check and Python's \<open>repr\<close> come with the \<open>runtime\<close>; the keys
  are the pairs of a role and a public key.  An exception no handler takes is \<open>Inl\<close>.
\<close>

subsection \<open>Digests and leaves\<close>

definition derived_token :: ustr where
  "derived_token = lit ''<derived>''"

definition carried_binding :: ustr where
  "carried_binding = lit ''<carried-run-binding>''"

definition undecodable :: ustr where
  "undecodable = lit ''payload bytes are not the canonical form of what they encode''"

definition jcs :: "json \<Rightarrow> bytes res" where
  "jcs v = rbind (dumps False v) utf8_encode"

definition jcs_digest :: "(bytes \<Rightarrow> bytes) \<Rightarrow> json \<Rightarrow> ustr option" where
  "jcs_digest H v = (case jcs v of Inl _ \<Rightarrow> None | Inr b \<Rightarrow> Some (sha256_hex H b))"

definition strict_b64 :: "json \<Rightarrow> bytes option" where
  "strict_b64 v =
     (case v of
        JStr s \<Rightarrow> (case strict_b64decode s of Inl _ \<Rightarrow> None | Inr b \<Rightarrow> Some b)
      | _ \<Rightarrow> None)"

text \<open>A payload type with a lone surrogate makes \<open>pae\<close> raise, and nothing here catches it.\<close>

definition record_leaf :: "(bytes \<Rightarrow> bytes) \<Rightarrow> dict \<Rightarrow> bytes option res" where
  "record_leaf H d =
     (case (strict_b64 (rget d ''payload''), rget d ''payloadType'') of
        (Some b, JStr t) \<Rightarrow> rbind (pae t b) (\<lambda>p. Inr (Some (H (0x00 # p))))
      | _ \<Rightarrow> Inr None)"

text \<open>The loop over the records: it stops at the first one without a leaf.\<close>

fun record_leaves :: "(bytes \<Rightarrow> bytes) \<Rightarrow> json list \<Rightarrow> bytes list option res" where
  "record_leaves H [] = Inr (Some [])"
| "record_leaves H (r # rs) =
     (case r of
        JObj d \<Rightarrow>
          rbind (record_leaf H d) (\<lambda>l.
            case l of
              None \<Rightarrow> Inr None
            | Some x \<Rightarrow> rbind (record_leaves H rs) (\<lambda>xs. Inr (map_option ((#) x) xs)))
      | _ \<Rightarrow> Inr None)"

function root_node :: "(bytes \<Rightarrow> bytes) \<Rightarrow> bytes list \<Rightarrow> bytes" where
  "root_node H entries =
     (if length entries \<le> 1 then (case entries of [] \<Rightarrow> [] | x # _ \<Rightarrow> x)
      else let k = split_point (length entries) in
        H (0x01 # root_node H (take k entries) @ root_node H (drop k entries)))"
  by pat_completeness auto
termination
proof (relation "measure (\<lambda>(H, entries). length entries)")
  fix H :: "bytes \<Rightarrow> bytes" and entries :: "bytes list" and k
  assume "\<not> length entries \<le> 1" "k = split_point (length entries)"
  then have "0 < k" "k < length entries" using split_point_bounds [of "length entries"] by auto
  then show "((H, take k entries), H, entries) \<in> measure (\<lambda>(H, entries). length entries)"
    "((H, drop k entries), H, entries) \<in> measure (\<lambda>(H, entries). length entries)" by auto
qed simp

declare root_node.simps [simp del]

definition merkle_root :: "(bytes \<Rightarrow> bytes) \<Rightarrow> json list \<Rightarrow> ustr option res" where
  "merkle_root H rs =
     rbind (record_leaves H rs) (\<lambda>ls.
       case ls of
         None \<Rightarrow> Inr None
       | Some xs \<Rightarrow> Inr (if xs = [] then None else Some (hex_of_bytes (root_node H xs))))"

subsection \<open>Payloads\<close>

definition decode_payload :: "dict \<Rightarrow> dict option" where
  "decode_payload d =
     (case strict_b64 (rget d ''payload'') of
        None \<Rightarrow> None
      | Some b \<Rightarrow> (case loads_bytes b of Some (JObj p) \<Rightarrow> Some p | _ \<Rightarrow> None))"

definition canonical_payload :: "dict \<Rightarrow> dict option" where
  "canonical_payload d =
     (case decode_payload d of
        None \<Rightarrow> None
      | Some p \<Rightarrow>
          (case jcs (JObj p) of
             Inl _ \<Rightarrow> None
           | Inr c \<Rightarrow> if strict_b64 (rget d ''payload'') = Some c then Some p else None))"

text \<open>\<open>observed_set_digest\<close>: the leaves of the interceptions and examinations.\<close>

fun observed_leaf_hexes :: "(bytes \<Rightarrow> bytes) \<Rightarrow> json list \<Rightarrow> ustr list res" where
  "observed_leaf_hexes H [] = Inr []"
| "observed_leaf_hexes H (r # rs) =
     (case r of
        JObj d \<Rightarrow>
          (case decode_payload d of
             None \<Rightarrow> observed_leaf_hexes H rs
           | Some p \<Rightarrow>
               if rget p ''aeeKind'' \<noteq> str ''interception'' \<and> rget p ''aeeKind'' \<noteq> str ''examination''
               then observed_leaf_hexes H rs
               else rbind (record_leaf H d) (\<lambda>l.
                 rbind (observed_leaf_hexes H rs) (\<lambda>ls.
                   Inr (case l of None \<Rightarrow> ls | Some x \<Rightarrow> hex_of_bytes x # ls))))
      | _ \<Rightarrow> observed_leaf_hexes H rs)"

definition observed_digest :: "(bytes \<Rightarrow> bytes) \<Rightarrow> json list \<Rightarrow> ustr option res" where
  "observed_digest H rs =
     rbind (observed_leaf_hexes H rs) (\<lambda>ls. Inr (jcs_digest H (JArr (map JStr (sort (remdups ls))))))"

subsection \<open>The run binding\<close>

definition derived_binding :: "(bytes \<Rightarrow> bytes) \<Rightarrow> json \<Rightarrow> json \<Rightarrow> json \<Rightarrow> ustr option" where
  "derived_binding H env subj version =
     (case (env, subj) of
        (JObj e, JStr _) \<Rightarrow>
          if version \<noteq> str ''1'' \<and> version \<noteq> str ''2'' then None
          else
            Option.bind (env_digest e ''catchPolicy'') (\<lambda>cp.
            Option.bind (env_digest e ''corpus'') (\<lambda>co.
            Option.bind (env_digest e ''runEntropy'') (\<lambda>re.
            Option.bind (env_digest e ''substrate'') (\<lambda>su.
            Option.bind
              (if version = str ''1'' then
                 Option.bind (env_digest e ''networkPosture'') (\<lambda>np. Some [(lit ''networkPosture'', np)])
               else
                 Option.bind (item (JObj e) ''networkPosture'') (\<lambda>np.
                 Option.bind (env_digest e ''observationVocabulary'') (\<lambda>ov.
                   Some [(lit ''networkPosture'', opt_str (jcs_digest H np)), (lit ''observationVocabulary'', ov)])))
              (\<lambda>rest.
              jcs_digest H (JObj
                ([(lit ''aeeBindingVersion'', version), (lit ''catchPolicy'', cp), (lit ''corpus'', co),
                  (lit ''runEntropy'', re), (lit ''subject'', subj), (lit ''substrate'', su)] @ rest)))))))
      | _ \<Rightarrow> None)"

subsection \<open>The result\<close>

text \<open>The loop over the rows; a row that is not an object makes the result unreadable.\<close>

fun result_scan :: "json list \<Rightarrow> json list \<Rightarrow> json list \<Rightarrow> bool \<times> bool \<Rightarrow> (bool \<times> bool) option res" where
  "result_scan ls ca [] s = Inr (Some s)"
| "result_scan ls ca (r # rs) (forced, indirect) =
     (case r of
        JObj d \<Rightarrow>
          rbind (need_hash (row_label d)) (\<lambda>_.
            if jin (row_label d) ca \<or> \<not> jin (row_label d) ls then result_scan ls ca rs (True, indirect)
            else if \<not> basis_known d then result_scan ls ca rs (True, indirect)
            else if \<not> method_known d then result_scan ls ca rs (True, indirect)
            else if \<not> attribution_known d then result_scan ls ca rs (True, indirect)
            else if rget d ''basis'' \<noteq> str ''substrate'' \<or> rget d ''method'' \<noteq> str ''intercepted''
            then result_scan ls ca rs (forced, True)
            else result_scan ls ca rs (forced, indirect))
      | _ \<Rightarrow> Inr None)"

definition least_result :: "bool \<Rightarrow> bool \<Rightarrow> bool \<Rightarrow> string" where
  "least_result forced degraded indirect =
     arg_min_list result_rank
       [if forced then ''fail'' else ''pass'', if degraded then ''degraded'' else ''pass'',
        if indirect then ''pass_indirect'' else ''pass'']"

definition recomputed_result :: "json \<Rightarrow> string option res" where
  "recomputed_result pred =
     (case pred of
        JObj p \<Rightarrow>
          (case (rget p ''attackResults'', rget p ''observationEnvironment'', rget p ''coverage'') of
             (JArr rows, JObj env, JObj cov) \<Rightarrow>
               (case rget env ''observationVocabulary'' of
                  JObj voc \<Rightarrow>
                    (case (rget voc ''labels'', rget voc ''caught'') of
                       (JArr ls, JArr ca) \<Rightarrow>
                         rbind (need_hash_all ls) (\<lambda>_. rbind (need_hash_all ca) (\<lambda>_.
                         rbind (result_scan ls ca rows (False, False)) (\<lambda>s.
                           Inr (map_option (\<lambda>(forced, indirect).
                             least_result forced
                               (truthy (rget cov ''outOfScope'') \<or> truthy (rget cov ''routedElsewhere'')) indirect) s))))
                     | _ \<Rightarrow> Inr None)
                | _ \<Rightarrow> Inr None)
           | _ \<Rightarrow> Inr None)
      | _ \<Rightarrow> Inr None)"

subsection \<open>Signatures\<close>

definition suite_roles :: "string list" where
  "suite_roles = [''substrate-observation-test'', ''wrong-signer-test'', ''statement-test'']"

text \<open>\<open>suite_public_keys\<close>; the public key of a seed is the library's, an argument.\<close>

definition suite_public_keys :: "(bytes \<Rightarrow> bytes) \<Rightarrow> (bytes \<Rightarrow> bytes) \<Rightarrow> (ustr \<times> bytes) list" where
  "suite_public_keys H public_of =
     map (\<lambda>role. (lit role, public_of (H (lit ''in-toto-aee-test-key/'' @ lit role @ lit ''/v1'')))) suite_roles"

text \<open>
  The loop over the keys: loading a key that is not 32 bytes long raises, and the messages
  are built before the first is tried.
\<close>

fun find_signer :: "runtime \<Rightarrow> (ustr \<times> bytes) list \<Rightarrow> ustr \<Rightarrow> bytes \<Rightarrow> bytes \<Rightarrow> ustr res" where
  "find_signer R [] t b sg = Inr (lit ''unverifiable'')"
| "find_signer R ((role, pub) # ks) t b sg =
     (if length pub \<noteq> 32 then Inl ValueError
      else rbind (pae t b) (\<lambda>p.
        if rt_sig R pub p sg then Inr (role @ lit ''/pae'')
        else if rt_sig R pub b sg then Inr (role @ lit ''/raw'')
        else find_signer R ks t b sg))"

definition entry_keyid :: "dict \<Rightarrow> json" where
  "entry_keyid e = (case map_of e (lit ''keyid'') of None \<Rightarrow> str ''<absent>'' | Some v \<Rightarrow> v)"

definition entry_extra :: "dict \<Rightarrow> ustr list" where
  "entry_extra e = sort (remdups (filter (\<lambda>k. k \<noteq> lit ''keyid'' \<and> k \<noteq> lit ''sig'') (map fst e)))"

definition entry_part :: "runtime \<Rightarrow> (ustr \<times> bytes) list \<Rightarrow> dict \<Rightarrow> dict \<Rightarrow> ustr res" where
  "entry_part R keys d e =
     rbind (case (strict_b64 (rget e ''sig''), strict_b64 (rget d ''payload''), rget d ''payloadType'') of
              (Some sg, Some b, JStr t) \<Rightarrow> find_signer R keys t b sg
            | _ \<Rightarrow> Inr (lit ''unverifiable''))
       (\<lambda>signer. Inr (lit ''keyid='' @ py_str R (entry_keyid e) @ lit '',signer='' @ signer @
          (if entry_extra e = [] then []
           else lit '',extra='' @ rt_repr R (JArr (map JStr (entry_extra e))))))"

fun entry_parts :: "runtime \<Rightarrow> (ustr \<times> bytes) list \<Rightarrow> dict \<Rightarrow> json list \<Rightarrow> ustr list option res" where
  "entry_parts R keys d [] = Inr (Some [])"
| "entry_parts R keys d (e # es) =
     (case e of
        JObj ent \<Rightarrow>
          rbind (entry_part R keys d ent) (\<lambda>part.
          rbind (entry_parts R keys d es) (\<lambda>ps. Inr (map_option ((#) part) ps)))
      | _ \<Rightarrow> Inr None)"

definition signature_descriptor :: "runtime \<Rightarrow> (ustr \<times> bytes) list \<Rightarrow> dict \<Rightarrow> ustr option res" where
  "signature_descriptor R keys d =
     (case rget d ''signatures'' of
        JArr sigs \<Rightarrow>
          rbind (entry_parts R keys d sigs) (\<lambda>ps. Inr (map_option (\<lambda>parts.
            derived_token @ lit '':signatures['' @ sep_join (lit ''; '') parts @ lit '']'') ps))
      | _ \<Rightarrow> Inr None)"

subsection \<open>The marks of a statement\<close>

definition agrees_with :: "json \<Rightarrow> ustr option \<Rightarrow> bool" where
  "agrees_with v d = (case d of None \<Rightarrow> False | Some h \<Rightarrow> v = JStr h)"

definition mark_key :: "string \<Rightarrow> nat \<Rightarrow> ustr" where
  "mark_key s i = lit s @ 0x2F # dec_digits i"

definition first_subject_sha :: "dict \<Rightarrow> json" where
  "first_subject_sha stmt =
     (case rget stmt ''subject'' of
        JArr (JObj s # _) \<Rightarrow> (case rget s ''digest'' of JObj dg \<Rightarrow> rget dg ''sha256'' | _ \<Rightarrow> JNull)
      | _ \<Rightarrow> JNull)"

definition environment_marks :: "(bytes \<Rightarrow> bytes) \<Rightarrow> json \<Rightarrow> dict" where
  "environment_marks H env =
     (case env of
        JObj e \<Rightarrow>
          (case rget e ''corpus'' of
             JObj c \<Rightarrow>
               (case rget c ''digest'' of
                  JObj dg \<Rightarrow>
                    if dmem c (lit ''manifest'')
                    then [(lit ''corpus-digest'',
                           JBool (agrees_with (rget dg ''sha256'') (jcs_digest H (rget c ''manifest''))))]
                    else []
                | _ \<Rightarrow> [])
           | _ \<Rightarrow> []) @
          (case rget e ''observationVocabulary'' of
             JObj voc \<Rightarrow>
               (case rget voc ''digest'' of
                  JObj dg \<Rightarrow>
                    if dmem voc (lit ''labels'') \<and> dmem voc (lit ''caught'')
                    then [(lit ''vocabulary-digest'',
                           JBool (agrees_with (rget dg ''sha256'')
                             (jcs_digest H (JObj [(lit ''caught'', rget voc ''caught''), (lit ''labels'', rget voc ''labels'')]))))]
                    else []
                | _ \<Rightarrow> [])
           | _ \<Rightarrow> [])
      | _ \<Rightarrow> [])"

definition posture_digest :: "json \<Rightarrow> json" where
  "posture_digest env =
     (case env of
        JObj e \<Rightarrow>
          (case rget e ''networkPosture'' of
             JObj np \<Rightarrow> (case rget np ''digest'' of JObj dg \<Rightarrow> rget dg ''sha256'' | _ \<Rightarrow> JNull)
           | _ \<Rightarrow> JNull)
      | _ \<Rightarrow> JNull)"

text \<open>The bindings the records carry, as the set of their \<open>str\<close>.\<close>

definition carried_bindings :: "runtime \<Rightarrow> json list \<Rightarrow> ustr list" where
  "carried_bindings R rs =
     remdups (concat (map (\<lambda>r. case r of
        JObj d \<Rightarrow>
          (case canonical_payload d of
             Some p \<Rightarrow> if dmem p (lit ''aeeRunBinding'') then [py_str R (rget p ''aeeRunBinding'')] else []
           | None \<Rightarrow> [])
      | _ \<Rightarrow> []) rs))"

definition record_marks ::
  "runtime \<Rightarrow> (ustr \<times> bytes) list \<Rightarrow> ustr option \<Rightarrow> ustr option \<Rightarrow> json \<Rightarrow> nat \<times> json \<Rightarrow> dict res" where
  "record_marks R keys binding observed posture ir =
     (case ir of (i, r) \<Rightarrow>
        (case r of
           JObj d \<Rightarrow>
             rbind (signature_descriptor R keys d) (\<lambda>desc.
               Inr ((mark_key ''signature'' i, opt_str desc) #
                 (case canonical_payload d of
                    None \<Rightarrow> []
                  | Some p \<Rightarrow>
                      (if dmem p (lit ''aeeRunBinding'')
                       then [(mark_key ''binding'' i, JBool (agrees_with (rget p ''aeeRunBinding'') binding))] else []) @
                      (if dmem p (lit ''aeeObservedSet'')
                       then [(mark_key ''observed-set'' i, JBool (agrees_with (rget p ''aeeObservedSet'') observed))] else []) @
                      (if dmem p (lit ''aeePostureDigest'') \<and> posture \<noteq> JNull
                       then [(mark_key ''posture-digest'' i, JBool (py_eq (rget p ''aeePostureDigest'') posture))] else []))))
         | _ \<Rightarrow> Inr []))"

definition records_marks ::
  "runtime \<Rightarrow> (ustr \<times> bytes) list \<Rightarrow> dict \<Rightarrow> dict \<Rightarrow> json list \<Rightarrow> dict res" where
  "records_marks R keys stmt p rs =
     (let env = rget p ''observationEnvironment''; H = rt_sha R in
      rbind (merkle_root H rs) (\<lambda>root_hex.
      rbind (observed_digest H rs) (\<lambda>observed.
      let binding = derived_binding H env (first_subject_sha stmt) (str ''2'');
          carried = carried_bindings R rs
      in rbind (rmap (record_marks R keys binding observed (posture_digest env)) (enumerate 0 rs)) (\<lambda>ms.
        Inr ([(lit ''batch-root'', JBool (agrees_with (rget p ''batchRoot'') root_hex)),
              (lit ''uniform-binding'', (case carried of [b] \<Rightarrow> JStr b | _ \<Rightarrow> JNull)),
              (lit ''uniform-binding-derived'', JBool (case carried of [b] \<Rightarrow> binding = Some b | _ \<Rightarrow> False))]
             @ concat ms)))))"

definition derived_marks :: "runtime \<Rightarrow> (ustr \<times> bytes) list \<Rightarrow> json \<Rightarrow> dict res" where
  "derived_marks R keys stmt =
     (case stmt of
        JObj s \<Rightarrow>
          (case rget s ''predicate'' of
             JObj p \<Rightarrow>
               rbind (recomputed_result (JObj p)) (\<lambda>res.
               rbind (case rget p ''observationRecords'' of
                        JArr rs \<Rightarrow> if rs = [] then Inr [] else records_marks R keys s p rs
                      | _ \<Rightarrow> Inr []) (\<lambda>ms.
                 Inr ((lit ''result'', JBool (agrees_with (rget p ''result'') (map_option lit res))) #
                      environment_marks (rt_sha R) (rget p ''observationEnvironment'') @ ms)))
           | _ \<Rightarrow> Inr [])
      | _ \<Rightarrow> Inr [])"

end
