(* ===== verification/Sequence_Matcher.thy ===== *)
theory Sequence_Matcher
  imports Py_Prelude
begin

section \<open>Aligning two lists\<close>

text \<open>
  \<open>difflib.SequenceMatcher(None, a, b, autojunk=False)\<close> of the standard library, as the
  one-mutation relation uses it: the longest matching block, the earliest in \<open>a\<close> and then in
  \<open>b\<close> among those of equal length, then the same on both sides of it; the opcodes name the
  spans between the blocks.  The locale \<open>alignment\<close> holds what a reader of opcodes relies on.
\<close>

subsection \<open>Matching blocks\<close>

fun common_prefix :: "'a list \<Rightarrow> 'a list \<Rightarrow> nat" where
  "common_prefix (x # xs) (y # ys) = (if x = y then Suc (common_prefix xs ys) else 0)"
| "common_prefix _ _ = 0"

type_synonym block = "nat \<times> nat \<times> nat"

definition block_size :: "block \<Rightarrow> nat" where
  "block_size m = snd (snd m)"

definition all_blocks :: "'a list \<Rightarrow> 'a list \<Rightarrow> block list" where
  "all_blocks a b =
     concat (map (\<lambda>i. map (\<lambda>j. (i, j, common_prefix (drop i a) (drop j b))) [0..<length b]) [0..<length a])"

text \<open>\<open>find_longest_match\<close> on a window: a later block is taken only when it is longer.\<close>

definition longer :: "block \<Rightarrow> block \<Rightarrow> block" where
  "longer best m = (if block_size best < block_size m then m else best)"

definition longest_match :: "'a list \<Rightarrow> 'a list \<Rightarrow> block" where
  "longest_match a b = foldl longer (0, 0, 0) (all_blocks a b)"

lemma common_prefix_same: "take (common_prefix a b) a = take (common_prefix a b) b"
  by (induction a b rule: common_prefix.induct) auto

lemma common_prefix_le: "common_prefix a b \<le> length a \<and> common_prefix a b \<le> length b"
  by (induction a b rule: common_prefix.induct) auto

lemma common_prefix_self [simp]: "common_prefix a a = length a"
  by (induction a) auto

text \<open>What a block must be: a run of equal elements inside both lists.\<close>

definition block_ok :: "'a list \<Rightarrow> 'a list \<Rightarrow> block \<Rightarrow> bool" where
  "block_ok a b m = (case m of (i, j, k) \<Rightarrow>
     i + k \<le> length a \<and> j + k \<le> length b \<and> take k (drop i a) = take k (drop j b))"

lemma all_blocks_ok: "m \<in> set (all_blocks a b) \<Longrightarrow> block_ok a b m"
proof -
  assume "m \<in> set (all_blocks a b)"
  then obtain i j where m: "m = (i, j, common_prefix (drop i a) (drop j b))" "i < length a" "j < length b"
    by (auto simp: all_blocks_def)
  then show ?thesis
    using common_prefix_le [of "drop i a" "drop j b"] common_prefix_same [of "drop i a" "drop j b"]
    by (auto simp: block_ok_def)
qed

lemma foldl_longer: "foldl longer s ms \<in> insert s (set ms)"
  by (induction ms arbitrary: s) (auto simp: longer_def split: if_splits)

lemma longest_match_ok: "longest_match a b = m \<Longrightarrow> block_ok a b m"
  using foldl_longer [of "(0, 0, 0)" "all_blocks a b"] all_blocks_ok [of m a b]
  by (auto simp: longest_match_def block_ok_def)

lemma longest_match_window:
  "(i, j, k) = longest_match a b \<Longrightarrow> i + k \<le> length a \<and> j + k \<le> length b"
proof -
  assume "(i, j, k) = longest_match a b"
  from longest_match_ok [OF this [symmetric]] show ?thesis by (simp add: block_ok_def)
qed

text \<open>\<open>get_matching_blocks\<close> before adjacent blocks are joined: the queue of windows, in order.\<close>

function raw_blocks :: "nat \<Rightarrow> nat \<Rightarrow> 'a list \<Rightarrow> 'a list \<Rightarrow> block list" where
  "raw_blocks i0 j0 a b =
     (case longest_match a b of (i, j, k) \<Rightarrow>
        if k = 0 then []
        else raw_blocks i0 j0 (take i a) (take j b) @
             (i0 + i, j0 + j, k) # raw_blocks (i0 + i + k) (j0 + j + k) (drop (i + k) a) (drop (j + k) b))"
  by pat_completeness auto
termination
  by (relation "measure (\<lambda>(i0, j0, a, b). length a)") (auto dest!: longest_match_window)

declare raw_blocks.simps [simp del]

text \<open>Joining adjacent blocks; the pending block is the accumulator.\<close>

fun join_blocks :: "block \<Rightarrow> block list \<Rightarrow> block list" where
  "join_blocks (i, j, k) [] = (if k = 0 then [] else [(i, j, k)])"
| "join_blocks (i, j, k) ((i2, j2, k2) # ms) =
     (if i + k = i2 \<and> j + k = j2 then join_blocks (i, j, k + k2) ms
      else (if k = 0 then [] else [(i, j, k)]) @ join_blocks (i2, j2, k2) ms)"

definition matching_blocks :: "'a list \<Rightarrow> 'a list \<Rightarrow> block list" where
  "matching_blocks a b = join_blocks (0, 0, 0) (raw_blocks 0 0 a b) @ [(length a, length b, 0)]"

subsection \<open>Opcodes\<close>

text \<open>An opcode: whether the spans are equal, and the two spans.\<close>

record opcode =
  op_equal :: bool
  op_i1 :: nat
  op_i2 :: nat
  op_j1 :: nat
  op_j2 :: nat

fun opcodes_from :: "nat \<Rightarrow> nat \<Rightarrow> block list \<Rightarrow> opcode list" where
  "opcodes_from i j [] = []"
| "opcodes_from i j ((ai, bj, k) # ms) =
     (if i < ai \<or> j < bj then [\<lparr>op_equal = False, op_i1 = i, op_i2 = ai, op_j1 = j, op_j2 = bj\<rparr>] else []) @
     (if k = 0 then [] else [\<lparr>op_equal = True, op_i1 = ai, op_i2 = ai + k, op_j1 = bj, op_j2 = bj + k\<rparr>]) @
     opcodes_from (ai + k) (bj + k) ms"

definition opcodes :: "'a list \<Rightarrow> 'a list \<Rightarrow> opcode list" where
  "opcodes a b = opcodes_from 0 0 (matching_blocks a b)"

definition list_span :: "nat \<Rightarrow> nat \<Rightarrow> 'a list \<Rightarrow> 'a list" where
  "list_span i1 i2 xs = take (i2 - i1) (drop i1 xs)"

lemma set_span: "set (list_span i j xs) \<subseteq> set xs"
  unfolding list_span_def by (meson order_trans set_drop_subset set_take_subset)

lemma span_append:
  assumes "i \<le> j" "j \<le> k"
  shows "list_span i j xs @ list_span j k xs = list_span i k xs"
proof -
  obtain m n where "j = i + m" "k = i + m + n" using assms by (metis le_Suc_ex)
  then show ?thesis by (simp add: list_span_def take_add add.commute)
qed

lemma span_all [simp]: "list_span 0 (length xs) xs = xs"
  by (simp add: list_span_def)

lemma span_empty [simp]: "list_span i i xs = []"
  by (simp add: list_span_def)

lemma length_span: "j \<le> length xs \<Longrightarrow> length (list_span i j xs) = j - i"
  by (simp add: list_span_def)

lemma take_span: "i + k \<le> j \<Longrightarrow> take k (list_span i j xs) = list_span i (i + k) xs"
  by (simp add: list_span_def)

lemma drop_span: "i + k \<le> j \<Longrightarrow> drop k (list_span i j xs) = list_span (i + k) j xs"
  by (simp add: list_span_def drop_take add.commute)

text \<open>A chain of blocks between two points, each after the one before it.\<close>

fun chained :: "'a list \<Rightarrow> 'a list \<Rightarrow> nat \<Rightarrow> nat \<Rightarrow> nat \<Rightarrow> nat \<Rightarrow> block list \<Rightarrow> bool" where
  "chained a b i j i1 j1 [] = (i \<le> i1 \<and> j \<le> j1)"
| "chained a b i j i1 j1 ((ai, bj, k) # ms) =
     (i \<le> ai \<and> j \<le> bj \<and> list_span ai (ai + k) a = list_span bj (bj + k) b \<and> chained a b (ai + k) (bj + k) i1 j1 ms)"

lemma chained_append:
  "chained a b i j i1 j1 ms \<Longrightarrow> chained a b i1 j1 i2 j2 ns \<Longrightarrow> chained a b i j i2 j2 (ms @ ns)"
proof (induction ms arbitrary: i j)
  case Nil
  then show ?case by (cases ns) auto
qed auto

lemma raw_blocks_chained:
  assumes "i0 \<le> i1" "i1 \<le> length A" "j0 \<le> j1" "j1 \<le> length B"
  shows "chained A B i0 j0 i1 j1 (raw_blocks i0 j0 (list_span i0 i1 A) (list_span j0 j1 B))"
  using assms
proof (induction "i1 - i0" arbitrary: i0 i1 j0 j1 rule: less_induct)
  case less
  obtain i j k where m: "longest_match (list_span i0 i1 A) (list_span j0 j1 B) = (i, j, k)" by (metis prod_cases3)
  show ?case
  proof (cases "k = 0")
    case True
    with m less.prems show ?thesis by (subst raw_blocks.simps) simp
  next
    case False
    have b: "i0 + i + k \<le> i1" "j0 + j + k \<le> j1" "take k (drop i (list_span i0 i1 A)) = take k (drop j (list_span j0 j1 B))"
      using longest_match_ok [OF m] less.prems by (auto simp: block_ok_def length_span)
    then have e: "list_span (i0 + i) (i0 + i + k) A = list_span (j0 + j) (j0 + j + k) B"
      by (simp add: drop_span take_span)
    have l: "chained A B i0 j0 (i0 + i) (j0 + j) (raw_blocks i0 j0 (list_span i0 (i0 + i) A) (list_span j0 (j0 + j) B))"
      and r: "chained A B (i0 + i + k) (j0 + j + k) i1 j1
        (raw_blocks (i0 + i + k) (j0 + j + k) (list_span (i0 + i + k) i1 A) (list_span (j0 + j + k) j1 B))"
      using less.prems b(1,2) False by (auto intro!: less.hyps)
    have "raw_blocks i0 j0 (list_span i0 i1 A) (list_span j0 j1 B) =
        raw_blocks i0 j0 (list_span i0 (i0 + i) A) (list_span j0 (j0 + j) B) @ (i0 + i, j0 + j, k) #
        raw_blocks (i0 + i + k) (j0 + j + k) (list_span (i0 + i + k) i1 A) (list_span (j0 + j + k) j1 B)"
      using b(1,2) m False by (subst raw_blocks.simps) (simp add: take_span drop_span add.assoc)
    moreover have "chained A B (i0 + i) (j0 + j) i1 j1 ((i0 + i, j0 + j, k) #
        raw_blocks (i0 + i + k) (j0 + j + k) (list_span (i0 + i + k) i1 A) (list_span (j0 + j + k) j1 B))"
      using e r by simp
    ultimately show ?thesis using chained_append [OF l] by simp
  qed
qed

lemma join_blocks_chained:
  "chained a b i0 j0 i1 j1 (m # ms) \<Longrightarrow> chained a b i0 j0 i1 j1 (join_blocks m ms)"
proof (induction m ms arbitrary: i0 j0 rule: join_blocks.induct)
  case (2 i j k i2 j2 k2 ms)
  show ?case
  proof (cases "i + k = i2 \<and> j + k = j2")
    case True
    then have "list_span i (i + (k + k2)) a = list_span j (j + (k + k2)) b"
      using 2(3) span_append [of i "i + k" "i + (k + k2)" a] span_append [of j "j + k" "j + (k + k2)" b]
      by (simp add: add.assoc [symmetric])
    moreover have e: "i + (k + k2) = i2 + k2" "j + (k + k2) = j2 + k2" using True by auto
    ultimately have "chained a b i0 j0 i1 j1 ((i, j, k + k2) # ms)" using 2(3) by (simp only: chained.simps e)
    then show ?thesis using 2(1) [OF True] True by simp
  next
    case False
    then show ?thesis using 2(2) [OF False, of "if k = 0 then i0 else i + k" "if k = 0 then j0 else j + k"] 2(3)
      by (auto split: if_splits)
  qed
qed auto

lemma matching_blocks_chained:
  "chained a b 0 0 (length a) (length b) (join_blocks (0, 0, 0) (raw_blocks 0 0 a b))"
  using raw_blocks_chained [of 0 "length a" a 0 "length b" b]
  by (intro join_blocks_chained) simp

lemma chained_ends: "chained a b i j i1 j1 ms \<Longrightarrow> i \<le> i1 \<and> j \<le> j1"
  by (induction ms arbitrary: i j) (auto, fastforce+)

definition left_spans :: "'a list \<Rightarrow> opcode list \<Rightarrow> 'a list" where
  "left_spans a ps = concat (map (\<lambda>p. list_span (op_i1 p) (op_i2 p) a) ps)"

definition right_spans :: "'a list \<Rightarrow> opcode list \<Rightarrow> 'a list" where
  "right_spans b ps = concat (map (\<lambda>p. list_span (op_j1 p) (op_j2 p) b) ps)"

lemma opcodes_from_cover:
  "chained a b i j (length a) (length b) ms \<Longrightarrow>
   left_spans a (opcodes_from i j (ms @ [(length a, length b, 0)])) = list_span i (length a) a \<and>
   right_spans b (opcodes_from i j (ms @ [(length a, length b, 0)])) = list_span j (length b) b \<and>
   list_all (\<lambda>p. op_i2 p \<le> length a \<and> op_j2 p \<le> length b \<and>
       (op_equal p \<longrightarrow> list_span (op_i1 p) (op_i2 p) a = list_span (op_j1 p) (op_j2 p) b))
     (opcodes_from i j (ms @ [(length a, length b, 0)]))"
proof (induction ms arbitrary: i j)
  case Nil
  then show ?case by (auto simp: left_spans_def right_spans_def)
next
  case (Cons m ms)
  obtain ai bj k where m: "m = (ai, bj, k)" by (metis prod_cases3)
  have c: "chained a b (ai + k) (bj + k) (length a) (length b) ms"
    and le: "i \<le> ai" "j \<le> bj" and eq: "list_span ai (ai + k) a = list_span bj (bj + k) b"
    using Cons.prems m by auto
  note ends = chained_ends [OF c]
  have "list_span i ai a @ list_span ai (ai + k) a @ list_span (ai + k) (length a) a = list_span i (length a) a"
    "list_span j bj b @ list_span bj (bj + k) b @ list_span (bj + k) (length b) b = list_span j (length b) b"
    using le ends by (simp_all add: span_append)
  then show ?case using Cons.IH [OF c] eq m le ends by (auto simp: left_spans_def right_spans_def)
qed

lemma foldl_longer_stays: "list_all (\<lambda>m. block_size m \<le> block_size s) ms \<Longrightarrow> foldl longer s ms = s"
  by (induction ms) (auto simp: longer_def)

lemma longest_match_self: "longest_match a a = (0, 0, length a)"
proof (cases a)
  case (Cons x xs)
  obtain r where "[0..<length a] = 0 # r" using Cons by (metis upt_conv_Cons length_greater_0_conv list.distinct(1))
  then have c: "all_blocks a a = (0, 0, length a) # tl (all_blocks a a)" by (simp add: all_blocks_def)
  have "list_all (\<lambda>m. block_size m \<le> length a) (all_blocks a a)"
    using all_blocks_ok [of _ a a] by (fastforce simp: list_all_iff block_ok_def block_size_def)
  then have "list_all (\<lambda>m. block_size m \<le> block_size (0, 0, length a)) (tl (all_blocks a a))"
    using c by (metis block_size_def list.pred_inject(2) snd_conv)
  then have "foldl longer (0, 0, length a) (tl (all_blocks a a)) = (0, 0, length a)" by (rule foldl_longer_stays)
  moreover have "longer (0, 0, 0) (0, 0, length a) = (0, 0, length a)" using Cons by (simp add: longer_def block_size_def)
  ultimately show ?thesis unfolding longest_match_def by (subst c) simp
qed (simp add: longest_match_def all_blocks_def)

lemma all_blocks_Nil [simp]: "all_blocks [] b = []" "all_blocks a [] = []"
  by (auto simp: all_blocks_def)

lemma raw_blocks_Nil [simp]: "raw_blocks i j [] b = []" "raw_blocks i j a [] = []"
  by (subst raw_blocks.simps, simp add: longest_match_def)+

lemma opcodes_self:
  "opcodes a a = (if a = [] then [] else [\<lparr>op_equal = True, op_i1 = 0, op_i2 = length a, op_j1 = 0, op_j2 = length a\<rparr>])"
proof -
  have "raw_blocks 0 0 a a = (if a = [] then [] else [(0, 0, length a)])"
    by (subst raw_blocks.simps) (simp add: longest_match_self)
  then show ?thesis by (simp add: opcodes_def matching_blocks_def)
qed

subsection \<open>What a reader of opcodes relies on\<close>

locale alignment =
  fixes ops :: "'a list \<Rightarrow> 'a list \<Rightarrow> opcode list"
  assumes cover_left: "left_spans a (ops a b) = a"
    and cover_right: "right_spans b (ops a b) = b"
    and equal_spans: "p \<in> set (ops a b) \<Longrightarrow> op_equal p \<Longrightarrow> list_span (op_i1 p) (op_i2 p) a = list_span (op_j1 p) (op_j2 p) b"
    and inside: "p \<in> set (ops a b) \<Longrightarrow> op_i2 p \<le> length a \<and> op_j2 p \<le> length b"
    and unchanged: "p \<in> set (ops a a) \<Longrightarrow> op_equal p"
begin

lemma lists_equal:
  assumes "\<And>p. p \<in> set (ops a b) \<Longrightarrow> \<not> op_equal p \<Longrightarrow> list_span (op_i1 p) (op_i2 p) a = list_span (op_j1 p) (op_j2 p) b"
  shows "a = b"
proof -
  have "map (\<lambda>p. list_span (op_i1 p) (op_i2 p) a) (ops a b) = map (\<lambda>p. list_span (op_j1 p) (op_j2 p) b) (ops a b)"
    using assms equal_spans by (intro map_cong) auto
  then have "left_spans a (ops a b) = right_spans b (ops a b)" by (simp only: left_spans_def right_spans_def)
  then show ?thesis by (simp only: cover_left cover_right)
qed

lemma some_change: "a \<noteq> b \<Longrightarrow> \<exists>p \<in> set (ops a b). \<not> op_equal p"
  using lists_equal by blast

end

interpretation matcher: alignment opcodes
proof
  show "left_spans a (opcodes a b) = a" for a b :: "'a list"
    using opcodes_from_cover [OF matching_blocks_chained [of a b]] by (simp add: opcodes_def matching_blocks_def)
  show "right_spans b (opcodes a b) = b" for a b :: "'a list"
    using opcodes_from_cover [OF matching_blocks_chained [of a b]] by (simp add: opcodes_def matching_blocks_def)
  show "list_span (op_i1 p) (op_i2 p) a = list_span (op_j1 p) (op_j2 p) b" if "p \<in> set (opcodes a b)" "op_equal p" for a b :: "'a list" and p
    using opcodes_from_cover [OF matching_blocks_chained [of a b]] that
    by (auto simp: opcodes_def matching_blocks_def list_all_iff)
  show "op_i2 p \<le> length a \<and> op_j2 p \<le> length b" if "p \<in> set (opcodes a b)" for a b :: "'a list" and p
    using opcodes_from_cover [OF matching_blocks_chained [of a b]] that
    by (auto simp: opcodes_def matching_blocks_def list_all_iff)
  show "op_equal p" if "p \<in> set (opcodes a a)" for a :: "'a list" and p
    using that by (auto simp: opcodes_self split: if_splits)
qed

end
