(* ===== verification/Mutation_Paths.thy ===== *)
theory Mutation_Paths
  imports Mutation_Marks Sequence_Matcher
begin

section \<open>The one-mutation relation\<close>

text \<open>
  The second half of \<open>scripts/mutationdiff.py\<close>: the marks two statements agree on, the
  semantic pre-image in which agreed derived fields are tokens, and the paths at which two
  pre-images differ.  A statement is what \<open>json.loads\<close> returns, so the deep copy the code
  makes is the value itself and no part of it is shared.
\<close>

subsection \<open>The agreed marks\<close>

text \<open>Each key of either map is written once, so the order of the set of keys does not matter.\<close>

definition is_true :: "json \<Rightarrow> bool" where
  "is_true v \<longleftrightarrow> v = JBool True"

definition agreed_mark :: "dict \<Rightarrow> dict \<Rightarrow> ustr \<Rightarrow> json option" where
  "agreed_mark pm cm k =
     (let mine = dget pm k; theirs = dget cm k in
      if k = lit ''uniform-binding'' then
        (if is_str mine \<and> is_str theirs then Some (JBool True) else None)
      else if starts_with (lit ''signature/'') k then
        Some (if \<not> dmem pm k then theirs
              else if \<not> dmem cm k then mine
              else if mine \<noteq> JNull \<and> theirs \<noteq> JNull then (if py_eq mine theirs then mine else JNull)
              else JNull)
      else
        Some (JBool (if \<not> dmem pm k then is_true theirs
                     else if \<not> dmem cm k then is_true mine
                     else is_true mine \<and> is_true theirs)))"

definition agreed :: "dict \<Rightarrow> dict \<Rightarrow> dict" where
  "agreed pm cm =
     concat (map (\<lambda>k. case agreed_mark pm cm k of None \<Rightarrow> [] | Some v \<Rightarrow> [(k, v)])
       (remdups (map fst pm @ map fst cm)))"

subsection \<open>The semantic pre-image\<close>

text \<open>\<open>allow.get(key)\<close> as a condition.\<close>

definition allowed :: "dict \<Rightarrow> ustr \<Rightarrow> bool" where
  "allowed al k = truthy (dget al k)"

text \<open>\<open>obj["digest"]["sha256"] = DERIVED\<close>, when both are objects.\<close>

definition collapse_digest :: "json \<Rightarrow> json" where
  "collapse_digest v =
     (case v of
        JObj d \<Rightarrow>
          (case rget d ''digest'' of
             JObj dg \<Rightarrow> JObj (dset d (lit ''digest'') (JObj (dset dg (lit ''sha256'') (JStr derived_token))))
           | _ \<Rightarrow> v)
      | _ \<Rightarrow> v)"

text \<open>Rewriting a member in place leaves an absent one absent.\<close>

definition update_member :: "dict \<Rightarrow> ustr \<Rightarrow> (json \<Rightarrow> json) \<Rightarrow> dict" where
  "update_member d k f = (case map_of d k of None \<Rightarrow> d | Some v \<Rightarrow> dset d k (f v))"

definition collapse_environment :: "dict \<Rightarrow> json \<Rightarrow> json" where
  "collapse_environment al env =
     (case env of
        JObj e \<Rightarrow>
          (let e1 = (if allowed al (lit ''corpus-digest'') then update_member e (lit ''corpus'') collapse_digest else e);
               e2 = (if allowed al (lit ''vocabulary-digest'')
                     then update_member e1 (lit ''observationVocabulary'') collapse_digest else e1)
           in JObj e2)
      | _ \<Rightarrow> env)"

definition collapse_member :: "dict \<Rightarrow> nat \<Rightarrow> string \<times> string \<Rightarrow> dict \<Rightarrow> dict" where
  "collapse_member al i km p =
     (if dmem p (lit (fst km)) \<and> allowed al (mark_key (snd km) i)
      then dset p (lit (fst km)) (JStr derived_token) else p)"

definition derived_members :: "(string \<times> string) list" where
  "derived_members =
     [(''aeeRunBinding'', ''binding''), (''aeeObservedSet'', ''observed-set''), (''aeePostureDigest'', ''posture-digest'')]"

definition collapse_payload :: "dict \<Rightarrow> bool \<Rightarrow> nat \<Rightarrow> dict \<Rightarrow> dict" where
  "collapse_payload al hoisted i p =
     fold (collapse_member al i) derived_members
       (if hoisted \<and> dmem p (lit ''aeeRunBinding'') then dset p (lit ''aeeRunBinding'') (JStr carried_binding) else p)"

text \<open>A payload that is not canonical is named by the digest of its text.\<close>

definition opaque_payload :: "(bytes \<Rightarrow> bytes) \<Rightarrow> json \<Rightarrow> ustr res" where
  "opaque_payload H v =
     rbind (case v of JStr s \<Rightarrow> utf8_encode s | _ \<Rightarrow> Inr []) (\<lambda>b.
       Inr (lit ''<'' @ undecodable @ lit '', sha256 '' @ sha256_hex H b @ lit ''>''))"

definition project_record ::
  "runtime \<Rightarrow> (ustr \<times> bytes) list \<Rightarrow> dict \<Rightarrow> bool \<Rightarrow> nat \<times> json \<Rightarrow> json res" where
  "project_record R keys al hoisted ir =
     (case ir of (i, r) \<Rightarrow>
        (case r of
           JObj d \<Rightarrow>
             rbind (if dget al (mark_key ''signature'' i) = JNull then Inr None else signature_descriptor R keys d) (\<lambda>desc.
             let d1 = (case desc of None \<Rightarrow> d | Some _ \<Rightarrow> dset d (lit ''signatures'') (dget al (mark_key ''signature'' i))) in
             case canonical_payload d1 of
               None \<Rightarrow> rbind (opaque_payload (rt_sha R) (rget d1 ''payload'')) (\<lambda>t. Inr (JObj (dset d1 (lit ''payload'') (JStr t))))
             | Some p \<Rightarrow> Inr (JObj (dset d1 (lit ''payload'') (JObj (collapse_payload al hoisted i p)))))
         | _ \<Rightarrow> Inr r))"

definition collapse_records ::
  "runtime \<Rightarrow> (ustr \<times> bytes) list \<Rightarrow> dict \<Rightarrow> dict \<Rightarrow> json list \<Rightarrow> dict res" where
  "collapse_records R keys al p rs =
     (let p1 = (case carried_bindings R rs of
                  [b] \<Rightarrow> if allowed al (lit ''uniform-binding'')
                         then dset p carried_binding
                           (JStr (if allowed al (lit ''uniform-binding-derived'') then derived_token else b))
                         else p
                | _ \<Rightarrow> p);
          p2 = (if allowed al (lit ''batch-root'') then dset p1 (lit ''batchRoot'') (JStr derived_token) else p1)
      in rbind (rmap (project_record R keys al (dmem p2 carried_binding)) (enumerate 0 rs)) (\<lambda>rs'.
           Inr (dset p2 (lit ''observationRecords'') (JArr rs'))))"

definition collapse_predicate :: "runtime \<Rightarrow> (ustr \<times> bytes) list \<Rightarrow> dict \<Rightarrow> dict \<Rightarrow> dict res" where
  "collapse_predicate R keys al p =
     (let p1 = (if allowed al (lit ''result'') then dset p (lit ''result'') (JStr derived_token) else p);
          p2 = update_member p1 (lit ''observationEnvironment'') (collapse_environment al)
      in case rget p ''observationRecords'' of
           JArr rs \<Rightarrow> if rs = [] then Inr p2 else collapse_records R keys al p2 rs
         | _ \<Rightarrow> Inr p2)"

definition semantic_preimage :: "runtime \<Rightarrow> (ustr \<times> bytes) list \<Rightarrow> dict \<Rightarrow> json \<Rightarrow> json res" where
  "semantic_preimage R keys al stmt =
     (case stmt of
        JObj s \<Rightarrow>
          (case rget s ''predicate'' of
             JObj p \<Rightarrow> rbind (collapse_predicate R keys al p) (\<lambda>p'. Inr (JObj (dset s (lit ''predicate'') (JObj p'))))
           | _ \<Rightarrow> Inr stmt)
      | _ \<Rightarrow> Inr stmt)"

subsection \<open>The walk\<close>

text \<open>
  \<open>_canonical\<close>: the only \<open>ValueError\<close> of the writer is an integer over the digit limit, and
  the \<open>repr\<close> the handler falls back on raises it again.
\<close>

definition canonical :: "json \<Rightarrow> ustr res" where
  "canonical v = dumps True v"

definition member_path :: "ustr \<Rightarrow> ustr \<Rightarrow> ustr" where
  "member_path path k = (if path = [] then k else path @ 0x2E # k)"

definition index_path :: "ustr \<Rightarrow> nat \<Rightarrow> ustr" where
  "index_path path i = path @ 0x5B # dec_digits i @ [0x5D]"

fun same_type :: "json \<Rightarrow> json \<Rightarrow> bool" where
  "same_type JNull JNull = True"
| "same_type (JBool _) (JBool _) = True"
| "same_type (JInt _) (JInt _) = True"
| "same_type (JFloat _) (JFloat _) = True"
| "same_type (JStr _) (JStr _) = True"
| "same_type (JArr _) (JArr _) = True"
| "same_type (JObj _) (JObj _) = True"
| "same_type _ _ = False"

text \<open>The members gone and the members new, in key order.\<close>

definition keys_not_in :: "dict \<Rightarrow> dict \<Rightarrow> ustr list" where
  "keys_not_in d e = filter (\<lambda>k. \<not> dmem e k) (sort (map fst d))"

definition member_changes :: "ustr \<Rightarrow> dict \<Rightarrow> dict \<Rightarrow> ustr list res" where
  "member_changes path b a =
     (case (keys_not_in b a, keys_not_in a b) of
        ([k], [l]) \<Rightarrow>
          rbind (canonical (dget b k)) (\<lambda>x. rbind (canonical (dget a l)) (\<lambda>y.
            Inr (if x = y then [member_path path (k @ lit '' -> '' @ l)] else [member_path path k, member_path path l])))
      | (ks, ls) \<Rightarrow> Inr (map (member_path path) (ks @ ls)))"

text \<open>The members both carry, in key order, with both values.\<close>

definition common_members :: "dict \<Rightarrow> dict \<Rightarrow> (ustr \<times> json \<times> json) list" where
  "common_members b a = map (\<lambda>(k, v). (k, v, dget a k)) (filter (\<lambda>(k, v). dmem a k) (sorted_items b))"

text \<open>The elements of two spans paired off, and the paths of the surplus.\<close>

definition paired :: "json list \<Rightarrow> json list \<Rightarrow> opcode \<Rightarrow> (nat \<times> json \<times> json) list" where
  "paired b a p = zip [op_j1 p..<op_j2 p] (zip (list_span (op_i1 p) (op_i2 p) b) (list_span (op_j1 p) (op_j2 p) a))"

definition surplus :: "ustr \<Rightarrow> opcode \<Rightarrow> ustr list" where
  "surplus path p =
     (let n = min (op_i2 p - op_i1 p) (op_j2 p - op_j1 p) in
      map (index_path path) [op_i1 p + n..<op_i2 p] @ map (index_path path) [op_j1 p + n..<op_j2 p])"

definition reordered :: "json list \<Rightarrow> json list \<Rightarrow> ustr list \<Rightarrow> ustr list \<Rightarrow> bool" where
  "reordered b a cb ca \<longleftrightarrow> length b = length a \<and> \<not> py_eq (JArr b) (JArr a) \<and> sort cb = sort ca"

lemma size_member: "(k, v) \<in> set d \<Longrightarrow> size v < size (JObj d)"
  by (induction d) auto

lemma size_element: "v \<in> set xs \<Longrightarrow> size v < size (JArr xs)"
  by (induction xs) auto

lemma common_members_left: "(k, v, w) \<in> set (common_members b a) \<Longrightarrow> (k, v) \<in> set b"
  by (auto simp: common_members_def)

lemma paired_left: "(j, v, w) \<in> set (paired b a p) \<Longrightarrow> v \<in> set b"
  unfolding paired_def using set_span [of "op_i1 p" "op_i2 p" b] by (meson in_mono set_zip_leftD set_zip_rightD)

function walk :: "json \<Rightarrow> json \<Rightarrow> ustr \<Rightarrow> ustr list res" where
  "walk prior later path =
     (case (prior, later) of
        (JObj b, JObj a) \<Rightarrow>
          rbind (member_changes path b a) (\<lambda>changes.
          rbind (rmap (\<lambda>(k, v, w). walk v w (member_path path k)) (common_members b a)) (\<lambda>inner.
            Inr (changes @ concat inner)))
      | (JArr b, JArr a) \<Rightarrow>
          rbind (rmap canonical b) (\<lambda>cb. rbind (rmap canonical a) (\<lambda>ca.
            if reordered b a cb ca then Inr [path @ lit '' (reordered)'']
            else rbind (rmap (\<lambda>p.
                     rbind (rmap (\<lambda>(j, v, w). walk v w (index_path path j)) (paired b a p)) (\<lambda>inner.
                       Inr (concat inner @ surplus path p)))
                   (filter (\<lambda>p. \<not> op_equal p) (opcodes cb ca))) (\<lambda>outer. Inr (concat outer))))
      | _ \<Rightarrow>
          Inr (if \<not> py_eq prior later \<or> \<not> same_type prior later
               then [if path = [] then lit ''<the whole statement>'' else path] else []))"
  by pat_completeness auto
termination
  by (relation "measure (\<lambda>(prior, later, path). size prior)")
    (auto dest!: common_members_left paired_left dest: size_member size_element simp del: json.size)

declare walk.simps [simp del]

subsection \<open>The serialization leaf and the paths\<close>

definition serialization_key :: ustr where
  "serialization_key = lit ''<serialized-bytes>''"

definition as_emitted :: ustr where
  "as_emitted = lit ''the canonical serialization of the parsed statement''"

definition serialization_leaf :: "(bytes \<Rightarrow> bytes) \<Rightarrow> bytes option \<Rightarrow> json \<Rightarrow> ustr" where
  "serialization_leaf H raw_bytes parsed =
     (case raw_bytes of
        None \<Rightarrow> as_emitted
      | Some b \<Rightarrow>
          (case rbind (dumps_indented 0 parsed) (\<lambda>t. utf8_encode (t @ [0x0A])) of
             Inl _ \<Rightarrow> lit ''unserializable, sha256 '' @ sha256_hex H b
           | Inr emitted \<Rightarrow> if b = emitted then as_emitted else lit ''hand-written, sha256 '' @ sha256_hex H b))"

definition with_leaf :: "ustr \<Rightarrow> json \<Rightarrow> json" where
  "with_leaf leaf v = (case v of JObj d \<Rightarrow> JObj (dset d serialization_key (JStr leaf)) | _ \<Rightarrow> v)"

definition mutation_paths ::
  "runtime \<Rightarrow> (ustr \<times> bytes) list \<Rightarrow> json \<Rightarrow> json \<Rightarrow> bytes option \<Rightarrow> bytes option \<Rightarrow> ustr list res" where
  "mutation_paths R keys parent child parent_bytes child_bytes =
     rbind (derived_marks R keys parent) (\<lambda>pm.
     rbind (derived_marks R keys child) (\<lambda>cm.
     rbind (semantic_preimage R keys (agreed pm cm) parent) (\<lambda>prior.
     rbind (semantic_preimage R keys (agreed pm cm) child) (\<lambda>later.
       if is_obj prior \<and> is_obj later
       then walk (with_leaf (serialization_leaf (rt_sha R) parent_bytes parent) prior)
                 (with_leaf (serialization_leaf (rt_sha R) child_bytes child) later) []
       else walk prior later []))))"

end
