(* ===== verification/Mutation_Walk.thy ===== *)
theory Mutation_Walk
  imports Mutation_Paths
begin

section \<open>What an empty walk means\<close>

text \<open>
  Two facts about \<open>walk\<close>.  If it reports no path, the two values have the same canonical
  text (\<open>walk_sound\<close>); and it reports none for two values that differ in the order of members
  only, provided no member holds a NaN, which equals nothing (\<open>walk_complete\<close>).
\<close>

subsection \<open>Canonical text and member order\<close>

lemma sorted_items_keys:
  assumes "distinct (map fst d)"
  shows "sorted_items d = map (\<lambda>k. (k, dget d k)) (sort (map fst d))"
proof -
  have "sorted_items d = map (\<lambda>m. (fst m, dget d (fst m))) (sorted_items d)"
    using assms by (intro map_idI [symmetric]) (auto simp: dget_def)
  also have "\<dots> = map (\<lambda>k. (k, dget d k)) (map fst (sorted_items d))" by simp
  also have "map fst (sorted_items d) = sort (map fst d)"
    by (simp add: sorted_items_def sort_key_map_pair)
  finally show ?thesis .
qed

lemma dumps_members:
  assumes "distinct (map fst b)" "distinct (map fst a)" "fst ` set b = fst ` set a"
    and "\<And>k. k \<in> fst ` set b \<Longrightarrow> dumps ascii (dget b k) = dumps ascii (dget a k)"
  shows "dumps ascii (JObj b) = dumps ascii (JObj a)"
proof -
  have s: "sort (map fst b) = sort (map fst a)"
    using assms(1-3) by (intro sorted_distinct_set_unique) auto
  have "rmap (\<lambda>m. rbind (dumps ascii (snd m)) (\<lambda>t. Inr (dumps_string ascii (fst m) @ 0x3A # t))) (sorted_items b) =
      rmap (\<lambda>m. rbind (dumps ascii (snd m)) (\<lambda>t. Inr (dumps_string ascii (fst m) @ 0x3A # t))) (sorted_items a)"
    unfolding sorted_items_keys [OF assms(1)] sorted_items_keys [OF assms(2)] s [symmetric] rmap_map
    using assms(4) by (intro rmap_cong) auto
  then show ?thesis by simp
qed

lemma rmap_dumps: "list_all2 (\<lambda>v w. f v = f w) vs ws \<Longrightarrow> rmap f vs = rmap f ws"
  by (induction rule: list_all2_induct) auto

lemma map_of_dget: "distinct (map fst d) \<Longrightarrow> (k, v) \<in> set d \<Longrightarrow> dget d k = v"
  by (simp add: dget_def)

lemma dmem_keys: "dmem d k \<longleftrightarrow> k \<in> fst ` set d"
  by (simp add: dmem_def)

text \<open>Equal up to member order: the same keys, and under each key values equal in turn.\<close>

lemma canon_members:
  assumes "canon (JObj b) = canon (JObj a)" "distinct (map fst b)" "distinct (map fst a)"
  shows "fst ` set b = fst ` set a" and "length b = length a"
    and "k \<in> fst ` set b \<Longrightarrow> canon (dget b k) = canon (dget a k)"
proof -
  let ?f = "\<lambda>m. (fst m, canon (snd m))"
  have e: "sort_members (map ?f b) = sort_members (map ?f a)" using assms(1) by simp
  then have s: "?f ` set b = ?f ` set a" by (metis list.set_map set_sort_members)
  have "fst ` ?f ` set b = fst ` ?f ` set a" by (simp only: s)
  then show "fst ` set b = fst ` set a" by (simp only: image_image fst_conv)
  have "length (sort_members (map ?f b)) = length (sort_members (map ?f a))" by (simp only: e)
  then show "length b = length a" by (simp add: sort_members_def)
  assume "k \<in> fst ` set b"
  then obtain v where v: "(k, v) \<in> set b" by auto
  then have "?f (k, v) \<in> ?f ` set a" using s by blast
  then obtain w where "(k, w) \<in> set a" "canon v = canon w" by auto
  with v show "canon (dget b k) = canon (dget a k)" by (simp add: map_of_dget assms(2,3))
qed

lemma dget_size: "k \<in> fst ` set d \<Longrightarrow> distinct (map fst d) \<Longrightarrow> size (dget d k) < size (JObj d)"
  using size_member [of k "dget d k" d] by (force simp: map_of_dget)

lemma dget_no_dup: "\<not> has_dup (JObj d) \<Longrightarrow> k \<in> fst ` set d \<Longrightarrow> \<not> has_dup (dget d k)"
  by (force simp: map_of_dget list_ex_iff)

text \<open>Induction over two values that are equal up to member order.\<close>

lemma canon_induct [consumes 3, case_names obj arr scalar]:
  assumes "canon v = canon w" "\<not> has_dup v" "\<not> has_dup w"
    and obj: "\<And>b a. distinct (map fst b) \<Longrightarrow> distinct (map fst a) \<Longrightarrow> fst ` set b = fst ` set a \<Longrightarrow> length b = length a \<Longrightarrow>
      (\<And>k. k \<in> fst ` set b \<Longrightarrow> P (dget b k) (dget a k)) \<Longrightarrow> P (JObj b) (JObj a)"
    and arr: "\<And>xs ys. canon (JArr xs) = canon (JArr ys) \<Longrightarrow> \<not> has_dup (JArr xs) \<Longrightarrow> \<not> has_dup (JArr ys) \<Longrightarrow>
      list_all2 P xs ys \<Longrightarrow> P (JArr xs) (JArr ys)"
    and scalar: "\<And>x. \<not> is_obj x \<Longrightarrow> \<not> is_arr x \<Longrightarrow> P x x"
  shows "P v w"
  using assms(1-3)
proof (induction "size v" arbitrary: v w rule: less_induct)
  case less
  consider b a where "v = JObj b" "w = JObj a" | xs ys where "v = JArr xs" "w = JArr ys"
    | "v = w" "\<not> is_obj v" "\<not> is_arr v"
    using less.prems(1) by (cases v; cases w) auto
  then show ?case
  proof cases
    case 1
    then have d: "distinct (map fst b)" "distinct (map fst a)" using less.prems by auto
    note m = canon_members [OF less.prems(1) [unfolded 1] d]
    show ?thesis unfolding 1
    proof (rule obj [OF d m(1,2)])
      fix k assume k: "k \<in> fst ` set b"
      show "P (dget b k) (dget a k)"
        using less.hyps [of "dget b k" "dget a k"] k m(1) m(3) [OF k] less.prems(2,3) dget_size [OF k d(1)]
          dget_no_dup [of b k] dget_no_dup [of a k] unfolding 1 by blast
    qed
  next
    case 2
    then have "map canon xs = map canon ys" using less.prems(1) by simp
    then have c: "list_all2 (\<lambda>x y. canon x = canon y) xs ys" by (simp add: list_all2_map1 list_all2_map2 flip: list.rel_eq)
    have "list_all2 P xs ys"
    proof (rule list_all2_all_nthI)
      show "length xs = length ys" using c by (rule list_all2_lengthD)
      fix n assume n: "n < length xs"
      then have "xs ! n \<in> set xs" "ys ! n \<in> set ys" using c by (auto dest: list_all2_lengthD)
      moreover have "canon (xs ! n) = canon (ys ! n)" using c n by (rule list_all2_nthD)
      ultimately show "P (xs ! n) (ys ! n)"
        using less.hyps [of "xs ! n" "ys ! n"] size_element [of "xs ! n" xs] less.prems(2,3) 2 by (auto simp: list_ex_iff)
    qed
    then show ?thesis unfolding 2 by (rule arr [OF less.prems [unfolded 2]])
  qed (simp add: scalar)
qed

lemma canon_dumps:
  assumes "canon v = canon w" "\<not> has_dup v" "\<not> has_dup w"
  shows "dumps ascii v = dumps ascii w"
  using assms
proof (induction rule: canon_induct)
  case (obj b a)
  then show ?case by (intro dumps_members)
next
  case (arr xs ys)
  from arr(4) have "rmap (dumps ascii) xs = rmap (dumps ascii) ys" by (rule rmap_dumps)
  then show ?case by simp
qed simp

subsection \<open>Python equality of equal values\<close>

lemma py_eqs_iff: "py_eqs xs ys \<longleftrightarrow> list_all2 py_same xs ys"
  by (induction xs arbitrary: ys) (auto simp: py_same_def list_all2_Cons1 split: list.splits)

lemma py_eqm_iff: "py_eqm d e \<longleftrightarrow> (\<forall>m \<in> set d. \<exists>w. map_of e (fst m) = Some w \<and> py_same (snd m) w)"
  by (induction d) (auto simp: py_same_def split: option.splits)

lemma py_same_scalar: "\<not> is_obj v \<Longrightarrow> \<not> is_arr v \<Longrightarrow> py_same v v"
  by (cases v) (auto simp: py_same_def both_nan_def)

lemma canon_py_same:
  assumes "canon v = canon w" "\<not> has_dup v" "\<not> has_dup w"
  shows "py_same v w"
  using assms
proof (induction rule: canon_induct)
  case (obj b a)
  have "\<exists>u. map_of a (fst x) = Some u \<and> py_same (snd x) u" if x: "x \<in> set b" for x
  proof -
    obtain k y where p: "x = (k, y)" by (cases x)
    then have k: "k \<in> fst ` set b" using x by force
    then have "map_of a k = Some (dget a k)" using obj(3)
      by (auto simp: dget_def map_of_eq_None_iff split: option.splits)
    moreover have "dget b k = y" using x p obj(1) by (simp add: map_of_dget)
    ultimately show ?thesis using obj(5) [OF k] p by simp
  qed
  with obj(4) show ?case by (simp add: py_same_def py_eqm_iff)
next
  case (arr xs ys)
  from arr(4) show ?case unfolding py_same_def [of "JArr xs"] by (simp add: py_eqs_iff)
qed (simp add: py_same_scalar)

subsection \<open>The walk, by the types of its arguments\<close>

lemma walk_obj:
  "walk (JObj b) (JObj a) path =
     rbind (member_changes path b a) (\<lambda>changes.
     rbind (rmap (\<lambda>(k, v, w). walk v w (member_path path k)) (common_members b a)) (\<lambda>inner.
       Inr (changes @ concat inner)))"
  by (subst walk.simps) simp

lemma walk_arr:
  "walk (JArr b) (JArr a) path =
     rbind (rmap canonical b) (\<lambda>cb. rbind (rmap canonical a) (\<lambda>ca.
       if reordered b a cb ca then Inr [path @ lit '' (reordered)'']
       else rbind (rmap (\<lambda>p.
                rbind (rmap (\<lambda>(j, v, w). walk v w (index_path path j)) (paired b a p)) (\<lambda>inner.
                  Inr (concat inner @ surplus path p)))
              (filter (\<lambda>p. \<not> op_equal p) (opcodes cb ca))) (\<lambda>outer. Inr (concat outer))))"
  by (subst walk.simps) simp

lemma walk_other:
  assumes "\<not> (is_obj v \<and> is_obj w)" "\<not> (is_arr v \<and> is_arr w)"
  shows "walk v w path =
    Inr (if \<not> py_eq v w \<or> \<not> same_type v w then [if path = [] then lit ''<the whole statement>'' else path] else [])"
  using assms by (subst walk.simps) (cases v; cases w; simp)

lemma rmap_nothing: "rmap f xs = Inr ys \<Longrightarrow> concat ys = [] \<Longrightarrow> x \<in> set xs \<Longrightarrow> f x = Inr []"
  by (induction xs arbitrary: ys) (auto elim!: rbind_InrE)

lemma rmap_all_nothing: "(\<And>x. x \<in> set xs \<Longrightarrow> f x = Inr []) \<Longrightarrow> rmap f xs = Inr (replicate (length xs) [])"
  by (induction xs) auto

lemma concat_nothing [simp]: "concat (replicate n []) = []"
  by (induction n) auto

subsection \<open>Soundness\<close>

lemma no_changes: "member_changes path b a = Inr [] \<Longrightarrow> fst ` set b = fst ` set a"
proof -
  assume "member_changes path b a = Inr []"
  then have "keys_not_in b a = []" "keys_not_in a b = []"
    unfolding member_changes_def by (auto split: list.splits if_splits elim!: rbind_InrE)
  then show ?thesis by (auto simp: keys_not_in_def filter_empty_conv dmem_keys image_iff)
qed

lemma common_member:
  "distinct (map fst b) \<Longrightarrow> k \<in> fst ` set b \<Longrightarrow> k \<in> fst ` set a \<Longrightarrow> (k, dget b k, dget a k) \<in> set (common_members b a)"
  by (force simp: common_members_def dmem_keys map_of_dget)

lemma no_surplus: "surplus path p = [] \<Longrightarrow> op_i2 p - op_i1 p = op_j2 p - op_j1 p"
  by (auto simp: surplus_def Let_def)

lemma same_texts:
  "list_all2 (\<lambda>v c. f v = Inr c) vs cs \<Longrightarrow> list_all2 (\<lambda>w c. f w = Inr c) ws ds \<Longrightarrow>
   list_all2 (\<lambda>v w. f v = f w) vs ws \<Longrightarrow> cs = ds"
proof (induction vs cs arbitrary: ws ds rule: list_all2_induct)
  case (Cons v vs c cs)
  then show ?case by (auto simp: list_all2_Cons1)
qed auto

lemma span_texts:
  assumes "rmap f vs = Inr cs"
  shows "list_all2 (\<lambda>v c. f v = Inr c) (list_span i j vs) (list_span i j cs)"
  using assms unfolding list_span_def rmap_eq_Inr by (intro list_all2_takeI list_all2_dropI)

lemma paired_all:
  assumes "op_i2 p \<le> length b" "op_j2 p \<le> length a" "op_i2 p - op_i1 p = op_j2 p - op_j1 p"
    and "\<And>j v w. (j, v, w) \<in> set (paired b a p) \<Longrightarrow> P v w"
  shows "list_all2 P (list_span (op_i1 p) (op_i2 p) b) (list_span (op_j1 p) (op_j2 p) a)"
proof (rule list_all2_all_nthI)
  let ?x = "list_span (op_i1 p) (op_i2 p) b" and ?y = "list_span (op_j1 p) (op_j2 p) a"
  have l: "length ?x = op_j2 p - op_j1 p" "length ?y = op_j2 p - op_j1 p"
    using assms(1-3) by (simp_all add: length_span)
  then show "length ?x = length ?y" by simp
  fix n assume "n < length ?x"
  then have "(op_j1 p + n, ?x ! n, ?y ! n) \<in> set (paired b a p)"
    using l unfolding paired_def by (auto simp: set_zip intro!: exI [of _ n])
  then show "P (?x ! n) (?y ! n)" by (rule assms(4))
qed

lemma walk_arr_sound:
  assumes "walk (JArr b) (JArr a) path = Inr []"
    and IH: "\<And>v w p. v \<in> set b \<Longrightarrow> w \<in> set a \<Longrightarrow> walk v w p = Inr [] \<Longrightarrow> canonical v = canonical w"
  shows "canonical (JArr b) = canonical (JArr a)"
proof -
  from assms(1) obtain cb ca outer where c: "rmap canonical b = Inr cb" "rmap canonical a = Inr ca"
    and o: "rmap (\<lambda>p. rbind (rmap (\<lambda>(j, v, w). walk v w (index_path path j)) (paired b a p)) (\<lambda>inner.
        Inr (concat inner @ surplus path p))) (filter (\<lambda>p. \<not> op_equal p) (opcodes cb ca)) = Inr outer" "concat outer = []"
    unfolding walk_arr by (auto elim!: rbind_InrE split: if_splits)
  have l: "length cb = length b" "length ca = length a" using c by (auto simp: rmap_eq_Inr dest: list_all2_lengthD)
  have "cb = ca"
  proof (rule matcher.lists_equal)
    fix p assume p: "p \<in> set (opcodes cb ca)" "\<not> op_equal p"
    from rmap_nothing [OF o, of p] p obtain inner
      where i: "rmap (\<lambda>(j, v, w). walk v w (index_path path j)) (paired b a p) = Inr inner" "concat inner = []"
        and s: "surplus path p = []"
      by (auto elim!: rbind_InrE)
    have inside: "op_i2 p \<le> length b" "op_j2 p \<le> length a" using matcher.inside [OF p(1)] l by auto
    have "list_all2 (\<lambda>v w. canonical v = canonical w) (list_span (op_i1 p) (op_i2 p) b) (list_span (op_j1 p) (op_j2 p) a)"
    proof (rule paired_all [OF inside no_surplus [OF s]])
      fix j v w assume m: "(j, v, w) \<in> set (paired b a p)"
      then have "v \<in> set b" by (rule paired_left)
      moreover have "w \<in> set a" using m set_span [of "op_j1 p" "op_j2 p" a] unfolding paired_def
        by (meson in_mono set_zip_rightD)
      moreover have "walk v w (index_path path j) = Inr []" using rmap_nothing [OF i m] by simp
      ultimately show "canonical v = canonical w" by (rule IH)
    qed
    then show "list_span (op_i1 p) (op_i2 p) cb = list_span (op_j1 p) (op_j2 p) ca"
      by (rule same_texts [OF span_texts [OF c(1)] span_texts [OF c(2)]])
  qed
  with c show ?thesis by (simp add: canonical_def [abs_def])
qed

theorem walk_sound:
  assumes "walk v w path = Inr []" "\<not> has_dup v" "\<not> has_dup w"
  shows "canonical v = canonical w"
  using assms
proof (induction "size v" arbitrary: v w path rule: less_induct)
  case less
  consider b a where "v = JObj b" "w = JObj a" | b a where "v = JArr b" "w = JArr a"
    | "\<not> (is_obj v \<and> is_obj w)" "\<not> (is_arr v \<and> is_arr w)"
    by (auto simp: is_obj_iff is_arr_iff)
  then show ?case
  proof cases
    case 1
    then have d: "distinct (map fst b)" "distinct (map fst a)" using less.prems by auto
    from less.prems(1) obtain inner where c: "member_changes path b a = Inr []"
      and i: "rmap (\<lambda>(k, v, w). walk v w (member_path path k)) (common_members b a) = Inr inner" "concat inner = []"
      unfolding 1 walk_obj by (auto elim!: rbind_InrE)
    note keys = no_changes [OF c]
    show ?thesis unfolding 1 canonical_def
    proof (rule dumps_members [OF d keys])
      fix k assume k: "k \<in> fst ` set b"
      have "walk (dget b k) (dget a k) (member_path path k) = Inr []"
        using rmap_nothing [OF i common_member [OF d(1) k]] k keys by simp
      then show "dumps True (dget b k) = dumps True (dget a k)"
        using less.hyps [of "dget b k" "dget a k"] k keys less.prems(2,3) dget_size [OF k d(1)]
          dget_no_dup [of b k] dget_no_dup [of a k] unfolding 1 canonical_def by blast
    qed
  next
    case 2
    show ?thesis unfolding 2
    proof (rule walk_arr_sound [OF less.prems(1) [unfolded 2]])
      fix x y p assume "x \<in> set b" "y \<in> set a" "walk x y p = Inr []"
      then show "canonical x = canonical y"
        using less.hyps [of x y p] size_element [of x b] less.prems(2,3) unfolding 2 by (auto simp: list_ex_iff)
    qed
  next
    case 3
    then have "py_eq v w \<and> same_type v w" using less.prems(1) by (simp add: walk_other split: if_splits)
    with 3 have "v = w" by (cases v; cases w) (auto split: if_splits)
    then show ?thesis by simp
  qed
qed

subsection \<open>Completeness\<close>

text \<open>No member holds a NaN; inside an array one NaN is the same object as another.\<close>

fun nan_free :: "json \<Rightarrow> bool" where
  "nan_free (JFloat f) = (f \<noteq> NaN)"
| "nan_free (JObj d) = list_all (\<lambda>m. nan_free (snd m)) d"
| "nan_free v = True"

text \<open>The canonical text of a value exists when none of its integers is over the digit limit.\<close>

definition writable :: "json \<Rightarrow> bool" where
  "writable v \<longleftrightarrow> (\<exists>t. canonical v = Inr t)"

lemma rmap_defined: "rmap f xs = Inr ys \<Longrightarrow> x \<in> set xs \<Longrightarrow> \<exists>y. f x = Inr y"
  by (induction xs arbitrary: ys) (auto elim!: rbind_InrE)

lemma writable_member:
  assumes "writable (JObj d)" "distinct (map fst d)" "k \<in> fst ` set d"
  shows "writable (dget d k)"
proof -
  from assms(1) obtain t where "canonical (JObj d) = Inr t" by (auto simp: writable_def)
  then obtain ts where ts: "rmap (\<lambda>m. rbind (dumps True (snd m)) (\<lambda>t. Inr (dumps_string True (fst m) @ 0x3A # t)))
      (sorted_items d) = Inr ts"
    by (auto simp: canonical_def elim: rbind_InrE)
  have "(k, dget d k) \<in> set (sorted_items d)" using assms(2,3) by (auto simp: map_of_dget)
  from rmap_defined [OF ts this] show ?thesis unfolding writable_def canonical_def by (auto elim!: rbind_InrE)
qed

lemma writable_elements: "writable (JArr xs) \<longleftrightarrow> (\<exists>cs. rmap canonical xs = Inr cs)"
  by (auto simp: writable_def canonical_def [abs_def] rbind_eq_Inr)

lemma canon_elements: "canon (JArr xs) = canon (JArr ys) \<Longrightarrow> \<not> has_dup (JArr xs) \<Longrightarrow> \<not> has_dup (JArr ys) \<Longrightarrow>
  rmap canonical xs = rmap canonical ys"
proof (rule rmap_dumps)
  assume a: "canon (JArr xs) = canon (JArr ys)" "\<not> has_dup (JArr xs)" "\<not> has_dup (JArr ys)"
  then have "list_all2 (\<lambda>x y. canon x = canon y) xs ys"
    by (simp add: list_all2_map1 list_all2_map2 flip: list.rel_eq)
  then show "list_all2 (\<lambda>x y. canonical x = canonical y) xs ys"
    using a(2,3) by (auto simp: list_all2_conv_all_nth canonical_def list_ex_length intro: canon_dumps)
qed

lemma no_member_changes:
  assumes "fst ` set b = fst ` set a"
  shows "member_changes path b a = Inr []"
proof -
  have "keys_not_in b a = []" "keys_not_in a b = []"
    using assms by (auto simp: keys_not_in_def filter_empty_conv dmem_keys)
  then show ?thesis by (simp add: member_changes_def)
qed

theorem walk_complete:
  assumes "canon v = canon w" "\<not> has_dup v" "\<not> has_dup w" "nan_free v" "writable v"
  shows "walk v w path = Inr []"
  using assms
proof (induction arbitrary: path rule: canon_induct)
  case (obj b a)
  have "walk (fst (snd m)) (snd (snd m)) p = Inr []" if "m \<in> set (common_members b a)" for m :: "ustr \<times> json \<times> json" and p
  proof -
    obtain k v u where m: "m = (k, v, u)" by (metis prod_cases3)
    with that have k: "(k, v) \<in> set b" "u = dget a k" by (auto simp: common_members_def)
    then have "k \<in> fst ` set b" "v = dget b k" using obj(1) by (force simp: map_of_dget)+
    moreover have "nan_free v" using k(1) obj.prems(1) by (auto simp: list_all_iff)
    ultimately show ?thesis using obj(5) writable_member [OF obj.prems(2) obj(1)] m k(2) by simp
  qed
  then have "rmap (\<lambda>(k, v, w). walk v w (member_path path k)) (common_members b a) =
      Inr (replicate (length (common_members b a)) [])"
    by (intro rmap_all_nothing) (auto split: prod.splits)
  then show ?case by (simp add: walk_obj no_member_changes [OF obj(3)])
next
  case (arr xs ys)
  from arr.prems(2) obtain cs where c: "rmap canonical xs = Inr cs" by (auto simp: writable_elements)
  then have "rmap canonical ys = Inr cs" using canon_elements [OF arr(1-3)] by simp
  moreover have "py_eq (JArr xs) (JArr ys)"
    using canon_py_same [OF arr(1-3)] by (simp add: py_same_def both_nan_def)
  moreover have "filter (\<lambda>p. \<not> op_equal p) (opcodes cs cs) = []"
    using matcher.unchanged [of _ cs] by (auto simp: filter_empty_conv)
  ultimately show ?case using c by (simp add: walk_arr reordered_def)
next
  case (scalar x)
  then have "py_eq x x \<and> same_type x x" by (cases x) auto
  with scalar show ?case by (simp add: walk_other)
qed

text \<open>A NaN that both sides carry under one member is reported as a difference.\<close>

lemma nan_member_reported: "walk (JObj [(lit ''x'', JFloat NaN)]) (JObj [(lit ''x'', JFloat NaN)]) [] = Inr [lit ''x'']"
  by (simp add: walk_obj member_changes_def keys_not_in_def common_members_def sorted_items_def walk_other member_path_def)

end
