(* ===== verification/Mutation_Laws.thy ===== *)
theory Mutation_Laws
  imports Mutation_Walk Verdict_Properties
begin

section \<open>The derivations of the relation and those of the verifier\<close>

text \<open>
  \<open>scripts/mutationdiff.py\<close> restates the writer, the Merkle root, the result and the run
  binding that \<open>packaging/run_vectors.py\<close> computes.  Each pair is proved equal on the
  statements both can read, so a mark is true on a statement the verifier accepts; and the
  marks two statements agree on do not depend on which of them is called the parent.
\<close>

subsection \<open>The writer\<close>

lemma utf16_sorted_bmp:
  assumes "list_all (\<lambda>m. bmp (fst m)) d"
  shows "sort_key (\<lambda>m. utf16_be (fst m)) d = sort_key fst d"
  using assms
proof (induction d)
  case (Cons m d)
  have "insort_key (\<lambda>m. utf16_be (fst m)) m xs = insort_key fst m xs" if "list_all (\<lambda>m. bmp (fst m)) xs" for xs
    using that
  proof (induction xs)
    case (Cons x xs)
    have "bmp (fst m)" "bmp (fst x)" using Cons.prems \<open>list_all (\<lambda>m. bmp (fst m)) (m # d)\<close> by auto
    then have "utf16_be (fst m) \<le> utf16_be (fst x) \<longleftrightarrow> fst m \<le> fst x"
      using utf16_be_less_bmp [of "fst x" "fst m"] by (simp add: not_less [symmetric])
    with Cons show ?case by simp
  qed simp
  moreover have "list_all (\<lambda>m. bmp (fst m)) (sort_key fst d)" using Cons.prems by (auto simp: list_all_iff)
  ultimately show ?case using Cons by simp
qed simp

lemma dumps_jcs_ser: "jcs_value v \<Longrightarrow> dumps False v = jcs_ser v"
proof (induction v rule: jcs_value.induct)
  case (2 i)
  then show ?case using safe_digits [of i] by (simp add: int_text_def)
next
  case (3 xs)
  then have "rmap (dumps False) xs = rmap jcs_ser xs" by (intro rmap_cong) (auto simp: list_all_iff)
  then show ?case by simp
next
  case (4 d)
  have s: "sorted_items d = sort_members d"
    using utf16_sorted_bmp [of d] 4(2) by (auto simp: sorted_items_def sort_members_def list_all_iff)
  have "rmap (\<lambda>m. rbind (dumps False (snd m)) (\<lambda>t. Inr (dumps_string False (fst m) @ 0x3A # t))) (sort_members d) =
      rmap (\<lambda>m. rbind (jcs_ser (snd m)) (\<lambda>t. Inr (jcs_string (fst m) @ 0x3A # t))) (sort_members d)"
    using 4 by (intro rmap_cong) (auto simp: list_all_iff dumps_string_def)
  moreover have "\<not> list_ex (\<lambda>m. list_ex is_surrogate (fst m)) d"
    using 4(2) by (auto simp: list_all_iff list_ex_iff scalars_def scalar_def)
  ultimately show ?case using s by simp
qed (auto simp: dumps_string_def)

lemma jcs_agrees: "jcs_value v \<Longrightarrow> jcs v = jcs_dumps v"
  by (simp add: jcs_def jcs_dumps_def dumps_jcs_ser)

lemma jcs_digest_agrees: "jcs_value v \<Longrightarrow> jcs_dumps v = Inr b \<Longrightarrow> jcs_digest H v = Some (sha256_hex H b)"
  by (simp add: jcs_digest_def jcs_agrees)

subsection \<open>The Merkle root\<close>

lemma root_node_tree_hash: "ps \<noteq> [] \<Longrightarrow> root_node H (map (\<lambda>p. H (0x00 # p)) ps) = tree_hash H ps"
proof (induction H ps rule: tree_hash.induct)
  case (1 H ps)
  let ?k = "split_point (length ps)"
  show ?case
  proof (cases "length ps \<le> 1")
    case True
    then obtain p where "ps = [p]" using 1(3) by (cases ps) auto
    then show ?thesis by (simp add: root_node.simps tree_hash_leaf)
  next
    case False
    then have "0 < ?k" "?k < length ps" using split_point_bounds [of "length ps"] by auto
    then have "take ?k ps \<noteq> []" "drop ?k ps \<noteq> []" by auto
    then show ?thesis using 1(1,2) [OF False] False
      by (subst root_node.simps, subst tree_hash.simps) (simp add: take_map drop_map Let_def)
  qed
qed

lemma record_pae_obj: "record_pae r = Some p \<Longrightarrow> \<exists>d. r = JObj d"
  by (cases r) (auto simp: record_pae_def member_def)

lemma record_leaf_pae: "record_pae (JObj d) = Some p \<Longrightarrow> record_leaf H d = Inr (Some (H (0x00 # p)))"
  by (auto simp: record_pae_def record_leaf_def member_def strict_b64_def rget_def split: json.splits sum.splits)

lemma record_leaves_paes:
  "list_all (\<lambda>r. record_pae r \<noteq> None) rs \<Longrightarrow>
   record_leaves H rs = Inr (Some (map (\<lambda>r. H (0x00 # the (record_pae r))) rs))"
proof (induction rs)
  case (Cons r rs)
  then obtain p where p: "record_pae r = Some p" by auto
  from record_pae_obj [OF this] obtain d where "r = JObj d" by blast
  with Cons p record_leaf_pae [of d p H] show ?case by simp
qed simp

lemma merkle_root_paes:
  assumes "list_all (\<lambda>r. record_pae r \<noteq> None) rs" "rs \<noteq> []"
  shows "merkle_root H rs = rbind (merkle_root_hex H (map (\<lambda>r. the (record_pae r)) rs)) (\<lambda>h. Inr (Some h))"
  using record_leaves_paes [OF assms(1), of H] assms(2)
    root_node_tree_hash [of "map (\<lambda>r. the (record_pae r)) rs" H]
    merkle_node_tree_hash [of 0 "length rs" "map (\<lambda>r. the (record_pae r)) rs" H]
  by (simp add: merkle_root_def merkle_root_hex_def comp_def)

subsection \<open>The result\<close>

lemma result_scan_rows:
  "result_scan ls ca rs (f, g) = Inr (Some (f', g')) \<Longrightarrow>
     list_all is_obj rs \<and>
     f' = (f \<or> list_ex (row_forces_fail ls ca) (map the_obj rs)) \<and>
     g' = (g \<or> list_ex (row_indirect ls ca) (map the_obj rs))"
proof (induction rs arbitrary: f g)
  case (Cons r rs)
  then obtain d where d: "r = JObj d" by (cases r) auto
  show ?case
    using Cons.prems Cons.IH unfolding d
    by (auto simp: row_forces_fail_def row_indirect_def is_substrate_def rbind_eq_Inr split: if_splits)
qed simp

lemma recomputed_result_agrees:
  assumes "recomputed_result (JObj p) = Inr (Some s)"
    and "rget p ''attackResults'' = JArr rows" "rget p ''observationEnvironment'' = JObj env"
    and "rget env ''observationVocabulary'' = JObj voc" "rget voc ''labels'' = JArr ls" "rget voc ''caught'' = JArr ca"
  shows "list_all is_obj rows \<and> s = recompute (map the_obj rows) ls ca (rget p ''coverage'')"
proof -
  from assms obtain cov where cov: "rget p ''coverage'' = JObj cov"
    by (auto simp: recomputed_result_def split: json.splits)
  from assms cov obtain f g where "result_scan ls ca rows (False, False) = Inr (Some (f, g))"
    and s: "s = least_result f (truthy (rget cov ''outOfScope'') \<or> truthy (rget cov ''routedElsewhere'')) g"
    by (auto simp: recomputed_result_def rbind_eq_Inr)
  with result_scan_rows [OF this(1)] show ?thesis
    unfolding s least_result_def recompute_def cov by (simp add: Let_def)
qed

subsection \<open>The run binding\<close>

lemma lit_bmp: "bmp (lit s)"
  by (auto simp: bmp_def list_all_iff dest!: set_lit_less)

lemma ascii_member: "list_all (\<lambda>k. k \<in> range lit) (map fst d) \<Longrightarrow> list_all (\<lambda>m. scalars (fst m) \<and> bmp (fst m)) d"
  by (auto simp: list_all_iff lit_scalars lit_bmp dest!: bspec)

lemma item_dget: "dget e (lit k) = v \<Longrightarrow> v \<noteq> JNull \<Longrightarrow> item (JObj e) k = Some v"
  by (auto simp: item_def dget_def split: option.splits)

lemma item_SomeD: "item v k = Some w \<Longrightarrow> \<exists>d. v = JObj d \<and> map_of d (lit k) = Some w"
  by (auto simp: item_def split: json.splits)

lemma subject_sha_first: "subject_sha stmt = Some v \<Longrightarrow> first_subject_sha (the_obj stmt) = v"
  by (auto simp: subject_sha_def first_subject_sha_def rget_def dget_def bind_eq_Some_conv dest!: item_SomeD
      split: json.splits list.splits)

lemma derived_binding_agrees:
  assumes "derive_binding H stmt e = Inr (Some d)"
    and "dget e (lit ''networkPosture'') = JObj np" "jcs_value (JObj np)" "jcs_dumps (JObj np) = Inr b"
  shows "derived_binding H (JObj e) (first_subject_sha (the_obj stmt)) (str ''2'') = Some d"
proof -
  from assms(1) obtain subj vals where sv: "subject_sha stmt = Some subj" "binding_preimage H e subj = Some vals"
    and strs: "list_all (\<lambda>m. is_str (snd m)) vals" and out: "rbind (jcs_dumps (JObj vals)) (\<lambda>b. Inr (Some (sha256_hex H b))) = Inr (Some d)"
    unfolding derive_binding_def by (auto simp: bind_eq_Some_conv split: option.splits if_splits)
  from out obtain c where c: "jcs_dumps (JObj vals) = Inr c" "d = sha256_hex H c" by (auto simp: rbind_eq_Inr)
  from sv(2) obtain cp co ov re su where env:
      "env_digest e ''catchPolicy'' = Some cp" "env_digest e ''corpus'' = Some co"
      "env_digest e ''observationVocabulary'' = Some ov" "env_digest e ''runEntropy'' = Some re" "env_digest e ''substrate'' = Some su"
    and vals: "vals = [(lit ''aeeBindingVersion'', str binding_version), (lit ''catchPolicy'', cp), (lit ''corpus'', co),
       (lit ''networkPosture'', JStr (posture_preimage_digest H e)), (lit ''observationVocabulary'', ov),
       (lit ''runEntropy'', re), (lit ''subject'', subj), (lit ''substrate'', su)]"
    unfolding binding_preimage_def by (auto simp: bind_eq_Some_conv)
  define pre where "pre = [(lit ''aeeBindingVersion'', str ''2''), (lit ''catchPolicy'', cp), (lit ''corpus'', co),
     (lit ''runEntropy'', re), (lit ''subject'', subj), (lit ''substrate'', su),
     (lit ''networkPosture'', JStr (sha256_hex H b)), (lit ''observationVocabulary'', ov)]"
  have np: "item (JObj e) ''networkPosture'' = Some (JObj np)" using assms(2) by (rule item_dget) simp
  have pd: "posture_preimage_digest H e = sha256_hex H b" using assms(2,4) by (simp add: posture_preimage_digest_def)
  have js: "jcs_value (snd m)" if "m \<in> set vals" for m
    using strs that by (auto simp: list_all_iff is_str_iff)
  have "list_all (\<lambda>m. scalars (fst m) \<and> bmp (fst m)) vals" by (rule ascii_member) (simp add: vals)
  moreover have "distinct (map fst vals)" by (simp add: vals)
  ultimately have jv: "jcs_value (JObj vals)" using js by (simp add: list_all_iff)
  have pre_vals: "set pre = set vals" by (auto simp: pre_def vals pd binding_version_def)
  have dp: "distinct (map fst pre)" by (simp add: pre_def)
  have jp: "jcs_value (JObj pre)" using jv dp unfolding jcs_value.simps list_all_iff pre_vals by blast
  have "jcs_dumps (JObj pre) = Inr c" using jcs_dumps_member_order [OF jv dp pre_vals] c(1) by simp
  then have "jcs_digest H (JObj pre) = Some d" using jcs_digest_agrees [OF jp] c(2) by simp
  moreover obtain t where "subj = JStr t" using strs by (auto simp: vals is_str_iff)
  ultimately show ?thesis
    using env np jcs_digest_agrees [OF assms(3,4), of H] subject_sha_first [OF sv(1)]
    by (simp add: derived_binding_def pre_def opt_str_def)
qed

subsection \<open>The marks of a statement the verifier accepts\<close>

lemma result_scan_Some: "result_scan ls ca rs s = Inr o1 \<Longrightarrow> list_all is_obj rs \<Longrightarrow> o1 \<noteq> None"
proof (induction rs arbitrary: s)
  case (Cons r rs)
  then obtain d f g where "r = JObj d" "s = (f, g)" by (cases r; cases s) auto
  with Cons show ?case by (auto simp: rbind_eq_Inr split: if_splits)
qed auto

lemma environment_mark_keys: "fst ` set (environment_marks H env) \<subseteq> {lit ''corpus-digest'', lit ''vocabulary-digest''}"
  by (auto simp: environment_marks_def split: json.splits if_splits)

lemma dget_append: "dget (a @ b) k = (if dmem a k then dget a k else dget b k)"
proof (induction a)
  case (Cons m a)
  then show ?case by (cases m) simp
qed simp

lemma result_mark:
  assumes "valid_run R stmt st" "stmt = JObj s" "rget s ''predicate'' = JObj p" "stmt_rows stmt \<noteq> []"
    and "list_all is_obj (the_arr (rget p ''attackResults''))" "is_obj (rget p ''coverage'')"
    and "is_arr (rget (stmt_vocab stmt) ''labels'')" "is_arr (rget (stmt_vocab stmt) ''caught'')"
    and "recomputed_result (JObj p) = Inr r"
  shows "agrees_with (rget p ''result'') (map_option lit r)"
proof -
  have p: "stmt_pred stmt = p" using assms(2,3) by (simp add: stmt_pred_def)
  from assms(4) obtain rows where rows: "rget p ''attackResults'' = JArr rows"
    by (cases "rget p ''attackResults''") (auto simp: stmt_rows_def p)
  from assms(7,8) obtain ls ca where la: "rget (stmt_vocab stmt) ''labels'' = JArr ls" "rget (stmt_vocab stmt) ''caught'' = JArr ca"
    by (auto simp: is_arr_iff)
  from la(1) obtain voc where voc: "rget (stmt_env stmt) ''observationVocabulary'' = JObj voc"
    by (cases "rget (stmt_env stmt) ''observationVocabulary''") (auto simp: stmt_vocab_def rget_def)
  then obtain env where env: "rget p ''observationEnvironment'' = JObj env"
    by (cases "rget p ''observationEnvironment''") (auto simp: stmt_env_def p rget_def)
  have v: "rget env ''observationVocabulary'' = JObj voc" "rget voc ''labels'' = JArr ls" "rget voc ''caught'' = JArr ca"
    using voc la env by (simp_all add: stmt_env_def stmt_vocab_def p)
  from assms(6) obtain cov where cov: "rget p ''coverage'' = JObj cov" by (auto simp: is_obj_iff)
  from assms(9) obtain o1 where "result_scan ls ca rows (False, False) = Inr o1" "r \<noteq> None \<longleftrightarrow> o1 \<noteq> None"
    by (auto simp: recomputed_result_def rows env cov v rbind_eq_Inr)
  then obtain x where r: "r = Some x" using result_scan_Some assms(5) rows by fastforce
  from recomputed_result_agrees [OF assms(9) [unfolded r] rows env v]
  have x: "list_all is_obj rows" "x = recompute (map the_obj rows) ls ca (JObj cov)" by (auto simp: cov)
  have "filter is_obj rows = rows" using x(1) by (simp add: list_all_iff filter_id_conv)
  then have "stmt_rows stmt = map the_obj rows" "stmt_labels stmt = ls" "stmt_caught stmt = ca" "stmt_coverage stmt = cov"
    by (simp_all add: stmt_rows_def stmt_labels_def stmt_caught_def stmt_coverage_def p rows la cov)
  with assms(1,4) x(2) have "rget p ''result'' = str x"
    by (auto simp: valid_run_def result_facts_def p)
  then show ?thesis by (simp add: agrees_with_def r str_def)
qed

lemma vocabulary_mark:
  assumes "valid_run R stmt st" "stmt = JObj s" "rget s ''predicate'' = JObj p"
    and "is_arr (rget (stmt_vocab stmt) ''labels'')" "is_arr (rget (stmt_vocab stmt) ''caught'')"
  shows "dget (environment_marks (rt_sha R) (rget p ''observationEnvironment'')) (lit ''vocabulary-digest'') = JBool True"
proof -
  have p: "stmt_pred stmt = p" using assms(2,3) by (simp add: stmt_pred_def)
  from assms(1) obtain ls ca d where l: "stmt_labels stmt = map JStr ls" "stmt_caught stmt = map JStr ca"
    and vd: "vocab_digest (rt_sha R) (map JStr ca) (map JStr ls) = Inr d"
    and dg: "digest_of (rget (stmt_env stmt) ''observationVocabulary'') = JStr d"
    unfolding valid_run_def vocabulary_facts_def by metis
  from dg obtain voc dig where voc: "rget (stmt_env stmt) ''observationVocabulary'' = JObj voc"
    "rget voc ''digest'' = JObj dig" "rget dig ''sha256'' = JStr d"
    unfolding digest_of_def rget_def by (auto split: json.splits)
  then obtain env where env: "rget p ''observationEnvironment'' = JObj env"
    by (cases "rget p ''observationEnvironment''") (auto simp: stmt_env_def p rget_def)
  have la: "rget voc ''labels'' = JArr (map JStr ls)" "rget voc ''caught'' = JArr (map JStr ca)"
    using assms(4,5) l voc(1) by (auto simp: stmt_labels_def stmt_caught_def stmt_vocab_def is_arr_iff)
  then have mem: "dmem voc (lit ''labels'')" "dmem voc (lit ''caught'')"
    using not_dmem_dget [of voc] unfolding rget_def by (metis json.distinct)+
  have vr: "rget env ''observationVocabulary'' = JObj voc" using voc(1) env by (simp add: stmt_env_def p)
  let ?pre = "JObj [(lit ''caught'', JArr (map JStr ca)), (lit ''labels'', JArr (map JStr ls))]"
  from vd obtain b where b: "jcs_dumps ?pre = Inr b" "d = sha256_hex (rt_sha R) b"
    by (auto simp: vocab_digest_def rbind_eq_Inr)
  have "jcs_value ?pre" by (simp add: list_all_iff lit_scalars lit_bmp)
  from jcs_digest_agrees [OF this b(1)] have "jcs_digest (rt_sha R) ?pre = Some d" using b(2) by simp
  then show ?thesis
    using vr voc(2,3) la mem
    by (auto simp: environment_marks_def env dget_append agrees_with_def dmem_def split: json.splits)
qed

lemma batch_root_mark:
  assumes "valid_run R stmt st" "stmt = JObj s" "rget s ''predicate'' = JObj p" "stmt_records stmt \<noteq> []"
    and "merkle_root (rt_sha R) (stmt_records stmt) = Inr h"
  shows "agrees_with (rget p ''batchRoot'') h"
proof -
  have p: "stmt_pred stmt = p" using assms(2,3) by (simp add: stmt_pred_def)
  from valid_batch [OF assms(1,4)] obtain x where x: "list_all (\<lambda>r. record_pae r \<noteq> None) (stmt_records stmt)"
    "merkle_root_hex (rt_sha R) (batch_paes stmt) = Inr x" "rget p ''batchRoot'' = JStr x"
    by (auto simp: list_all_iff p)
  with merkle_root_paes [OF x(1) assms(4), of "rt_sha R"] assms(5) show ?thesis
    by (auto simp: batch_paes_def agrees_with_def)
qed

text \<open>Together, over \<open>derived_marks\<close>.\<close>

lemma valid_marks:
  assumes v: "valid_run R stmt st" and m: "derived_marks R keys stmt = Inr ms"
    and "stmt_rows stmt \<noteq> []" "stmt_records stmt \<noteq> []"
    and "list_all is_obj (the_arr (rget (stmt_pred stmt) ''attackResults''))" "is_obj (rget (stmt_pred stmt) ''coverage'')"
    and "is_arr (rget (stmt_vocab stmt) ''labels'')" "is_arr (rget (stmt_vocab stmt) ''caught'')"
  shows "dget ms (lit ''result'') = JBool True \<and> dget ms (lit ''vocabulary-digest'') = JBool True \<and>
    dget ms (lit ''batch-root'') = JBool True"
proof -
  from v obtain s p where sp: "stmt = JObj s" "rget s ''predicate'' = JObj p"
    by (auto simp: valid_run_def types_facts_def is_obj_iff)
  then have p: "stmt_pred stmt = p" by (simp add: stmt_pred_def)
  with assms(4) obtain rs where rs: "rget p ''observationRecords'' = JArr rs" "rs = stmt_records stmt" "rs \<noteq> []"
    by (cases "rget p ''observationRecords''") (auto simp: stmt_records_def)
  from m obtain r rm where r: "recomputed_result (JObj p) = Inr r" and rm: "records_marks R keys s p rs = Inr rm"
    and ms: "ms = (lit ''result'', JBool (agrees_with (rget p ''result'') (map_option lit r))) #
      environment_marks (rt_sha R) (rget p ''observationEnvironment'') @ rm"
    by (auto simp: derived_marks_def sp rs(1,3) rbind_eq_Inr)
  from rm obtain h rest where h: "merkle_root (rt_sha R) rs = Inr h"
    and rme: "rm = (lit ''batch-root'', JBool (agrees_with (rget p ''batchRoot'') h)) # rest"
    by (auto simp: records_marks_def Let_def rbind_eq_Inr)
  let ?em = "environment_marks (rt_sha R) (rget p ''observationEnvironment'')"
  have vm: "dget ?em (lit ''vocabulary-digest'') = JBool True" by (rule vocabulary_mark [OF v sp assms(7,8)])
  then have "dmem ?em (lit ''vocabulary-digest'')" using not_dmem_dget by force
  moreover have "\<not> dmem ?em (lit ''batch-root'')" using environment_mark_keys by (fastforce simp: dmem_def)
  moreover have "agrees_with (rget p ''result'') (map_option lit r)"
    by (rule result_mark [OF v sp assms(3) assms(5,6) [unfolded p] assms(7,8) r])
  moreover have "agrees_with (rget p ''batchRoot'') h"
    by (rule batch_root_mark [OF v sp assms(4)]) (use h rs(2) in simp)
  ultimately show ?thesis using vm by (simp add: ms rme dget_append)
qed

end
