(* ===== verification/Mutation_Preimage.thy ===== *)
theory Mutation_Preimage
  imports Mutation_Laws
begin

section \<open>Pre-images and the whole relation\<close>

text \<open>
  What \<open>json.loads\<close> returns stays of that kind in the pre-image, the agreed marks are the
  same whichever statement is called the parent, and the two facts about \<open>walk\<close> are lifted
  to \<open>mutation_paths\<close>.
\<close>

subsection \<open>Values \<open>json.loads\<close> returns\<close>

text \<open>Unique members and no integer over the digit limit.\<close>

fun loadable :: "json \<Rightarrow> bool" where
  "loadable (JInt i) = (length (dec_digits (nat \<bar>i\<bar>)) \<le> max_int_digits)"
| "loadable (JArr xs) = list_all loadable xs"
| "loadable (JObj d) = (distinct (map fst d) \<and> list_all (\<lambda>m. loadable (snd m)) d)"
| "loadable v = True"

lemma loadable_no_dup: "loadable v \<Longrightarrow> \<not> has_dup v"
  by (induction v rule: loadable.induct) (auto simp: list_all_iff list_ex_iff)

lemma loadable_dumps: "loadable v \<Longrightarrow> \<exists>t. dumps ascii v = Inr t"
proof (induction v rule: loadable.induct)
  case (2 xs)
  then have "\<forall>x \<in> set xs. \<exists>t. dumps ascii x = Inr t" by (auto simp: list_all_iff)
  then obtain g where "\<And>x. x \<in> set xs \<Longrightarrow> dumps ascii x = Inr (g x)" by metis
  then have "rmap (dumps ascii) xs = Inr (map g xs)" by (rule rmap_total)
  then show ?case by simp
next
  case (3 d)
  then have "\<forall>m \<in> set d. \<exists>t. dumps ascii (snd m) = Inr t" by (auto simp: list_all_iff)
  then obtain g where "\<And>m. m \<in> set d \<Longrightarrow> dumps ascii (snd m) = Inr (g m)" by metis
  then have "rmap (\<lambda>m. rbind (dumps ascii (snd m)) (\<lambda>t. Inr (dumps_string ascii (fst m) @ 0x3A # t))) (sorted_items d) =
      Inr (map (\<lambda>m. dumps_string ascii (fst m) @ 0x3A # g m) (sorted_items d))"
    by (intro rmap_total) simp
  then show ?case by simp
qed (auto simp: int_text_def)

lemma loadable_writable: "loadable v \<Longrightarrow> writable v"
  using loadable_dumps [of v True] by (simp add: writable_def canonical_def)

lemma values_dset: "snd ` set (dset d k v) \<subseteq> insert v (snd ` set d)"
  by (induction d k v rule: dset.induct) auto

lemma loadable_dset: "loadable (JObj d) \<Longrightarrow> loadable v \<Longrightarrow> loadable (JObj (dset d k v))"
proof -
  assume a: "loadable (JObj d)" "loadable v"
  have "loadable (snd m)" if "m \<in> set (dset d k v)" for m
    using values_dset [of d k v] that a by (fastforce simp: list_all_iff)
  then show ?thesis using a distinct_dset [of d k v] by (simp add: list_all_iff)
qed

lemma loadable_pairs: "list_all (\<lambda>m. loadable (snd m)) ps \<Longrightarrow> loadable (JObj (dict_of_pairs ps))"
proof -
  assume a: "list_all (\<lambda>m. loadable (snd m)) ps"
  have "loadable (JObj (foldl (\<lambda>d (k, v). dset d k v) d ps))" if "loadable (JObj d)" for d
    using a that
  proof (induction ps arbitrary: d)
    case (Cons m ps)
    then show ?case by (cases m) (simp add: loadable_dset del: loadable.simps(3))
  qed simp
  then show ?thesis by (simp add: dict_of_pairs_def)
qed

lemma dec_value_bound: "list_all is_digit ds \<Longrightarrow> dec_value ds < 10 ^ length ds"
proof (induction ds rule: rev_induct)
  case (snoc c ds)
  then have "c - 0x30 \<le> 9" by (auto simp: is_digit_def)
  with snoc show ?case by (simp add: dec_value_append)
qed (simp add: dec_value_def)

lemma read_int_number: "read_int s = Some (ds, r) \<Longrightarrow> list_all is_digit ds \<and> ds \<noteq> []"
  by (auto simp: read_int_def is_digit_def list_all_iff dest!: set_takeWhileD split: list.splits if_splits)

lemma read_int_loadable: "read_int s = Some (ds, r) \<Longrightarrow> length ds \<le> max_int_digits \<Longrightarrow>
  length (dec_digits (dec_value ds)) \<le> max_int_digits"
  using length_dec_digits [OF dec_value_bound, of ds] read_int_number [of s ds r] by fastforce

lemma scalar_loadable: "read_scalar float_literal s = Inr (v, r) \<Longrightarrow> loadable v"
  by (auto simp: read_scalar_def read_number_def int_literal_def float_literal_def Let_def rbind_eq_Inr not_less
      intro!: read_int_loadable split: option.splits if_splits prod.splits)

lemma loads_loadable: "json_loads_default s = Inr v \<Longrightarrow> loadable v"
  unfolding json_loads_default_def
  by (rule json_loads_scalar [where P = loadable]) (auto intro: scalar_loadable loadable_pairs simp del: loadable.simps(3))

lemma decode_loadable: "decode_payload d = Some p \<Longrightarrow> loadable (JObj p)"
  by (auto simp: decode_payload_def loads_bytes_def dest: loads_loadable split: option.splits json.splits sum.splits
      simp del: loadable.simps(3))

lemma payload_loadable: "canonical_payload d = Some p \<Longrightarrow> loadable (JObj p)"
  by (auto simp: canonical_payload_def dest: decode_loadable split: option.splits sum.splits if_splits
      simp del: loadable.simps(3))

subsection \<open>The pre-image is loadable\<close>

lemma loadable_dget: "loadable (JObj d) \<Longrightarrow> loadable (dget d k)"
  by (auto simp: dget_def list_all_iff dest!: map_of_SomeD split: option.splits)

lemma loadable_update: "loadable (JObj d) \<Longrightarrow> (\<And>v. loadable v \<Longrightarrow> loadable (f v)) \<Longrightarrow> loadable (JObj (update_member d k f))"
  using loadable_dget [of d k] by (auto simp: update_member_def dget_def intro!: loadable_dset simp del: loadable.simps(3) split: option.splits)

lemma loadable_digest: "loadable v \<Longrightarrow> loadable (collapse_digest v)"
  by (auto simp: collapse_digest_def rget_def intro!: loadable_dset simp del: loadable.simps(3) split: json.splits)
    (metis loadable_dget)

lemma loadable_environment: "loadable v \<Longrightarrow> loadable (collapse_environment al v)"
  by (cases v) (auto simp: collapse_environment_def Let_def intro!: loadable_update loadable_digest simp del: loadable.simps(3))

lemma loadable_collapse: "loadable (JObj p) \<Longrightarrow> loadable (JObj (collapse_payload al h i p))"
  by (auto simp: collapse_payload_def collapse_member_def derived_members_def intro!: loadable_dset simp del: loadable.simps(3))

lemma loadable_project: "project_record R keys al h (i, r) = Inr v \<Longrightarrow> loadable r \<Longrightarrow> loadable (dget al (mark_key ''signature'' i)) \<Longrightarrow> loadable v"
  by (auto simp: project_record_def Let_def rbind_eq_Inr intro!: loadable_dset loadable_collapse dest: payload_loadable
      simp del: loadable.simps(3) split: json.splits option.splits)

lemma loadable_records:
  assumes "collapse_records R keys al p rs = Inr p'" "loadable (JObj p)" "list_all loadable rs" "list_all (\<lambda>m. loadable (snd m)) al"
  shows "loadable (JObj p')"
proof -
  have al: "loadable (dget al k)" for k
    using assms(4) by (auto simp: dget_def list_all_iff dest!: map_of_SomeD split: option.splits)
  define p1 where "p1 = (case carried_bindings R rs of
      [b] \<Rightarrow> if allowed al (lit ''uniform-binding'')
             then dset p carried_binding (JStr (if allowed al (lit ''uniform-binding-derived'') then derived_token else b)) else p
    | _ \<Rightarrow> p)"
  define q where "q = (if allowed al (lit ''batch-root'') then dset p1 (lit ''batchRoot'') (JStr derived_token) else p1)"
  from assms(1) obtain rs' where r: "rmap (project_record R keys al (dmem q carried_binding)) (enumerate 0 rs) = Inr rs'"
    and p': "p' = dset q (lit ''observationRecords'') (JArr rs')"
    unfolding collapse_records_def Let_def p1_def [symmetric] q_def [symmetric] by (auto elim!: rbind_InrE)
  have "loadable v" if v: "v \<in> set rs'" for v
  proof -
    from rmap_results [OF r v] obtain i x where x: "(i, x) \<in> set (enumerate 0 rs)"
      "project_record R keys al (dmem q carried_binding) (i, x) = Inr v" by auto
    then have "x \<in> set rs" by (auto simp: in_set_enumerate_eq)
    then show ?thesis using loadable_project [OF x(2)] al assms(3) by (auto simp: list_all_iff)
  qed
  then have "loadable (JArr rs')" by (simp add: list_all_iff)
  moreover have "loadable (JObj p1)" using assms(2)
    by (auto simp: p1_def intro!: loadable_dset simp del: loadable.simps(3) split: list.splits)
  then have "loadable (JObj q)" by (auto simp: q_def intro!: loadable_dset simp del: loadable.simps(3))
  ultimately show ?thesis unfolding p' by (rule loadable_dset [rotated])
qed

lemma loadable_preimage:
  assumes "semantic_preimage R keys al stmt = Inr v" "loadable stmt" "list_all (\<lambda>m. loadable (snd m)) al"
  shows "loadable v"
proof (cases "\<exists>s p. stmt = JObj s \<and> rget s ''predicate'' = JObj p")
  case False
  with assms(1,2) show ?thesis by (auto simp: semantic_preimage_def split: json.splits)
next
  case True
  then obtain s p where sp: "stmt = JObj s" "rget s ''predicate'' = JObj p" by blast
  with assms(1) obtain p' where p': "collapse_predicate R keys al p = Inr p'" "v = JObj (dset s (lit ''predicate'') (JObj p'))"
    by (auto simp: semantic_preimage_def rbind_eq_Inr)
  have p: "loadable (JObj p)" using loadable_dget [of s "lit ''predicate''"] assms(2) sp by (simp add: rget_def)
  define q where "q = update_member (if allowed al (lit ''result'') then dset p (lit ''result'') (JStr derived_token) else p)
    (lit ''observationEnvironment'') (collapse_environment al)"
  have q: "loadable (JObj q)" unfolding q_def
    by (rule loadable_update) (auto intro!: loadable_dset loadable_environment simp: p simp del: loadable.simps(3))
  from p'(1) have "p' = q \<or> (\<exists>rs. rget p ''observationRecords'' = JArr rs \<and> collapse_records R keys al q rs = Inr p')"
    by (auto simp: collapse_predicate_def Let_def q_def split: json.splits if_splits)
  moreover have "list_all loadable rs" if "rget p ''observationRecords'' = JArr rs" for rs
    using loadable_dget [OF p, of "lit ''observationRecords''"] that by (simp add: rget_def)
  ultimately have "loadable (JObj p')" using q loadable_records [OF _ q _ assms(3)] by blast
  with sp assms(2) show ?thesis unfolding p'(2) by (intro loadable_dset) auto
qed

subsection \<open>The agreed marks do not depend on the direction\<close>

fun plain_mark :: "json \<Rightarrow> bool" where
  "plain_mark (JBool _) = True"
| "plain_mark (JStr _) = True"
| "plain_mark JNull = True"
| "plain_mark _ = False"

definition mark_ok :: "ustr \<times> json \<Rightarrow> bool" where
  "mark_ok m \<longleftrightarrow> plain_mark (snd m) \<and> (starts_with (lit ''signature/'') (fst m) \<longrightarrow> snd m = JNull \<or> is_str (snd m))"

lemma mark_key_plain [simp]:
  "\<not> starts_with (lit ''signature/'') (mark_key ''binding'' i)"
  "\<not> starts_with (lit ''signature/'') (mark_key ''observed-set'' i)"
  "\<not> starts_with (lit ''signature/'') (mark_key ''posture-digest'' i)"
  by (simp_all add: starts_with_def mark_key_def lit_def)

lemma statement_key_plain [simp]:
  "\<not> starts_with (lit ''signature/'') (lit ''result'')" "\<not> starts_with (lit ''signature/'') (lit ''corpus-digest'')"
  "\<not> starts_with (lit ''signature/'') (lit ''vocabulary-digest'')" "\<not> starts_with (lit ''signature/'') (lit ''batch-root'')"
  "\<not> starts_with (lit ''signature/'') (lit ''uniform-binding'')" "\<not> starts_with (lit ''signature/'') (lit ''uniform-binding-derived'')"
  by (simp_all add: starts_with_def lit_def)

lemma record_marks_ok: "record_marks R keys b o1 pd ir = Inr ms \<Longrightarrow> list_all mark_ok ms"
  by (auto simp: record_marks_def rbind_eq_Inr mark_ok_def opt_str_def split: prod.splits json.splits option.splits)

lemma environment_marks_ok: "list_all mark_ok (environment_marks H env)"
  by (auto simp: environment_marks_def mark_ok_def split: json.splits)

lemma derived_marks_ok: "derived_marks R keys stmt = Inr ms \<Longrightarrow> list_all mark_ok ms"
proof -
  assume m: "derived_marks R keys stmt = Inr ms"
  have r: "list_all mark_ok rm" if rm: "records_marks R keys s p rs = Inr rm" for s p rs rm
  proof -
    define y where "y = (case carried_bindings R rs of [b] \<Rightarrow> JStr b | _ \<Rightarrow> JNull)"
    from rm obtain b o1 pd mss x z where mss: "rmap (record_marks R keys b o1 pd) (enumerate 0 rs) = Inr mss"
      and e: "rm = [(lit ''batch-root'', JBool x), (lit ''uniform-binding'', y), (lit ''uniform-binding-derived'', JBool z)] @ concat mss"
      unfolding records_marks_def Let_def y_def [symmetric] by (elim rbind_InrE) blast
    have "plain_mark y" by (simp add: y_def split: list.splits)
    moreover have "list_all mark_ok ms" if "ms \<in> set mss" for ms
      using rmap_results [OF mss that] by (blast dest: record_marks_ok)
    then have "list_all mark_ok (concat mss)" by (auto simp: list_all_iff)
    ultimately show ?thesis by (auto simp: e mark_ok_def)
  qed
  show ?thesis using m environment_marks_ok
    by (auto simp: derived_marks_def rbind_eq_Inr mark_ok_def [of "(lit ''result'', _)"] dest: r split: json.splits if_splits)
qed

lemma map_of_lookup:
  "map_of (concat (map (\<lambda>k. case f k of None \<Rightarrow> [] | Some v \<Rightarrow> [(k, v)]) ks)) k = (if k \<in> set ks then f k else None)"
  by (induction ks) (auto simp: map_add_def split: option.splits)

lemma agreed_lookup:
  "map_of (agreed pm cm) k = (if dmem pm k \<or> dmem cm k then agreed_mark pm cm k else None)"
  by (auto simp: agreed_def map_of_lookup dmem_def)

lemma mark_ok_dget: "list_all mark_ok ms \<Longrightarrow> starts_with (lit ''signature/'') k \<Longrightarrow> dget ms k = JNull \<or> is_str (dget ms k)"
  by (auto simp: dget_def list_all_iff mark_ok_def dest!: map_of_SomeD split: option.splits)

lemma py_eq_marks: "v = JNull \<or> is_str v \<Longrightarrow> w = JNull \<or> is_str w \<Longrightarrow> py_eq v w \<longleftrightarrow> v = w"
  by (cases v; cases w) auto

lemma agreed_mark_sym:
  assumes "list_all mark_ok pm" "list_all mark_ok cm"
  shows "agreed_mark pm cm k = agreed_mark cm pm k"
proof (cases "starts_with (lit ''signature/'') k")
  case True
  note ok = mark_ok_dget [OF assms(1) True] mark_ok_dget [OF assms(2) True]
  have "py_eq (dget pm k) (dget cm k) \<longleftrightarrow> dget pm k = dget cm k" "py_eq (dget cm k) (dget pm k) \<longleftrightarrow> dget cm k = dget pm k"
    using py_eq_marks [OF ok] py_eq_marks [OF ok(2,1)] by simp_all
  moreover have "k \<noteq> lit ''uniform-binding''" using True by auto
  ultimately show ?thesis using True by (simp add: agreed_mark_def Let_def not_dmem_dget)
next
  case False
  then show ?thesis by (simp add: agreed_mark_def Let_def not_dmem_dget conj_commute)
qed

lemma agreed_sym: "list_all mark_ok pm \<Longrightarrow> list_all mark_ok cm \<Longrightarrow> dget (agreed pm cm) = dget (agreed cm pm)"
  by (rule ext) (auto simp: dget_def agreed_lookup agreed_mark_sym [of pm cm])

lemma agreed_loadable: "list_all mark_ok pm \<Longrightarrow> list_all mark_ok cm \<Longrightarrow> list_all (\<lambda>m. loadable (snd m)) (agreed pm cm)"
proof -
  assume ok: "list_all mark_ok pm" "list_all mark_ok cm"
  have d: "loadable (dget ms k)" if "list_all mark_ok ms" for ms k
  proof -
    have "plain_mark (dget ms k)"
      using that by (auto simp: dget_def list_all_iff mark_ok_def dest!: map_of_SomeD split: option.splits)
    then show ?thesis by (cases "dget ms k") auto
  qed
  have "loadable v" if "agreed_mark pm cm k = Some v" for k v
    using that d [OF ok(1), of k] d [OF ok(2), of k] by (auto simp: agreed_mark_def Let_def split: if_splits)
  then show ?thesis by (auto simp: agreed_def list_all_iff split: option.splits)
qed

text \<open>The pre-image reads the agreed marks by lookup only.\<close>

lemma preimage_cong:
  assumes "dget al = dget al'"
  shows "semantic_preimage R keys al stmt = semantic_preimage R keys al' stmt"
proof -
  have a: "allowed al = allowed al'" by (rule ext) (simp add: allowed_def assms)
  have m: "collapse_member al = collapse_member al'" by (intro ext) (unfold collapse_member_def a, rule refl)
  have p: "collapse_payload al = collapse_payload al'" by (intro ext) (unfold collapse_payload_def m, rule refl)
  have e: "collapse_environment al = collapse_environment al'" by (intro ext) (unfold collapse_environment_def a, rule refl)
  have r: "project_record R keys al = project_record R keys al'" by (intro ext) (unfold project_record_def assms p, rule refl)
  have c: "collapse_records R keys al = collapse_records R keys al'" by (intro ext) (unfold collapse_records_def a r, rule refl)
  show ?thesis by (unfold semantic_preimage_def collapse_predicate_def a e c, rule refl)
qed

subsection \<open>The relation\<close>

lemma loadable_leaf: "loadable v \<Longrightarrow> loadable (with_leaf l v)"
  by (auto simp: with_leaf_def intro!: loadable_dset split: json.splits simp del: loadable.simps(3))

lemma with_leaf_other [simp]: "\<not> is_obj v \<Longrightarrow> with_leaf l v = v"
  by (cases v) (auto simp: with_leaf_def)

lemma preimage_obj: "semantic_preimage R keys al v = Inr w \<Longrightarrow> is_obj w = is_obj v"
  by (auto simp: semantic_preimage_def rbind_eq_Inr split: json.splits)

lemma mutation_pathsE:
  assumes "mutation_paths R keys parent child pb cb = Inr paths"
  obtains pm cm before after1 where "derived_marks R keys parent = Inr pm" "derived_marks R keys child = Inr cm"
    "semantic_preimage R keys (agreed pm cm) parent = Inr before"
    "semantic_preimage R keys (agreed pm cm) child = Inr after1"
    "if is_obj parent \<and> is_obj child
     then walk (with_leaf (serialization_leaf (rt_sha R) pb parent) before)
            (with_leaf (serialization_leaf (rt_sha R) cb child) after1) [] = Inr paths
     else walk before after1 [] = Inr paths"
proof -
  from assms obtain pm cm before after1 where m: "derived_marks R keys parent = Inr pm" "derived_marks R keys child = Inr cm"
    and p: "semantic_preimage R keys (agreed pm cm) parent = Inr before" "semantic_preimage R keys (agreed pm cm) child = Inr after1"
    and w: "(if is_obj before \<and> is_obj after1
       then walk (with_leaf (serialization_leaf (rt_sha R) pb parent) before)
              (with_leaf (serialization_leaf (rt_sha R) cb child) after1) []
       else walk before after1 []) = Inr paths"
    unfolding mutation_paths_def by (elim rbind_InrE) blast
  show thesis by (rule that [OF m p]) (use w in \<open>auto simp: preimage_obj [OF p(1)] preimage_obj [OF p(2)] split: if_splits\<close>)
qed

text \<open>What both sides show of a statement: its pre-image under the agreed marks, and its file.\<close>

definition shown :: "runtime \<Rightarrow> (ustr \<times> bytes) list \<Rightarrow> dict \<Rightarrow> json \<Rightarrow> bytes option \<Rightarrow> json res" where
  "shown R keys al stmt b =
     rbind (semantic_preimage R keys al stmt) (\<lambda>v. Inr (with_leaf (serialization_leaf (rt_sha R) b stmt) v))"

lemma shown_loadable:
  "shown R keys al stmt b = Inr v \<Longrightarrow> loadable stmt \<Longrightarrow> list_all (\<lambda>m. loadable (snd m)) al \<Longrightarrow> loadable v"
  by (auto simp: shown_def rbind_eq_Inr intro!: loadable_leaf dest: loadable_preimage)

lemma no_paths_same_text:
  assumes "mutation_paths R keys parent child pb cb = Inr []" "loadable parent" "loadable child"
    and "is_obj parent" "is_obj child"
  shows "\<exists>pm cm v w. derived_marks R keys parent = Inr pm \<and> derived_marks R keys child = Inr cm \<and>
    shown R keys (agreed pm cm) parent pb = Inr v \<and> shown R keys (agreed pm cm) child cb = Inr w \<and> canonical v = canonical w"
proof -
  from assms(1) obtain pm cm v w where m: "derived_marks R keys parent = Inr pm" "derived_marks R keys child = Inr cm"
    and s: "shown R keys (agreed pm cm) parent pb = Inr v" "shown R keys (agreed pm cm) child cb = Inr w"
    and "walk v w [] = Inr []"
    by (rule mutation_pathsE) (simp add: shown_def assms(4,5))
  moreover note agreed_loadable [OF derived_marks_ok [OF m(1)] derived_marks_ok [OF m(2)]]
  ultimately show ?thesis
    using walk_sound [of v w "[]"] loadable_no_dup shown_loadable [OF s(1) assms(2)] shown_loadable [OF s(2) assms(3)] by blast
qed

lemma same_shown_no_paths:
  assumes "derived_marks R keys parent = Inr pm" "derived_marks R keys child = Inr cm"
    and "shown R keys (agreed pm cm) parent pb = Inr v" "shown R keys (agreed pm cm) child cb = Inr w"
    and "canon v = canon w" "nan_free v" "loadable parent" "loadable child" "is_obj parent" "is_obj child"
  shows "mutation_paths R keys parent child pb cb = Inr []"
proof -
  note al = agreed_loadable [OF derived_marks_ok [OF assms(1)] derived_marks_ok [OF assms(2)]]
  note vw = shown_loadable [OF assms(3,7) al] shown_loadable [OF assms(4,8) al]
  from assms(3,4) obtain b a where ba: "semantic_preimage R keys (agreed pm cm) parent = Inr b"
    "semantic_preimage R keys (agreed pm cm) child = Inr a"
    "v = with_leaf (serialization_leaf (rt_sha R) pb parent) b" "w = with_leaf (serialization_leaf (rt_sha R) cb child) a"
    by (auto simp: shown_def rbind_eq_Inr)
  have "walk v w [] = Inr []"
    by (rule walk_complete [OF assms(5) loadable_no_dup [OF vw(1)] loadable_no_dup [OF vw(2)] assms(6) loadable_writable [OF vw(1)]])
  then show ?thesis
    using ba assms(9,10) preimage_obj [OF ba(1)] preimage_obj [OF ba(2)] by (simp add: mutation_paths_def assms(1,2))
qed

subsection \<open>What a signature's description leaves out\<close>

text \<open>Two entries with one key identifier and signature, and the same further member names.\<close>

definition same_but_extra :: "json \<Rightarrow> json \<Rightarrow> bool" where
  "same_but_extra e f \<longleftrightarrow> (\<exists>d d'. e = JObj d \<and> f = JObj d' \<and> map fst d = map fst d' \<and>
     map_of d (lit ''keyid'') = map_of d' (lit ''keyid'') \<and> rget d ''sig'' = rget d' ''sig'')"

lemma entry_parts_extra:
  "list_all2 same_but_extra es fs \<Longrightarrow> entry_parts R keys d es = entry_parts R keys d fs"
proof (induction rule: list_all2_induct)
  case (Cons e es f fs)
  then show ?case by (auto simp: same_but_extra_def entry_part_def entry_keyid_def entry_extra_def)
qed simp

end
