(* ===== verification/Mutation_Properties.thy ===== *)
theory Mutation_Properties
  imports Mutation_Preimage Examples
begin

section \<open>Properties of the one-mutation relation\<close>

text \<open>
  The relation misses no difference of the canonical text and reports none for an unchanged
  statement, it does not depend on the direction, the derivations it restates are the
  verifier's, and the one thing it does not see is shown.
\<close>

subsection \<open>The marks are computed\<close>

definition scalar_type :: "json \<Rightarrow> bool" where
  "scalar_type r \<longleftrightarrow> (case rget (the_obj r) ''payloadType'' of JStr t \<Rightarrow> scalars t | _ \<Rightarrow> True)"

lemma pae_answers: "scalars t \<Longrightarrow> \<exists>p. pae t b = Inr p"
  by (simp add: pae_def utf8_encode_scalars)

lemma leaf_answers: "scalar_type (JObj d) \<Longrightarrow> \<exists>l. record_leaf H d = Inr l"
proof (cases "\<exists>t b. rget d ''payloadType'' = JStr t \<and> strict_b64 (rget d ''payload'') = Some b")
  case True
  then obtain t b where tb: "rget d ''payloadType'' = JStr t" "strict_b64 (rget d ''payload'') = Some b" by blast
  assume "scalar_type (JObj d)"
  then obtain p where "pae t b = Inr p" using tb(1) pae_answers [of t b] by (auto simp: scalar_type_def)
  with tb show ?thesis by (simp add: record_leaf_def)
qed (auto simp: record_leaf_def split: json.splits option.splits)

lemma leaves_answer: "list_all scalar_type rs \<Longrightarrow> \<exists>ls. record_leaves H rs = Inr ls"
proof (induction rs)
  case (Cons r rs)
  show ?case
  proof (cases "is_obj r")
    case True
    then obtain d where d: "r = JObj d" by (auto simp: is_obj_iff)
    obtain l where "record_leaf H d = Inr l" using leaf_answers [of d H] Cons.prems d by auto
    with Cons d show ?thesis by (cases l) auto
  qed (cases r; simp)
qed simp

lemma root_answers: "list_all scalar_type rs \<Longrightarrow> \<exists>h. merkle_root H rs = Inr h"
  using leaves_answer [of rs H] by (auto simp: merkle_root_def split: option.splits)

lemma observed_answers: "list_all scalar_type rs \<Longrightarrow> \<exists>h. observed_digest H rs = Inr h"
proof -
  assume "list_all scalar_type rs"
  then have "\<exists>ls. observed_leaf_hexes H rs = Inr ls"
  proof (induction rs)
    case (Cons r rs)
    then obtain ls where ls: "observed_leaf_hexes H rs = Inr ls" by auto
    show ?case
    proof (cases "is_obj r")
      case True
      then obtain d where d: "r = JObj d" by (auto simp: is_obj_iff)
      obtain l where "record_leaf H d = Inr l" using leaf_answers [of d H] Cons.prems d by auto
      with ls d show ?thesis by (simp split: option.splits)
    qed (use ls in \<open>cases r; simp\<close>)
  qed simp
  then show ?thesis by (auto simp: observed_digest_def)
qed

lemma signer_answers: "scalars t \<Longrightarrow> list_all (\<lambda>k. length (snd k) = 32) keys \<Longrightarrow> \<exists>s. find_signer R keys t b sg = Inr s"
proof (induction keys)
  case (Cons k keys)
  then show ?case using pae_answers [of t b] by (cases k) auto
qed simp

lemma parts_answer:
  assumes "scalar_type (JObj d)" "list_all (\<lambda>k. length (snd k) = 32) keys"
  shows "\<exists>ps. entry_parts R keys d es = Inr ps"
proof (induction es)
  case (Cons e es)
  show ?case
  proof (cases "is_obj e")
    case True
    then obtain ent where e: "e = JObj ent" by (auto simp: is_obj_iff)
    have "\<exists>p. entry_part R keys d ent = Inr p"
    proof (cases "\<exists>sg b t. strict_b64 (rget ent ''sig'') = Some sg \<and> strict_b64 (rget d ''payload'') = Some b \<and>
        rget d ''payloadType'' = JStr t")
      case True
      then obtain sg b t where k: "strict_b64 (rget ent ''sig'') = Some sg" "strict_b64 (rget d ''payload'') = Some b"
        "rget d ''payloadType'' = JStr t" by blast
      then obtain s where "find_signer R keys t b sg = Inr s"
        using assms signer_answers [of t keys R b sg] by (auto simp: scalar_type_def)
      with k show ?thesis by (simp add: entry_part_def)
    qed (auto simp: entry_part_def split: option.splits json.splits)
    with e Cons show ?thesis by auto
  qed (cases e; simp)
qed simp

lemma record_marks_answer:
  assumes "scalar_type r" "list_all (\<lambda>k. length (snd k) = 32) keys"
  shows "\<exists>ms. record_marks R keys b o1 pd (i, r) = Inr ms"
proof (cases "is_obj r")
  case True
  then obtain d where d: "r = JObj d" by (auto simp: is_obj_iff)
  have "\<exists>s. signature_descriptor R keys d = Inr s"
  proof (cases "rget d ''signatures''")
    case (JArr es)
    obtain ps where "entry_parts R keys d es = Inr ps" using parts_answer [OF assms [unfolded d], of R es] by blast
    with JArr show ?thesis by (simp add: signature_descriptor_def)
  qed (simp_all add: signature_descriptor_def)
  with d show ?thesis by (auto simp: record_marks_def)
qed (cases r; simp add: record_marks_def)

text \<open>
  The marks come out unless a payload type has a lone surrogate, a label cannot be hashed or
  a key has the wrong length.
\<close>

lemma marks_answer:
  assumes "recomputed_result (rget (the_obj stmt) ''predicate'') = Inr r"
    and "list_all scalar_type (stmt_records stmt)" "list_all (\<lambda>k. length (snd k) = 32) keys"
  shows "\<exists>ms. derived_marks R keys stmt = Inr ms"
proof (cases "\<exists>s p rs. stmt = JObj s \<and> rget s ''predicate'' = JObj p \<and> rget p ''observationRecords'' = JArr rs \<and> rs \<noteq> []")
  case False
  with assms(1) show ?thesis by (auto simp: derived_marks_def split: json.splits)
next
  case True
  then obtain s p rs where s: "stmt = JObj s" "rget s ''predicate'' = JObj p" "rget p ''observationRecords'' = JArr rs" "rs \<noteq> []"
    by blast
  then have t: "list_all scalar_type rs" using assms(2) by (simp add: stmt_records_def stmt_pred_def)
  obtain h o1 where h: "merkle_root (rt_sha R) rs = Inr h" "observed_digest (rt_sha R) rs = Inr o1"
    using root_answers [OF t] observed_answers [OF t] by metis
  have "\<exists>mss. rmap (record_marks R keys b o1 pd) (enumerate 0 rs) = Inr mss" for b pd
  proof -
    have "\<forall>ir \<in> set (enumerate 0 rs). \<exists>ms. record_marks R keys b o1 pd ir = Inr ms"
      using record_marks_answer [OF _ assms(3)] t by (auto simp: in_set_enumerate_eq list_all_iff)
    then obtain g where "\<And>ir. ir \<in> set (enumerate 0 rs) \<Longrightarrow> record_marks R keys b o1 pd ir = Inr (g ir)" by metis
    then show ?thesis using rmap_total by metis
  qed
  then obtain rm where "records_marks R keys s p rs = Inr rm"
    by (auto simp: records_marks_def h Let_def rbind_eq_Inr) (metis rbind.simps(2))
  with s assms(1) show ?thesis by (simp add: derived_marks_def)
qed

subsection \<open>Examples\<close>

text \<open>A statement whose result follows from its coverage, without records.\<close>

definition covered_stmt :: "string \<Rightarrow> (string \<times> json) list \<Rightarrow> json" where
  "covered_stmt res cov =
     obj [(''predicate'', obj [(''result'', str res), (''attackResults'', JArr []),
       (''observationEnvironment'', obj [(''observationVocabulary'', obj [(''labels'', JArr []), (''caught'', JArr [])])]),
       (''coverage'', obj cov)])]"

definition narrow_stmt :: json where
  "narrow_stmt = covered_stmt ''degraded'' [(''outOfScope'', str ''c'')]"

text \<open>Leaving a class out moves the result too, and is one mutation.\<close>

lemma moved_result_counts_once:
  "mutation_paths toy [] (covered_stmt ''pass'' []) narrow_stmt None None = Inr [lit ''predicate.coverage.outOfScope'']"
  by code_simp

text \<open>A result the coverage does not support is a mutation of its own.\<close>

lemma wrong_result_counts:
  "mutation_paths toy [] (covered_stmt ''pass'' []) (covered_stmt ''fail'' []) None None = Inr [lit ''predicate.result'']"
  by code_simp



subsection \<open>No difference is missed, none is made up\<close>




text \<open>The example with its coverage before its result.\<close>

definition shuffled_stmt :: json where
  "shuffled_stmt =
     obj [(''predicate'', obj [(''coverage'', obj [(''outOfScope'', str ''c'')]), (''attackResults'', JArr []),
       (''observationEnvironment'', obj [(''observationVocabulary'', obj [(''caught'', JArr []), (''labels'', JArr [])])]),
       (''result'', str ''degraded'')])]"

definition result_marks :: dict where
  "result_marks = [(lit ''result'', JBool True)]"

lemma example_marks:
  "derived_marks toy [] narrow_stmt = Inr result_marks" "derived_marks toy [] shuffled_stmt = Inr result_marks"
  "derived_marks toy [] (covered_stmt ''fail'' []) = Inr [(lit ''result'', JBool False)]"
  by code_simp+

lemma not_isl_projr: "\<not> isl m \<Longrightarrow> m = Inr (projr m)"
  by (cases m) auto


text \<open>The marks two statements agree on do not depend on which is called the parent, so
  neither does the pre-image of any statement.\<close>

theorem preimage_direction_free:
  assumes "derived_marks R keys parent = Inr pm" "derived_marks R keys child = Inr cm"
  shows "semantic_preimage R keys (agreed pm cm) stmt = semantic_preimage R keys (agreed cm pm) stmt"
  by (rule preimage_cong) (rule agreed_sym [OF derived_marks_ok [OF assms(1)] derived_marks_ok [OF assms(2)]])

theorem preimage_direction_free_witness:
  "semantic_preimage toy [] (agreed result_marks [(lit ''result'', JBool False)]) narrow_stmt =
   semantic_preimage toy [] (agreed [(lit ''result'', JBool False)] result_marks) narrow_stmt"
  by (rule preimage_direction_free [OF example_marks(1,3)])

subsection \<open>The derivations are the verifier's\<close>

text \<open>C19: in a statement the verifier finds valid, with rows that are objects, a coverage object,
  vocabulary arrays and records, the relation finds the result, the vocabulary digest and the
  batch root derived.\<close>

theorem valid_statement_derived:
  assumes "verify R pubs stmt b = Inr out" "codes out = []" "derived_marks R keys stmt = Inr ms"
    and "stmt_rows stmt \<noteq> []" "stmt_records stmt \<noteq> []"
    and "list_all is_obj (the_arr (rget (stmt_pred stmt) ''attackResults''))" "is_obj (rget (stmt_pred stmt) ''coverage'')"
    and "is_arr (rget (stmt_vocab stmt) ''labels'')" "is_arr (rget (stmt_vocab stmt) ''caught'')"
  shows "dget ms (lit ''result'') = JBool True \<and> dget ms (lit ''vocabulary-digest'') = JBool True \<and>
    dget ms (lit ''batch-root'') = JBool True"
  using valid_out [OF assms(1,2)] valid_marks [OF _ assms(3-9)] by metis

lemma substrate_on_facts:
  "recomputed_result (rget (the_obj (substrate_on recs)) ''predicate'') = Inr (Some ''fail'')"
  "stmt_rows (substrate_on recs) \<noteq> []"
  "list_all is_obj (the_arr (rget (stmt_pred (substrate_on recs)) ''attackResults''))"
  "is_obj (rget (stmt_pred (substrate_on recs)) ''coverage'')"
  "is_arr (rget (stmt_vocab (substrate_on recs)) ''labels'')" "is_arr (rget (stmt_vocab (substrate_on recs)) ''caught'')"
  "stmt_records (substrate_on recs) = recs"
  by code_simp+

lemma substrate_marks: "\<exists>ms. derived_marks toy [] substrate_stmt = Inr ms"
proof (rule marks_answer)
  show "recomputed_result (rget (the_obj substrate_stmt) ''predicate'') = Inr (Some ''fail'')"
    by (simp add: substrate_stmt_def substrate_on_facts)
  show "list_all scalar_type (stmt_records substrate_stmt)"
    by (simp add: substrate_stmt_def substrate_on_facts example_records_def example_payloads_def scalar_type_def
        envelope_def obj_def rget_def str_def lit_scalars)
qed simp

theorem valid_statement_derived_witness:
  "\<exists>ms. derived_marks toy [] substrate_stmt = Inr ms \<and> dget ms (lit ''batch-root'') = JBool True"
proof -
  from substrate_marks obtain ms where ms: "derived_marks toy [] substrate_stmt = Inr ms" ..
  have "stmt_records substrate_stmt \<noteq> []"
    by (simp add: substrate_stmt_def substrate_on_facts example_records_def example_payloads_def)
  from valid_statement_derived [OF substrate_run outcome_of_simps(1) ms _ this] ms show ?thesis
    by (simp add: substrate_stmt_def substrate_on_facts)
qed

text \<open>C36: wherever the verifier derives a run binding over a network posture inside its number
  profile, the relation derives the same one.\<close>

theorem binding_is_verifiers:
  assumes "derive_binding H stmt e = Inr (Some d)"
    and "dget e (lit ''networkPosture'') = JObj np" "jcs_value (JObj np)" "jcs_dumps (JObj np) = Inr b"
  shows "derived_binding H (JObj e) (first_subject_sha (the_obj stmt)) (str ''2'') = Some d"
  using assms by (rule derived_binding_agrees)

definition example_posture :: dict where
  "example_posture = the_obj (dget (stmt_env artifact_stmt) (lit ''networkPosture''))"

theorem binding_is_verifiers_witness:
  "derived_binding (rt_sha toy) (JObj (stmt_env artifact_stmt)) (first_subject_sha (the_obj artifact_stmt)) (str ''2'') =
     Some (replicate 64 0x30)"
proof (rule binding_is_verifiers [OF _ _ _ not_isl_projr])
  show "derive_binding (rt_sha toy) artifact_stmt (stmt_env artifact_stmt) = Inr (Some (replicate 64 0x30))" by code_simp
  show "dget (stmt_env artifact_stmt) (lit ''networkPosture'') = JObj example_posture" by code_simp
  show "jcs_value (JObj example_posture)" by code_simp
  show "\<not> isl (jcs_dumps (JObj example_posture))" by code_simp
qed

subsection \<open>What is not seen\<close>











end
