(* ===== verification/Anchor_Inputs.thy ===== *)
theory Anchor_Inputs
  imports Mutation_Paths Binding_Manifest "HOL-Library.AList" "HOL-Library.Product_Lexorder"
begin

section \<open>What the accept-anchor gate reads\<close>

text \<open>
  The inputs of \<open>scripts/accept-anchor-gate.py\<close>: the manifest, the table of the reject index,
  the declared exceptions, the baseline, the statements themselves, and the published
  sentences with their numbers.  The regular expressions are written out as the matching they
  do.  A file is read through \<open>files\<close>; \<open>SystemExit\<close> is the refusal of an input that cannot
  stand for an empty one.
\<close>

subsection \<open>The manifest\<close>

text \<open>\<open>v[k]\<close>.\<close>

definition subscript :: "json \<Rightarrow> string \<Rightarrow> json res" where
  "subscript v k =
     (case v of
        JObj d \<Rightarrow> (case map_of d (lit k) of None \<Rightarrow> Inl KeyError | Some x \<Rightarrow> Inr x)
      | _ \<Rightarrow> Inl TypeError)"

definition load_manifest :: "files \<Rightarrow> ustr \<Rightarrow> json list res" where
  "load_manifest fs path =
     rbind (load_json fs path) (\<lambda>data.
       case data of
         JObj d \<Rightarrow>
           (case rget d ''vectors'' of
              JArr vs \<Rightarrow> if vs = [] then Inl SystemExit else Inr vs
            | _ \<Rightarrow> Inl SystemExit)
       | _ \<Rightarrow> Inl AttributeError)"

text \<open>\<open>{str(v["id"]): str(v["file"]) for v in vectors}\<close>: of two rows with one identifier the later counts.\<close>

definition vector_files :: "runtime \<Rightarrow> json list \<Rightarrow> (ustr \<times> ustr) list res" where
  "vector_files R vs =
     rfold (\<lambda>m v. rbind (subscript v ''id'') (\<lambda>i. rbind (subscript v ''file'') (\<lambda>f.
       Inr (AList.update (py_str R i) (py_str R f) m)))) [] vs"

subsection \<open>Identifiers\<close>

text \<open>\<open>VECTOR_ID_PATTERN\<close> at the start of a string: a \<open>v\<close> and sixteen lowercase hexadecimal digits.\<close>

definition id_length :: nat where
  "id_length = 17"

definition starts_with_id :: "ustr \<Rightarrow> bool" where
  "starts_with_id s \<longleftrightarrow> starts_with (lit ''v'') s \<and> length (take 16 (drop 1 s)) = 16 \<and> list_all is_hex_lower (take 16 (drop 1 s))"

text \<open>\<open>$\<close> matches at the end and before a line feed that ends the string.\<close>

definition at_end :: "ustr \<Rightarrow> bool" where
  "at_end s \<longleftrightarrow> s = [] \<or> s = [0x0A]"

definition vector_id :: "ustr \<Rightarrow> bool" where
  "vector_id s \<longleftrightarrow> starts_with_id s \<and> at_end (drop id_length s)"

subsection \<open>The rows of the reject index\<close>

text \<open>
  The second cell of a row, \<open>\s*`?([^|`]+?)`?\s*\|\<close>: as many spaces as possible are skipped, then
  a backtick, and the cell is the shortest text that an optional backtick, spaces and a bar
  follow; when there is none, fewer spaces are skipped.  A backtick is neither a space nor part of
  the cell, so no other choice is left to try.
\<close>

definition skip_tick :: "ustr \<Rightarrow> ustr" where
  "skip_tick s = (if starts_with [0x60] s then drop 1 s else s)"

definition cell_closes :: "ustr \<Rightarrow> bool" where
  "cell_closes s \<longleftrightarrow> starts_with [0x7C] (dropWhile is_space (skip_tick s))"

fun shortest_cell :: "ustr \<Rightarrow> ustr option" where
  "shortest_cell [] = None"
| "shortest_cell (c # s) =
     (if c = 0x7C \<or> c = 0x60 then None
      else if cell_closes s then Some [c]
      else map_option ((#) c) (shortest_cell s))"

fun second_cell :: "ustr \<Rightarrow> ustr option" where
  "second_cell [] = None"
| "second_cell (c # s) =
     (case (if is_space c then second_cell s else None) of
        Some g \<Rightarrow> Some g
      | None \<Rightarrow> shortest_cell (skip_tick (c # s)))"

text \<open>\<open>_ROW.match\<close>: a bar, the identifier between backticks, a bar, the second cell.\<close>

definition row_match :: "ustr \<Rightarrow> (ustr \<times> ustr) option" where
  "row_match s =
     (let t = dropWhile is_space (drop 1 s); v = drop 1 t; r = drop id_length v; u = dropWhile is_space (drop 1 r) in
      if starts_with [0x7C] s \<and> starts_with [0x60] t \<and> starts_with_id v \<and> starts_with [0x60] r \<and> starts_with [0x7C] u
      then map_option (\<lambda>g. (take id_length v, g)) (second_cell (drop 1 u)) else None)"

definition index_line :: "(ustr \<times> ustr) list \<Rightarrow> ustr \<Rightarrow> (ustr \<times> ustr) list" where
  "index_line out line =
     (case row_match (str_strip line) of
        None \<Rightarrow> out
      | Some (vid, cell) \<Rightarrow> AList.update vid (str_strip cell) out)"

definition parent_rows :: "files \<Rightarrow> ustr \<Rightarrow> (ustr \<times> ustr) list res" where
  "parent_rows fs path =
     rbind (read_text fs path) (\<lambda>text.
       let out = foldl index_line [] (split_lines [] text) in
       if out = [] then Inl SystemExit else Inr out)"

subsection \<open>The declared exceptions\<close>

text \<open>
  A row with no reason, or with a count that is not an integer of two or more, is refused; a
  boolean is an integer below two.  Of an accepted row only the count is read again.
\<close>

definition exception_row :: "ustr \<times> json \<Rightarrow> (ustr \<times> int) res" where
  "exception_row m =
     (case snd m of
        JObj row \<Rightarrow>
          (case rget row ''reason'' of
             JStr reason \<Rightarrow>
               if str_strip reason = [] then Inl SystemExit
               else (case rget row ''mutations'' of
                       JInt n \<Rightarrow> if n < 2 then Inl SystemExit else Inr (fst m, n)
                     | _ \<Rightarrow> Inl SystemExit)
           | _ \<Rightarrow> Inl SystemExit)
      | _ \<Rightarrow> Inl SystemExit)"

definition load_exceptions :: "files \<Rightarrow> ustr \<Rightarrow> (ustr \<times> int) list res" where
  "load_exceptions fs path =
     (if \<not> fs_file fs path then Inl SystemExit
      else rbind (load_json fs path) (\<lambda>data.
        case data of
          JObj d \<Rightarrow> (case rget d ''vectors'' of JObj rows \<Rightarrow> rmap exception_row rows | _ \<Rightarrow> Inl SystemExit)
        | _ \<Rightarrow> Inl AttributeError))"

subsection \<open>The baseline\<close>

text \<open>Only the member \<open>anchored\<close> is read.\<close>

definition load_baseline :: "files \<Rightarrow> ustr \<Rightarrow> bool \<Rightarrow> ustr list res" where
  "load_baseline fs path allow_absent =
     (if \<not> fs_file fs path then (if allow_absent then Inr [] else Inl SystemExit)
      else rbind (load_json fs path) (\<lambda>data.
        case data of
          JObj d \<Rightarrow>
            (case rget d ''anchored'' of
               JArr cs \<Rightarrow> if list_all is_str cs then Inr (map the_str cs) else Inl SystemExit
             | _ \<Rightarrow> Inl SystemExit)
        | _ \<Rightarrow> Inl AttributeError))"

subsection \<open>The statements\<close>

text \<open>\<open>root / name\<close>; a name from the root of the file system stays as it is.\<close>

definition under_root :: "ustr \<Rightarrow> ustr \<Rightarrow> ustr" where
  "under_root dir name = (if starts_with [0x2F] name then name else dir @ 0x2F # name)"

text \<open>A file that does not parse is a sentence; an integer over the digit limit is not caught.\<close>

definition unparsed :: "string \<Rightarrow> json" where
  "unparsed e = JStr (lit ''<the file does not parse: '' @ lit e @ lit ''>'')"

definition read_vector :: "files \<Rightarrow> ustr \<Rightarrow> (json \<times> bytes) res" where
  "read_vector fs path =
     (case fs_read fs path of
        None \<Rightarrow> Inl OSError
      | Some b \<Rightarrow>
          (case utf8_decode b of
             None \<Rightarrow> Inr (unparsed ''UnicodeDecodeError'', b)
           | Some text \<Rightarrow>
               (case json_loads_default text of
                  Inr v \<Rightarrow> Inr (v, b)
                | Inl IntegerTooLong \<Rightarrow> Inl IntegerTooLong
                | Inl _ \<Rightarrow> Inr (unparsed ''JSONDecodeError'', b))))"

subsection \<open>Decimal digits\<close>

text \<open>
  \<open>\d\<close> and \<open>int\<close> take the decimal digits of every script: the zeros of Unicode 15.1, each
  followed by its nine digits.
\<close>

definition unicode_zeros :: "nat list" where
  "unicode_zeros =
     [0x30, 0x660, 0x6F0, 0x7C0, 0x966, 0x9E6, 0xA66, 0xAE6, 0xB66, 0xBE6, 0xC66, 0xCE6, 0xD66, 0xDE6,
      0xE50, 0xED0, 0xF20, 0x1040, 0x1090, 0x17E0, 0x1810, 0x1946, 0x19D0, 0x1A80, 0x1A90, 0x1B50, 0x1BB0,
      0x1C40, 0x1C50, 0xA620, 0xA8D0, 0xA900, 0xA9D0, 0xA9F0, 0xAA50, 0xABF0, 0xFF10, 0x104A0, 0x10D30,
      0x11066, 0x110F0, 0x11136, 0x111D0, 0x112F0, 0x11450, 0x114D0, 0x11650, 0x116C0, 0x11730, 0x118E0,
      0x11950, 0x11C50, 0x11D50, 0x11DA0, 0x11F50, 0x16A60, 0x16AC0, 0x16B50, 0x1D7CE, 0x1D7D8, 0x1D7E2,
      0x1D7EC, 0x1D7F6, 0x1E140, 0x1E2F0, 0x1E4F0, 0x1E950, 0x1FBF0]"

definition digit_value :: "nat \<Rightarrow> nat option" where
  "digit_value c = map_option (\<lambda>z. c - z) (find (\<lambda>z. z \<le> c \<and> c < z + 10) unicode_zeros)"

definition is_decimal :: "nat \<Rightarrow> bool" where
  "is_decimal c \<longleftrightarrow> digit_value c \<noteq> None"

definition read_decimal :: "ustr \<Rightarrow> nat res" where
  "read_decimal ds =
     (if max_int_digits < length ds then Inl IntegerTooLong
      else Inr (foldl (\<lambda>n c. 10 * n + (case digit_value c of None \<Rightarrow> 0 | Some x \<Rightarrow> x)) 0 ds))"

subsection \<open>The published sentences\<close>

text \<open>
  A pattern is a list of literals, runs of at least one space, optional runs, and numbers, whose
  digits are captured.  In these patterns nothing that follows a run of spaces starts with a
  space and a number is followed by a space, so the longest run is the only one that can match.
\<close>

datatype token = Word string | Gap | Space | Number

fun match_tokens :: "token list \<Rightarrow> ustr \<Rightarrow> ustr list option" where
  "match_tokens [] s = Some []"
| "match_tokens (Word w # ts) s = (if starts_with (lit w) s then match_tokens ts (drop (length w) s) else None)"
| "match_tokens (Gap # ts) s = (if takeWhile is_space s \<noteq> [] then match_tokens ts (dropWhile is_space s) else None)"
| "match_tokens (Space # ts) s = match_tokens ts (dropWhile is_space s)"
| "match_tokens (Number # ts) s =
     (if takeWhile is_decimal s \<noteq> []
      then map_option ((#) (takeWhile is_decimal s)) (match_tokens ts (dropWhile is_decimal s)) else None)"

fun search_tokens :: "token list \<Rightarrow> ustr \<Rightarrow> ustr list option" where
  "search_tokens ts [] = match_tokens ts []"
| "search_tokens ts (c # s) = (case match_tokens ts (c # s) of Some gs \<Rightarrow> Some gs | None \<Rightarrow> search_tokens ts s)"

definition words_of :: "string list \<Rightarrow> token list" where
  "words_of ws = concat (map (\<lambda>w. [Gap, Word w]) ws)"

datatype claim = Parent_Claim | Traceability_Claim | One_Mutation_Claim | Declared_Exception_Claim

fun claim_tokens :: "claim \<Rightarrow> token list" where
  "claim_tokens Parent_Claim = Word ''all'' # [Gap, Number] @ words_of [''reject'', ''vectors'', ''declare'', ''a'', ''parent'']"
| "claim_tokens Traceability_Claim =
     Word ''That'' # words_of [''second'', ''number'', ''is''] @ [Gap, Number] @ words_of [''of''] @ [Gap, Number] @ words_of [''today,'']"
| "claim_tokens One_Mutation_Claim =
     [Word ''**'', Number] @ words_of [''of'', ''the''] @ [Gap, Number] @
     words_of [''reject'', ''vectors'', ''are'', ''now'', ''exactly'', ''one'', ''mutation'', ''from'', ''their'', ''declared''] @
     [Space, Word ''parent'']"
| "claim_tokens Declared_Exception_Claim =
     Word ''The'' # words_of [''remaining''] @ [Gap, Number] @
     words_of [''cannot'', ''express'', ''their'', ''declared'', ''fault'']"

end
