(* ===== verification/Anchor_Gate.thy ===== *)
theory Anchor_Gate
  imports Anchor_Inputs
begin

section \<open>The accept-anchor gate\<close>

text \<open>
  The checks of \<open>scripts/accept-anchor-gate.py\<close> and its \<open>main\<close>: every refused vector declares
  a parent that ships as an accepted one and is that parent plus one mutation, every condition
  the baseline holds stays cited by an accepting vector, and the published figures are the
  measured ones.  A sentence the gate prints is a \<open>fault\<close> with the values it names; what is
  printed beside the faults is not kept.  The model asks for identifiers of refused vectors that
  are strings: the code would print a sentence about any other and end with the same status.
\<close>

datatype fault =
    Missing_Input ustr
  | Not_Published ustr
  | Accept_Twice ustr
  | No_Index_Row ustr
  | Parent_Unshipped ustr ustr
  | Row_Unshipped ustr
  | Exception_Is_One ustr int ustr
  | Exception_Drifted ustr int ustr "ustr list"
  | Not_One_Mutation ustr ustr "ustr list"
  | Exception_Unused ustr
  | Claim_Gone claim
  | Claim_Stale claim "ustr list" "nat list"
  | Nothing_Held nat
  | Anchor_Regressed ustr

subsection \<open>Check 1: the parent ships\<close>

definition index_accept :: "runtime \<Rightarrow> (ustr \<times> ustr) list \<times> fault list \<Rightarrow> json \<Rightarrow> ((ustr \<times> ustr) list \<times> fault list) res" where
  "index_accept R s v =
     (case s of (index, errors) \<Rightarrow>
        rbind (subscript v ''kind'') (\<lambda>kind.
          if kind \<noteq> str ''accept'' then Inr (index, errors)
          else rbind (subscript v ''id'') (\<lambda>i.
            let vid = py_str R i in
            Inr (if \<not> vector_id vid then (index, errors @ [Not_Published vid])
                 else if map_of index vid \<noteq> None then (index, errors @ [Accept_Twice vid])
                 else (AList.update vid vid index, errors)))))"

definition accept_index :: "runtime \<Rightarrow> json list \<Rightarrow> ((ustr \<times> ustr) list \<times> fault list) res" where
  "accept_index R vs = rfold (index_accept R) ([], []) vs"

text \<open>The identifiers of the refused vectors, in the order of the manifest.\<close>

definition reject_id :: "json \<Rightarrow> ustr list res" where
  "reject_id v =
     rbind (subscript v ''kind'') (\<lambda>kind.
       if kind \<noteq> str ''reject'' then Inr []
       else rbind (subscript v ''id'') (\<lambda>i. case i of JStr vid \<Rightarrow> Inr [vid] | _ \<Rightarrow> Inl TypeError))"

definition reject_ids :: "json list \<Rightarrow> ustr list res" where
  "reject_ids vs = rbind (rmap reject_id vs) (\<lambda>ids. Inr (concat ids))"

definition parent_fault :: "(ustr \<times> ustr) list \<Rightarrow> ustr list \<Rightarrow> ustr \<Rightarrow> fault list" where
  "parent_fault parent_of shipped vid =
     (case map_of parent_of vid of
        None \<Rightarrow> [No_Index_Row vid]
      | Some declared \<Rightarrow> if declared \<notin> set shipped then [Parent_Unshipped vid declared] else [])"

definition check_parents :: "runtime \<Rightarrow> json list \<Rightarrow> (ustr \<times> ustr) list \<Rightarrow> (nat \<times> fault list) res" where
  "check_parents R vs parent_of =
     rbind (accept_index R vs) (\<lambda>(accepts, errors).
     rbind (reject_ids vs) (\<lambda>ids.
       let shipped = map fst accepts @ map snd accepts; rejects = sort (remdups ids) in
       Inr (length (filter (\<lambda>vid. parent_fault parent_of shipped vid = []) rejects),
            errors @ concat (map (parent_fault parent_of shipped) rejects) @
            map Row_Unshipped (sort (filter (\<lambda>vid. vid \<notin> set ids) (map fst parent_of))))))"

subsection \<open>The one-mutation check\<close>

record mutation_state =
  ms_distribution :: "(nat \<times> nat) list"
  ms_seen :: "ustr list"
  ms_errors :: "fault list"

text \<open>The two files are read and compared under the paths the manifest gives them.\<close>

definition vector_distance ::
  "runtime \<Rightarrow> (ustr \<times> bytes) list \<Rightarrow> files \<Rightarrow> ustr \<Rightarrow> (ustr \<times> ustr) list \<Rightarrow> ustr \<Rightarrow> ustr \<Rightarrow> ustr list res" where
  "vector_distance R keys fs dir held parent_id vid =
     (case (map_of held vid, map_of held parent_id) of
        (Some cf, Some pf) \<Rightarrow>
          rbind (read_vector fs (under_root dir cf)) (\<lambda>(child, child_bytes).
          rbind (read_vector fs (under_root dir pf)) (\<lambda>(parent, parent_bytes).
            mutation_paths R keys parent child (Some parent_bytes) (Some child_bytes)))
      | _ \<Rightarrow> Inl KeyError)"

definition count_distance :: "nat \<Rightarrow> (nat \<times> nat) list \<Rightarrow> (nat \<times> nat) list" where
  "count_distance n d = AList.update n ((case map_of d n of None \<Rightarrow> 0 | Some k \<Rightarrow> k) + 1) d"

definition note_distance :: "(ustr \<times> int) list \<Rightarrow> ustr \<Rightarrow> ustr \<Rightarrow> ustr list \<Rightarrow> mutation_state \<Rightarrow> mutation_state" where
  "note_distance exceptions vid parent_id paths st =
     (let n = length paths; st' = st\<lparr>ms_distribution := count_distance n (ms_distribution st)\<rparr> in
      case map_of exceptions vid of
        Some expected \<Rightarrow>
          st'\<lparr>ms_seen := ms_seen st' @ [vid],
              ms_errors := ms_errors st' @
                (if n = 1 then [Exception_Is_One vid expected parent_id]
                 else if int n \<noteq> expected then [Exception_Drifted vid expected parent_id paths] else [])\<rparr>
      | None \<Rightarrow> if n \<noteq> 1 then st'\<lparr>ms_errors := ms_errors st' @ [Not_One_Mutation vid parent_id paths]\<rparr> else st')"

definition mutation_step ::
  "runtime \<Rightarrow> (ustr \<times> bytes) list \<Rightarrow> files \<Rightarrow> ustr \<Rightarrow> (ustr \<times> ustr) list \<Rightarrow> (ustr \<times> ustr) list \<Rightarrow> (ustr \<times> ustr) list \<Rightarrow>
     (ustr \<times> int) list \<Rightarrow> mutation_state \<Rightarrow> ustr \<Rightarrow> mutation_state res" where
  "mutation_step R keys fs dir held accepts parent_of exceptions st vid =
     (case map_of parent_of vid of
        None \<Rightarrow> Inr st
      | Some declared \<Rightarrow>
          let parent_id = (case map_of accepts declared of None \<Rightarrow> declared | Some a \<Rightarrow> a) in
          if map_of held parent_id = None then Inr st
          else rbind (vector_distance R keys fs dir held parent_id vid) (\<lambda>paths.
            Inr (note_distance exceptions vid parent_id paths st)))"

definition check_one_mutation ::
  "runtime \<Rightarrow> (ustr \<times> bytes) list \<Rightarrow> files \<Rightarrow> ustr \<Rightarrow> json list \<Rightarrow> (ustr \<times> ustr) list \<Rightarrow> (ustr \<times> int) list \<Rightarrow>
     ((nat \<times> nat) list \<times> fault list) res" where
  "check_one_mutation R keys fs dir vs parent_of exceptions =
     rbind (accept_index R vs) (\<lambda>(accepts, errors).
     rbind (vector_files R vs) (\<lambda>held.
     rbind (reject_ids vs) (\<lambda>ids.
     rbind (rfold (mutation_step R keys fs dir held accepts parent_of exceptions)
              \<lparr>ms_distribution = [], ms_seen = [], ms_errors = errors\<rparr> (sort ids)) (\<lambda>st.
       Inr (ms_distribution st,
            ms_errors st @ map Exception_Unused (sort (filter (\<lambda>vid. vid \<notin> set (ms_seen st)) (map fst exceptions))))))))"

subsection \<open>Check 2: the condition is cited by an accepting vector\<close>

definition row_conditions :: "json \<Rightarrow> ustr list res" where
  "row_conditions v =
     (case v of
        JObj d \<Rightarrow>
          rbind (py_iter (if rhas d ''conditions'' then rget d ''conditions'' else JArr [])) (\<lambda>cs.
            Inr (map the_str (filter is_str cs)))
      | _ \<Rightarrow> Inl AttributeError)"

text \<open>The two sets as lists without repetition, in the order of citation.\<close>

definition condition_sides :: "json list \<Rightarrow> (ustr list \<times> ustr list) res" where
  "condition_sides vs =
     rbind (rmap (\<lambda>v. rbind (row_conditions v) (\<lambda>cs. rbind (subscript v ''kind'') (\<lambda>kind. Inr (kind = str ''reject'', cs)))) vs) (\<lambda>sides.
       let rejected = remdups (concat (map snd (filter fst sides)));
           accepted = remdups (concat (map snd (filter (\<lambda>s. \<not> fst s) sides)))
       in if rejected = [] then Inl SystemExit else Inr (rejected, accepted))"

text \<open>
  The key of a condition: its number, else a large number and the identifier.  Two spellings of
  one number have equal keys; they keep the order of citation here, a set leaves it open.
\<close>

definition condition_key :: "ustr \<Rightarrow> (nat \<times> ustr) res" where
  "condition_key c =
     (let ds = takeWhile is_decimal (drop 6 c) in
      if starts_with (lit ''aee-c-'') c \<and> ds \<noteq> [] \<and> at_end (dropWhile is_decimal (drop 6 c))
      then rbind (read_decimal ds) (\<lambda>n. Inr (n, [])) else Inr (10 ^ 9, c))"

definition sort_conditions :: "ustr list \<Rightarrow> ustr list res" where
  "sort_conditions ids =
     rbind (rmap (\<lambda>c. rbind (condition_key c) (\<lambda>k. Inr (k, c))) ids) (\<lambda>ks. Inr (map snd (sort_key fst ks)))"

text \<open>The held set is floored unless the baseline is being rewritten.\<close>

definition check_ratchet :: "ustr list \<Rightarrow> ustr list \<Rightarrow> ustr list \<Rightarrow> bool \<Rightarrow> (ustr list \<times> fault list) res" where
  "check_ratchet was_anchored anchored unanchored syncing =
     rbind (sort_conditions (filter (\<lambda>c. c \<in> set unanchored) (remdups was_anchored))) (\<lambda>regressed.
       Inr (regressed,
            (if \<not> syncing \<and> was_anchored = [] \<and> anchored \<noteq> [] then [Nothing_Held (length anchored)] else []) @
            map Anchor_Regressed regressed))"

subsection \<open>Check 3: the published figures\<close>

definition check_claim :: "ustr \<Rightarrow> claim \<Rightarrow> nat list \<Rightarrow> fault list res" where
  "check_claim text claim measured =
     (case search_tokens (claim_tokens claim) text of
        None \<Rightarrow> Inr [Claim_Gone claim]
      | Some groups \<Rightarrow>
          rbind (rmap read_decimal groups) (\<lambda>published.
            Inr (if published \<noteq> measured then [Claim_Stale claim groups measured] else [])))"

definition check_published_relation :: "files \<Rightarrow> ustr \<Rightarrow> nat \<Rightarrow> nat \<Rightarrow> nat \<Rightarrow> fault list res" where
  "check_published_relation fs changes exact compared declared =
     rbind (read_text fs changes) (\<lambda>text.
     rbind (check_claim text One_Mutation_Claim [exact, compared]) (\<lambda>e1.
     rbind (check_claim text Declared_Exception_Claim [declared]) (\<lambda>e2. Inr (e1 @ e2))))"

definition check_published :: "files \<Rightarrow> ustr \<Rightarrow> nat \<Rightarrow> nat \<Rightarrow> nat \<Rightarrow> fault list res" where
  "check_published fs changes reject_count unanchored cited =
     rbind (read_text fs changes) (\<lambda>text.
     rbind (check_claim text Parent_Claim [reject_count]) (\<lambda>e1.
     rbind (check_claim text Traceability_Claim [unanchored, cited]) (\<lambda>e2. Inr (e1 @ e2))))"

subsection \<open>The run\<close>

record gate_args =
  ga_manifest :: ustr
  ga_reject_index :: ustr
  ga_baseline :: ustr
  ga_changes :: ustr
  ga_exceptions :: ustr
  ga_vector_root :: ustr
  ga_sync :: bool

text \<open>How a run ends: the status, the faults found, and the two lists of a baseline it writes.\<close>

record gate_run =
  gr_status :: nat
  gr_faults :: "fault list"
  gr_written :: "(ustr list \<times> ustr list) option"

definition gate_end :: "gate_args \<Rightarrow> ustr list \<Rightarrow> ustr list \<Rightarrow> ustr list \<Rightarrow> fault list \<Rightarrow> gate_run" where
  "gate_end a regressed anchored unanchored errors =
     (if ga_sync a then
        (if regressed \<noteq> [] then \<lparr>gr_status = 1, gr_faults = errors, gr_written = None\<rparr>
         else \<lparr>gr_status = 0, gr_faults = errors, gr_written = Some (anchored, unanchored)\<rparr>)
      else \<lparr>gr_status = (if errors \<noteq> [] then 1 else 0), gr_faults = errors, gr_written = None\<rparr>)"

text \<open>The second half of \<open>main\<close>: conditions, published figures and the ratchet.\<close>

definition gate_conditions :: "files \<Rightarrow> gate_args \<Rightarrow> json list \<Rightarrow> nat \<Rightarrow> fault list \<Rightarrow> gate_run res" where
  "gate_conditions fs a vs reject_count errors =
     rbind (condition_sides vs) (\<lambda>(rejected, accepted).
     rbind (sort_conditions (filter (\<lambda>c. c \<in> set accepted) rejected)) (\<lambda>anchored.
     rbind (sort_conditions (filter (\<lambda>c. c \<notin> set accepted) rejected)) (\<lambda>unanchored.
     rbind (check_published fs (ga_changes a) reject_count (length unanchored) (length rejected)) (\<lambda>e1.
     rbind (load_baseline fs (ga_baseline a) (ga_sync a)) (\<lambda>was_anchored.
     rbind (check_ratchet was_anchored anchored unanchored (ga_sync a)) (\<lambda>(regressed, e2).
       Inr (gate_end a regressed anchored unanchored (errors @ e1 @ e2))))))))"

definition gate_inputs :: "gate_args \<Rightarrow> ustr list" where
  "gate_inputs a = [ga_manifest a, ga_reject_index a, ga_changes a, ga_exceptions a]"

text \<open>\<open>main\<close>; the process ends with status 1 as well when an exception leaves it.\<close>

definition anchor_gate :: "runtime \<Rightarrow> (ustr \<times> bytes) list \<Rightarrow> files \<Rightarrow> gate_args \<Rightarrow> gate_run res" where
  "anchor_gate R keys fs a =
     (case filter (\<lambda>p. \<not> fs_file fs p) (gate_inputs a) of
        p # _ \<Rightarrow> Inr \<lparr>gr_status = 1, gr_faults = [Missing_Input p], gr_written = None\<rparr>
      | [] \<Rightarrow>
          rbind (load_manifest fs (ga_manifest a)) (\<lambda>vs.
          rbind (parent_rows fs (ga_reject_index a)) (\<lambda>parent_of.
          rbind (check_parents R vs parent_of) (\<lambda>(anchored_parents, e1).
          rbind (load_exceptions fs (ga_exceptions a)) (\<lambda>exceptions.
          rbind (check_one_mutation R keys fs (ga_vector_root a) vs parent_of exceptions) (\<lambda>(distribution, e2).
          rbind (check_published_relation fs (ga_changes a)
                   (case map_of distribution 1 of None \<Rightarrow> 0 | Some n \<Rightarrow> n) (sum_list (map snd distribution)) (length exceptions)) (\<lambda>e3.
          rbind (reject_ids vs) (\<lambda>ids.
            gate_conditions fs a vs (length ids) (e1 @ e2 @ e3)))))))))"

end
