(* ===== verification/Anchor_Laws.thy ===== *)
theory Anchor_Laws
  imports Anchor_Gate
begin

section \<open>What a run of the gate without a fault establishes\<close>

text \<open>
  The faults of a run are only ever added to, so a run that ends without one read back as every
  single check having found nothing; from there each refused vector, each held condition and
  each published figure is followed to the row, the statement or the sentence it is about.
\<close>

subsection \<open>The index of accepted vectors\<close>

definition is_kind :: "string \<Rightarrow> json \<Rightarrow> bool" where
  "is_kind k v \<longleftrightarrow> subscript v ''kind'' = Inr (str k)"

definition row_named :: "runtime \<Rightarrow> ustr \<Rightarrow> json \<Rightarrow> bool" where
  "row_named R vid v \<longleftrightarrow> (case subscript v ''id'' of Inr i \<Rightarrow> py_str R i = vid | Inl _ \<Rightarrow> False)"

definition ships_as_accept :: "runtime \<Rightarrow> json list \<Rightarrow> ustr \<Rightarrow> bool" where
  "ships_as_accept R vs vid \<longleftrightarrow> vector_id vid \<and> list_ex (\<lambda>v. is_kind ''accept'' v \<and> row_named R vid v) vs"

lemma str_eq_iff [simp]: "str a = str b \<longleftrightarrow> a = b"
  by (simp add: str_def)

lemma set_update: "set (AList.update k v xs) \<subseteq> insert (k, v) (set xs)"
  by (induction xs) auto

lemma accept_index_sound:
  assumes "accept_index R vs = Inr (index, errors)" "(p, a) \<in> set index"
  shows "a = p \<and> ships_as_accept R vs p"
proof -
  have "\<forall>(p, a) \<in> set (fst (index, errors)). a = p \<and> ships_as_accept R vs p"
    using assms(1) unfolding accept_index_def
  proof (rule rfold_invariant)
    show "\<forall>(p, a) \<in> set (fst ([], [])). a = p \<and> ships_as_accept R vs p" by simp
    fix s v s'
    assume v: "v \<in> set vs" and i: "\<forall>(p, a) \<in> set (fst s). a = p \<and> ships_as_accept R vs p" and st: "index_accept R s v = Inr s'"
    show "\<forall>(p, a) \<in> set (fst s'). a = p \<and> ships_as_accept R vs p"
    proof (cases "is_kind ''accept'' v \<and> (\<exists>i. subscript v ''id'' = Inr i \<and> vector_id (py_str R i) \<and> map_of (fst s) (py_str R i) = None)")
      case True
      then obtain i where r: "is_kind ''accept'' v" "subscript v ''id'' = Inr i" "vector_id (py_str R i)" "map_of (fst s) (py_str R i) = None"
        by blast
      with st have "fst s' = AList.update (py_str R i) (py_str R i) (fst s)"
        by (auto simp: index_accept_def is_kind_def Let_def split: prod.splits)
      moreover have "ships_as_accept R vs (py_str R i)"
        using r v by (auto simp: ships_as_accept_def list_ex_iff row_named_def)
      ultimately show ?thesis using i set_update [of "py_str R i" "py_str R i" "fst s"] by fastforce
    next
      case False
      with st have "fst s' = fst s"
        by (auto simp: index_accept_def is_kind_def Let_def rbind_eq_Inr split: prod.splits if_splits)
      with i show ?thesis by simp
    qed
  qed
  with assms(2) show ?thesis by auto
qed

lemma shipped_parent:
  assumes "accept_index R vs = Inr (index, errors)" "p \<in> set (map fst index @ map snd index)"
  shows "map_of index p = Some p" "ships_as_accept R vs p"
proof -
  from assms(2) obtain q a where q: "(q, a) \<in> set index" "p = q \<or> p = a" by auto
  with accept_index_sound [OF assms(1)] have p: "(p, p) \<in> set index" "ships_as_accept R vs p" by auto
  then show "ships_as_accept R vs p" by simp
  from weak_map_of_SomeI [OF p(1)] obtain b where "map_of index p = Some b" by blast
  with accept_index_sound [OF assms(1) map_of_SomeD] show "map_of index p = Some p" by fastforce
qed

lemma rmap_member: "rmap f xs = Inr ys \<Longrightarrow> x \<in> set xs \<Longrightarrow> \<exists>y \<in> set ys. f x = Inr y"
  by (induction xs arbitrary: ys) (auto simp: rbind_eq_Inr)

subsection \<open>Refused vectors and the files of the vectors\<close>

lemma reject_id_member: "is_kind ''reject'' v \<Longrightarrow> reject_id v = Inr ids \<Longrightarrow> \<exists>vid. subscript v ''id'' = Inr (JStr vid) \<and> ids = [vid]"
proof -
  assume "is_kind ''reject'' v" "reject_id v = Inr ids"
  then obtain i where "subscript v ''id'' = Inr i" "(case i of JStr vid \<Rightarrow> Inr [vid] | _ \<Rightarrow> Inl TypeError) = Inr ids"
    by (auto simp: reject_id_def is_kind_def rbind_eq_Inr)
  then show ?thesis by (cases i) auto
qed

lemma reject_ids_member:
  assumes "reject_ids vs = Inr ids" "v \<in> set vs" "is_kind ''reject'' v"
  shows "\<exists>vid \<in> set ids. subscript v ''id'' = Inr (JStr vid)"
proof -
  from assms(1) obtain ls where ls: "rmap reject_id vs = Inr ls" "ids = concat ls" by (auto simp: reject_ids_def rbind_eq_Inr)
  from rmap_member [OF ls(1) assms(2)] obtain l where l: "l \<in> set ls" "reject_id v = Inr l" by blast
  from reject_id_member [OF assms(3) l(2)] obtain vid where v: "subscript v ''id'' = Inr (JStr vid)" "l = [vid]" by blast
  with l(1) ls(2) have "vid \<in> set ids" by force
  with v(1) show ?thesis by blast
qed

lemma files_step_keys:
  assumes "rfold (\<lambda>m v. rbind (subscript v ''id'') (\<lambda>i. rbind (subscript v ''file'') (\<lambda>f.
       Inr (AList.update (py_str R i) (py_str R f) m)))) m vs = Inr held"
    and "k \<in> fst ` set m \<or> list_ex (row_named R k) vs"
  shows "k \<in> fst ` set held"
  using assms
proof (induction vs arbitrary: m)
  case (Cons v vs)
  from Cons.prems(1) obtain i f where r: "subscript v ''id'' = Inr i" "subscript v ''file'' = Inr f"
    and h: "rfold (\<lambda>m v. rbind (subscript v ''id'') (\<lambda>i. rbind (subscript v ''file'') (\<lambda>f.
       Inr (AList.update (py_str R i) (py_str R f) m)))) (AList.update (py_str R i) (py_str R f) m) vs = Inr held"
    by (auto simp: rbind_eq_Inr)
  from r(1) have "row_named R k v \<longleftrightarrow> k = py_str R i" by (auto simp: row_named_def)
  with Cons.prems(2) have "k \<in> fst ` set (AList.update (py_str R i) (py_str R f) m) \<or> list_ex (row_named R k) vs"
    by (auto simp: dom_map_of_conv_image_fst [symmetric] update_conv' split: if_splits)
  from Cons.IH [OF h this] show ?case .
qed simp

lemma named_file: "vector_files R vs = Inr held \<Longrightarrow> list_ex (row_named R k) vs \<Longrightarrow> map_of held k \<noteq> None"
  unfolding vector_files_def by (drule files_step_keys) (auto simp: map_of_eq_None_iff)

subsection \<open>Distances\<close>

definition excused :: "(ustr \<times> int) list \<Rightarrow> ustr \<Rightarrow> ustr list \<Rightarrow> bool" where
  "excused exceptions vid paths \<longleftrightarrow>
     (case map_of exceptions vid of None \<Rightarrow> length paths = 1 | Some n \<Rightarrow> length paths \<noteq> 1 \<and> int (length paths) = n)"

lemma note_distance_errors:
  "\<exists>es. ms_errors (note_distance exceptions vid p paths st) = ms_errors st @ es \<and> (es = [] \<longleftrightarrow> excused exceptions vid paths)"
  by (auto simp: note_distance_def excused_def Let_def split: option.splits)

lemma note_distance_counts:
  "ms_distribution (note_distance exceptions vid p paths st) = count_distance (length paths) (ms_distribution st)"
  "ms_seen (note_distance exceptions vid p paths st) = ms_seen st @ (if map_of exceptions vid = None then [] else [vid])"
  by (auto simp: note_distance_def Let_def split: option.splits)

lemma step_errors:
  assumes "mutation_step R keys fs dir held accepts parent_of exceptions st vid = Inr st'"
  shows "\<exists>es. ms_errors st' = ms_errors st @ es"
  using assms note_distance_errors
  by (fastforce simp: mutation_step_def Let_def rbind_eq_Inr split: option.splits if_splits)

lemma steps_errors:
  assumes "rfold (mutation_step R keys fs dir held accepts parent_of exceptions) st ids = Inr st'"
  shows "\<exists>es. ms_errors st' = ms_errors st @ es"
  using assms
proof (induction ids arbitrary: st)
  case (Cons vid ids)
  then obtain st1 where "mutation_step R keys fs dir held accepts parent_of exceptions st vid = Inr st1"
    "rfold (mutation_step R keys fs dir held accepts parent_of exceptions) st1 ids = Inr st'" by (auto simp: rbind_eq_Inr)
  with step_errors [OF this(1)] Cons.IH [OF this(2)] show ?case by auto
qed simp

text \<open>Without a fault every vector on the way was compared and found as far away as declared.\<close>

lemma steps_clean:
  assumes "rfold (mutation_step R keys fs dir held accepts parent_of exceptions) st ids = Inr st'" "ms_errors st' = []"
    and "vid \<in> set ids" "map_of parent_of vid = Some p" "map_of accepts p = Some p" "map_of held p \<noteq> None"
  shows "\<exists>paths. vector_distance R keys fs dir held p vid = Inr paths \<and> excused exceptions vid paths"
  using assms(1-3)
proof (induction ids arbitrary: st)
  case (Cons x ids)
  then obtain st1 where s: "mutation_step R keys fs dir held accepts parent_of exceptions st x = Inr st1"
    "rfold (mutation_step R keys fs dir held accepts parent_of exceptions) st1 ids = Inr st'" by (auto simp: rbind_eq_Inr)
  show ?case
  proof (cases "vid = x")
    case True
    with s(1) assms(4-6) obtain paths where d: "vector_distance R keys fs dir held p vid = Inr paths"
      "st1 = note_distance exceptions vid p paths st"
      by (auto simp: mutation_step_def Let_def rbind_eq_Inr)
    from steps_errors [OF s(2)] Cons.prems(2) have "ms_errors st1 = []" by auto
    with d note_distance_errors [of exceptions vid p paths st] have "excused exceptions vid paths" by auto
    with d(1) show ?thesis by blast
  next
    case False
    with Cons.IH [OF s(2)] Cons.prems(2,3) show ?thesis by simp
  qed
qed simp

text \<open>The distribution adds up: one entry per comparison, at one those without an exception.\<close>

lemma sum_update: "sum_list (map snd (AList.update k ((case map_of d k of None \<Rightarrow> 0 | Some n \<Rightarrow> n) + 1) d)) = sum_list (map snd d) + (1 :: nat)"
  by (induction d) auto

lemma count_distance_sum: "sum_list (map snd (count_distance n d)) = sum_list (map snd d) + 1"
  using sum_update [of n d] by (simp add: count_distance_def)

definition at_distance :: "(nat \<times> nat) list \<Rightarrow> nat \<Rightarrow> nat" where
  "at_distance d n = (case map_of d n of None \<Rightarrow> 0 | Some k \<Rightarrow> k)"

lemma count_distance_at: "at_distance (count_distance n d) m = at_distance d m + (if n = m then 1 else 0)"
  by (simp add: count_distance_def at_distance_def update_conv')

lemma steps_counts:
  assumes "rfold (mutation_step R keys fs dir held accepts parent_of exceptions) st ids = Inr st'" "ms_errors st' = []"
    and "\<And>vid. vid \<in> set ids \<Longrightarrow> \<exists>p. map_of parent_of vid = Some p \<and> map_of accepts p = Some p \<and> map_of held p \<noteq> None"
  shows "sum_list (map snd (ms_distribution st')) = sum_list (map snd (ms_distribution st)) + length ids \<and>
    at_distance (ms_distribution st') 1 = at_distance (ms_distribution st) 1 + length (filter (\<lambda>vid. map_of exceptions vid = None) ids) \<and>
    ms_seen st' = ms_seen st @ filter (\<lambda>vid. map_of exceptions vid \<noteq> None) ids"
  using assms(1,3)
proof (induction ids arbitrary: st)
  case (Cons vid ids)
  then obtain st1 where s: "mutation_step R keys fs dir held accepts parent_of exceptions st vid = Inr st1"
    "rfold (mutation_step R keys fs dir held accepts parent_of exceptions) st1 ids = Inr st'" by (auto simp: rbind_eq_Inr)
  from Cons.prems(2) obtain p where p: "map_of parent_of vid = Some p" "map_of accepts p = Some p" "map_of held p \<noteq> None" by force
  from s(1) p obtain paths where d: "st1 = note_distance exceptions vid p paths st"
    by (auto simp: mutation_step_def Let_def rbind_eq_Inr)
  from steps_errors [OF s(2)] assms(2) have "ms_errors st1 = []" by auto
  with d note_distance_errors [of exceptions vid p paths st] have "excused exceptions vid paths" by auto
  then have n: "length paths = 1 \<longleftrightarrow> map_of exceptions vid = None" by (auto simp: excused_def split: option.splits)
  from Cons.IH [OF s(2)] Cons.prems(2) n show ?case
    unfolding d note_distance_counts count_distance_sum count_distance_at by auto
qed simp

subsection \<open>The checks\<close>

lemma parents_clean:
  assumes "check_parents R vs parent_of = Inr (n, [])" "reject_ids vs = Inr ids"
  obtains index where "accept_index R vs = Inr (index, [])"
    "\<And>vid. vid \<in> set ids \<Longrightarrow>
       \<exists>p. map_of parent_of vid = Some p \<and> map_of index p = Some p \<and> ships_as_accept R vs p"
proof -
  from assms obtain index where i: "accept_index R vs = Inr (index, [])"
    and f: "\<forall>vid \<in> set ids. parent_fault parent_of (map fst index @ map snd index) vid = []"
    by (auto simp: check_parents_def rbind_eq_Inr Let_def)
  have "\<exists>p. map_of parent_of vid = Some p \<and> map_of index p = Some p \<and> ships_as_accept R vs p" if "vid \<in> set ids" for vid
  proof -
    from f that obtain p where "map_of parent_of vid = Some p" "p \<in> set (map fst index @ map snd index)"
      by (fastforce simp: parent_fault_def split: option.splits if_splits)
    with shipped_parent [OF i] show ?thesis by blast
  qed
  with i show thesis by (rule that)
qed

lemma shipped_file: "ships_as_accept R vs p \<Longrightarrow> vector_files R vs = Inr held \<Longrightarrow> map_of held p \<noteq> None"
  by (rule named_file) (auto simp: ships_as_accept_def list_ex_iff)

lemma sort_eq_Nil: "sort xs = [] \<longleftrightarrow> xs = []"
  by (metis length_0_conv length_sort)

lemma mutation_clean:
  assumes "check_one_mutation R keys fs dir vs parent_of exceptions = Inr (spread, [])"
    and "accept_index R vs = Inr (index, [])" "reject_ids vs = Inr ids"
    and "\<And>vid. vid \<in> set ids \<Longrightarrow> \<exists>p. map_of parent_of vid = Some p \<and> map_of index p = Some p \<and> ships_as_accept R vs p"
  obtains held where "vector_files R vs = Inr held"
    "\<And>vid. vid \<in> set ids \<Longrightarrow> \<exists>p paths. map_of parent_of vid = Some p \<and> ships_as_accept R vs p \<and>
       vector_distance R keys fs dir held p vid = Inr paths \<and> excused exceptions vid paths"
    "sum_list (map snd spread) = length ids"
    "at_distance spread 1 = length (filter (\<lambda>vid. map_of exceptions vid = None) ids)"
    "\<And>vid. vid \<in> fst ` set exceptions \<Longrightarrow> vid \<in> set ids"
proof -
  from assms(1-3) obtain held st where h: "vector_files R vs = Inr held"
    and f: "rfold (mutation_step R keys fs dir held index parent_of exceptions)
      \<lparr>ms_distribution = [], ms_seen = [], ms_errors = []\<rparr> (sort ids) = Inr st"
    and e: "spread = ms_distribution st" "ms_errors st = []" "filter (\<lambda>vid. vid \<notin> set (ms_seen st)) (map fst exceptions) = []"
    by (auto simp: check_one_mutation_def rbind_eq_Inr sort_eq_Nil)
  have g: "\<exists>p. map_of parent_of vid = Some p \<and> map_of index p = Some p \<and> map_of held p \<noteq> None" if "vid \<in> set (sort ids)" for vid
    using assms(4) [of vid] that shipped_file [OF _ h] by auto
  note c = steps_counts [OF f e(2) g, simplified]
  have "sort (filter P ids) = filter P (sort ids)" for P by (rule filter_sort [symmetric])
  then have l: "length (filter P (sort ids)) = length (filter P ids)" for P by (metis length_sort)
  show thesis
  proof (rule that [OF h])
    fix vid assume "vid \<in> set ids"
    then obtain p where p: "map_of parent_of vid = Some p" "map_of index p = Some p" "ships_as_accept R vs p" using assms(4) by blast
    with steps_clean [OF f e(2), of vid p] \<open>vid \<in> set ids\<close> shipped_file [OF p(3) h]
    show "\<exists>p paths. map_of parent_of vid = Some p \<and> ships_as_accept R vs p \<and>
       vector_distance R keys fs dir held p vid = Inr paths \<and> excused exceptions vid paths" by auto
  next
    show "sum_list (map snd spread) = length ids" using c e(1) by simp
    show "at_distance spread 1 = length (filter (\<lambda>vid. map_of exceptions vid = None) ids)"
      using c e(1) l by (simp add: at_distance_def)
  next
    fix vid assume "vid \<in> fst ` set exceptions"
    with e(3) have "vid \<in> set (ms_seen st)" by (auto simp: filter_empty_conv)
    with c show "vid \<in> set ids" by auto
  qed
qed

lemma exceptions_need_more: "load_exceptions fs path = Inr exceptions \<Longrightarrow> map_of exceptions vid = Some n \<Longrightarrow> 2 \<le> n"
proof -
  assume l: "load_exceptions fs path = Inr exceptions" "map_of exceptions vid = Some n"
  from l(1) obtain data where "(case data of
      JObj d \<Rightarrow> (case rget d ''vectors'' of JObj rows \<Rightarrow> rmap exception_row rows | _ \<Rightarrow> Inl SystemExit)
    | _ \<Rightarrow> Inl AttributeError) = Inr exceptions"
    by (auto simp: load_exceptions_def rbind_eq_Inr split: if_splits)
  then obtain rows where "rmap exception_row rows = Inr exceptions" by (auto split: json.split_asm)
  note r = this map_of_SomeD [OF l(2)]
  from rmap_results [OF r] obtain m where "exception_row m = Inr (vid, n)" by blast
  then show ?thesis by (auto simp: exception_row_def split: json.splits if_splits)
qed

subsection \<open>The run\<close>

lemma gate_zero:
  assumes "anchor_gate R keys fs a = Inr r" "gr_status r = 0"
  obtains vs parent_of n exceptions spread e1 e2 e3 ids where
    "load_manifest fs (ga_manifest a) = Inr vs" "parent_rows fs (ga_reject_index a) = Inr parent_of"
    "check_parents R vs parent_of = Inr (n, e1)" "load_exceptions fs (ga_exceptions a) = Inr exceptions"
    "check_one_mutation R keys fs (ga_vector_root a) vs parent_of exceptions = Inr (spread, e2)"
    "check_published_relation fs (ga_changes a) (at_distance spread 1) (sum_list (map snd spread)) (length exceptions) = Inr e3"
    "reject_ids vs = Inr ids" "gate_conditions fs a vs (length ids) (e1 @ e2 @ e3) = Inr r"
  using assms
  by (auto simp: anchor_gate_def rbind_eq_Inr at_distance_def split: list.splits)

lemma conditions_zero:
  assumes "gate_conditions fs a vs n errors = Inr r" "gr_status r = 0"
  obtains rejected accepted anchored unanchored e1 was e2 where
    "condition_sides vs = Inr (rejected, accepted)"
    "sort_conditions (filter (\<lambda>c. c \<notin> set accepted) rejected) = Inr unanchored"
    "check_published fs (ga_changes a) n (length unanchored) (length rejected) = Inr e1"
    "load_baseline fs (ga_baseline a) (ga_sync a) = Inr was"
    "check_ratchet was anchored unanchored (ga_sync a) = Inr ([], e2)"
    "\<not> ga_sync a \<Longrightarrow> errors = [] \<and> e1 = [] \<and> e2 = []"
proof -
  from assms(1) obtain rejected accepted anchored unanchored e1 was regressed e2 where c:
    "condition_sides vs = Inr (rejected, accepted)"
    "sort_conditions (filter (\<lambda>c. c \<notin> set accepted) rejected) = Inr unanchored"
    "check_published fs (ga_changes a) n (length unanchored) (length rejected) = Inr e1"
    "load_baseline fs (ga_baseline a) (ga_sync a) = Inr was"
    "check_ratchet was anchored unanchored (ga_sync a) = Inr (regressed, e2)"
    "r = gate_end a regressed anchored unanchored (errors @ e1 @ e2)"
    by (auto simp: gate_conditions_def rbind_eq_Inr)
  have s: "\<not> ga_sync a \<Longrightarrow> errors = [] \<and> e1 = [] \<and> e2 = []" using assms(2) c(6) by (auto simp: gate_end_def split: if_splits)
  have "regressed = []"
  proof (cases "ga_sync a")
    case True
    then show ?thesis using assms(2) c(6) by (auto simp: gate_end_def split: if_splits)
  next
    case False
    with s c(5) show ?thesis by (auto simp: check_ratchet_def rbind_eq_Inr)
  qed
  with c(1-5) s show thesis using that by blast
qed

lemma sort_conditions_set: "sort_conditions ids = Inr cs \<Longrightarrow> set cs = set ids"
proof -
  assume "sort_conditions ids = Inr cs"
  then obtain ks where k: "rmap (\<lambda>c. rbind (condition_key c) (\<lambda>k. Inr (k, c))) ids = Inr ks" "cs = map snd (sort_key fst ks)"
    by (auto simp: sort_conditions_def rbind_eq_Inr)
  from k(1) have "map snd ks = ids" by (induction ids arbitrary: ks) (auto simp: rbind_eq_Inr)
  with k(2) show ?thesis by (metis list.set_map set_sort)
qed

lemma ratchet_holds:
  assumes "check_ratchet was anchored unanchored syncing = Inr ([], e)" "c \<in> set was"
  shows "c \<notin> set unanchored"
proof -
  from assms(1) have "sort_conditions (filter (\<lambda>c. c \<in> set unanchored) (remdups was)) = Inr []"
    by (auto simp: check_ratchet_def rbind_eq_Inr)
  from sort_conditions_set [OF this] assms(2) show ?thesis by auto
qed

definition cites :: "json \<Rightarrow> ustr \<Rightarrow> bool" where
  "cites v c \<longleftrightarrow> (case row_conditions v of Inr cs \<Rightarrow> c \<in> set cs | Inl _ \<Rightarrow> False)"

lemma sides_members:
  assumes "condition_sides vs = Inr (rejected, accepted)"
  shows "c \<in> set rejected \<longleftrightarrow> (\<exists>v \<in> set vs. is_kind ''reject'' v \<and> cites v c)"
    and "c \<in> set accepted \<longleftrightarrow> (\<exists>v \<in> set vs. \<not> is_kind ''reject'' v \<and> cites v c)"
proof -
  let ?f = "\<lambda>v. rbind (row_conditions v) (\<lambda>cs. rbind (subscript v ''kind'') (\<lambda>kind. Inr (kind = str ''reject'', cs)))"
  from assms obtain sides where s: "rmap ?f vs = Inr sides" "set rejected = \<Union> (set ` snd ` set (filter fst sides))"
    "set accepted = \<Union> (set ` snd ` set (filter (\<lambda>s. \<not> fst s) sides))"
    by (auto simp: condition_sides_def rbind_eq_Inr Let_def split: if_splits)
  have f: "?f v = Inr (b, cs) \<longleftrightarrow> row_conditions v = Inr cs \<and> (\<exists>k. subscript v ''kind'' = Inr k \<and> b = (k = str ''reject''))" for v b cs
    by (auto simp: rbind_eq_Inr)
  have m: "(\<exists>(b, cs) \<in> set sides. Q b cs) \<longleftrightarrow> (\<exists>v \<in> set vs. \<exists>b cs. ?f v = Inr (b, cs) \<and> Q b cs)" for Q
    using rmap_results [OF s(1)] rmap_member [OF s(1)] by fastforce
  show "c \<in> set rejected \<longleftrightarrow> (\<exists>v \<in> set vs. is_kind ''reject'' v \<and> cites v c)"
    using m [of "\<lambda>b cs. b \<and> c \<in> set cs"] rmap_member [OF s(1)]
    by (fastforce simp: s(2) f is_kind_def cites_def split: sum.splits)
  have k: "\<exists>k cs. subscript v ''kind'' = Inr k \<and> row_conditions v = Inr cs" if "v \<in> set vs" for v
    using rmap_member [OF s(1) that] by (auto simp: rbind_eq_Inr)
  have "c \<in> set accepted \<longleftrightarrow> (\<exists>(b, cs) \<in> set sides. \<not> b \<and> c \<in> set cs)" unfolding s(3) by force
  then show "c \<in> set accepted \<longleftrightarrow> (\<exists>v \<in> set vs. \<not> is_kind ''reject'' v \<and> cites v c)"
    unfolding m f by (rule trans) (rule bex_cong [OF refl], use k in \<open>force simp: is_kind_def cites_def\<close>)
qed

text \<open>The figures of a claim that raised no fault are the measured ones.\<close>

definition publishes :: "ustr \<Rightarrow> claim \<Rightarrow> nat list \<Rightarrow> bool" where
  "publishes text claim ns \<longleftrightarrow>
     (case search_tokens (claim_tokens claim) text of None \<Rightarrow> False | Some gs \<Rightarrow> rmap read_decimal gs = Inr ns)"

lemma claim_clean: "check_claim text claim ns = Inr [] \<Longrightarrow> publishes text claim ns"
  by (auto simp: check_claim_def publishes_def rbind_eq_Inr split: option.splits if_splits)

end
