(* ===== verification/Anchor_Properties.thy ===== *)
theory Anchor_Properties
  imports Anchor_Laws Binding_Properties
begin

section \<open>Properties of the accept-anchor gate\<close>

text \<open>
  What status zero of the gate means for the refused vectors, for the conditions the baseline
  holds and for the published figures, on a corpus of two vectors; and what it does not mean
  when the baseline is rewritten.
\<close>

subsection \<open>A corpus of two vectors\<close>

definition anchor_args :: "bool \<Rightarrow> gate_args" where
  "anchor_args sync =
     \<lparr>ga_manifest = lit ''M'', ga_reject_index = lit ''I'', ga_baseline = lit ''B'', ga_changes = lit ''C'',
      ga_exceptions = lit ''X'', ga_vector_root = lit ''v'', ga_sync = sync\<rparr>"

definition anchor_manifest :: string where
  "anchor_manifest = ''{\"vectors\":[{\"id\":\"v0000000000000000\",\"kind\":\"accept\",\"file\":\"a\",\"conditions\":[\"aee-c-1\"]},'' @
     ''{\"id\":\"v1111111111111111\",\"kind\":\"reject\",\"file\":\"r\",\"conditions\":[\"aee-c-1\"]}]}''"

definition anchor_changes :: string where
  "anchor_changes = ''all 1 reject vectors declare a parent. That second number is 0 of 1 today, and '' @
     ''**1 of the 1 reject vectors are now exactly one mutation from their declared parent**. '' @
     ''The remaining 0 cannot express their declared fault.''"

definition anchor_row :: string where
  "anchor_row = ''| `v1111111111111111` | `v0000000000000000` | x |''"

definition anchor_disk :: "string \<Rightarrow> string \<Rightarrow> files" where
  "anchor_disk row refused =
     disk [(''M'', anchor_manifest), (''I'', row), (''B'', ''{\"anchored\":[\"aee-c-1\"]}''), (''C'', anchor_changes),
       (''X'', ''{\"vectors\":{}}''), (''v/a'', ''{\"a\":1}''), (''v/r'', refused)]"

definition anchor_rows :: "json list" where
  "anchor_rows =
     [obj [(''id'', str ''v0000000000000000''), (''kind'', str ''accept''), (''file'', str ''a''), (''conditions'', JArr [str ''aee-c-1''])],
      obj [(''id'', str ''v1111111111111111''), (''kind'', str ''reject''), (''file'', str ''r''), (''conditions'', JArr [str ''aee-c-1''])]]"

definition anchor_parents :: "(ustr \<times> ustr) list" where
  "anchor_parents = [(lit ''v1111111111111111'', lit ''v0000000000000000'')]"

definition anchor_held :: "(ustr \<times> ustr) list" where
  "anchor_held = [(lit ''v0000000000000000'', lit ''a''), (lit ''v1111111111111111'', lit ''r'')]"

abbreviation one_edit :: files where
  "one_edit \<equiv> anchor_disk anchor_row ''{\"a\":2}''"

lemma corpus_inputs:
  "load_manifest one_edit (lit ''M'') = Inr anchor_rows" "parent_rows one_edit (lit ''I'') = Inr anchor_parents"
  "load_exceptions one_edit (lit ''X'') = Inr []" "vector_files toy anchor_rows = Inr anchor_held"
  "load_baseline one_edit (lit ''B'') False = Inr [lit ''aee-c-1'']"
  "read_text one_edit (lit ''C'') = Inr (lit anchor_changes)"
  by code_simp+

lemma corpus_run:
  "anchor_gate toy [] one_edit (anchor_args False) = Inr \<lparr>gr_status = 0, gr_faults = [], gr_written = None\<rparr>"
  by code_simp

lemma corpus_args:
  "ga_manifest (anchor_args b) = lit ''M''" "ga_reject_index (anchor_args b) = lit ''I''" "ga_baseline (anchor_args b) = lit ''B''"
  "ga_changes (anchor_args b) = lit ''C''" "ga_exceptions (anchor_args b) = lit ''X''" "ga_vector_root (anchor_args b) = lit ''v''"
  "ga_sync (anchor_args b) = b"
  by (simp_all add: anchor_args_def)

lemma corpus_read:
  "load_manifest one_edit (ga_manifest (anchor_args False)) = Inr anchor_rows"
  "parent_rows one_edit (ga_reject_index (anchor_args False)) = Inr anchor_parents"
  "load_exceptions one_edit (ga_exceptions (anchor_args False)) = Inr []"
  "load_baseline one_edit (ga_baseline (anchor_args False)) (ga_sync (anchor_args False)) = Inr [lit ''aee-c-1'']"
  "read_text one_edit (ga_changes (anchor_args False)) = Inr (lit anchor_changes)"
  by (simp_all add: corpus_args corpus_inputs)

lemma corpus_refusal: "anchor_rows ! 1 \<in> set anchor_rows" "is_kind ''reject'' (anchor_rows ! 1)"
  by (simp_all add: anchor_rows_def) code_simp

subsection \<open>Refused vectors\<close>



subsection \<open>Conditions\<close>

text \<open>C38: when the gate ends with status zero, with or without rewriting the baseline, every
  condition the baseline holds and a refused vector cites is still cited by a vector of the
  manifest that is not refused.\<close>

theorem ratchet_never_unanchors:
  assumes "anchor_gate R keys fs a = Inr r" "gr_status r = 0"
    and "load_manifest fs (ga_manifest a) = Inr vs" "load_baseline fs (ga_baseline a) (ga_sync a) = Inr was"
    and "c \<in> set was" "v \<in> set vs" "is_kind ''reject'' v" "cites v c"
  shows "\<exists>w \<in> set vs. \<not> is_kind ''reject'' w \<and> cites w c"
proof -
  from gate_zero [OF assms(1,2)] assms(3) obtain n errors where "gate_conditions fs a vs n errors = Inr r"
    by (metis sum.inject(2))
  from conditions_zero [OF this assms(2)] assms(4) obtain rejected accepted anchored unanchored e where
    s: "condition_sides vs = Inr (rejected, accepted)" "sort_conditions (filter (\<lambda>c. c \<notin> set accepted) rejected) = Inr unanchored"
      "check_ratchet was anchored unanchored (ga_sync a) = Inr ([], e)" by (metis sum.inject(2))
  from sides_members(1) [OF s(1)] assms(6-8) have "c \<in> set rejected" by blast
  with ratchet_holds [OF s(3) assms(5)] sort_conditions_set [OF s(2)] have "c \<in> set accepted" by auto
  with sides_members(2) [OF s(1)] show ?thesis by blast
qed

lemma corpus_cites: "cites (anchor_rows ! 1) (lit ''aee-c-1'')"
  by code_simp

theorem ratchet_never_unanchors_witness:
  "\<exists>w \<in> set anchor_rows. \<not> is_kind ''reject'' w \<and> cites w (lit ''aee-c-1'')"
  using ratchet_never_unanchors [OF corpus_run _ corpus_read(1,4) _ corpus_refusal corpus_cites] by simp

subsection \<open>Published figures\<close>




subsection \<open>What status zero does not mean\<close>

text \<open>
  Rewriting the baseline ends with status zero over a refused vector whose parent does not
  ship; the same corpus ends with status one otherwise.
\<close>

definition no_parent_row :: string where
  "no_parent_row = ''| `v1111111111111111` | none |''"

lemma sync_hides_faults:
  "map_sum id gr_status (anchor_gate toy [] (anchor_disk no_parent_row ''{\"a\":2}'') (anchor_args True)) = Inr 0"
  "map_sum id gr_status (anchor_gate toy [] (anchor_disk no_parent_row ''{\"a\":2}'') (anchor_args False)) = Inr 1"
  by code_simp+

text \<open>
  The index of accepted vectors refuses two accepted rows with one identifier.  A row of another
  kind may repeat it: the comparison then reads that row's file, and the run ends with status
  zero although the refused statement is two mutations away from the accepted one.
\<close>

definition borrowed_manifest :: string where
  "borrowed_manifest = ''{\"vectors\":[{\"id\":\"v0000000000000000\",\"kind\":\"accept\",\"file\":\"a\",\"conditions\":[\"aee-c-1\"]},'' @
     ''{\"id\":\"v0000000000000000\",\"kind\":\"indeterminate\",\"file\":\"b\"},'' @
     ''{\"id\":\"v1111111111111111\",\"kind\":\"reject\",\"file\":\"r\",\"conditions\":[\"aee-c-1\"]}]}''"

definition borrowed_disk :: files where
  "borrowed_disk =
     disk [(''M'', borrowed_manifest), (''I'', anchor_row), (''B'', ''{\"anchored\":[\"aee-c-1\"]}''), (''C'', anchor_changes),
       (''X'', ''{\"vectors\":{}}''), (''v/a'', ''{\"z\":0}''), (''v/b'', ''{\"a\":1}''), (''v/r'', ''{\"a\":2}'')]"

lemma borrowed_identifier:
  "map_sum id gr_status (anchor_gate toy [] borrowed_disk (anchor_args False)) = Inr 0"
  "vector_distance toy [] borrowed_disk (lit ''v'') [(lit ''p'', lit ''a''), (lit ''q'', lit ''r'')] (lit ''p'') (lit ''q'') =
     Inr [lit ''z'', lit ''a'']"
  by code_simp+

end
