(* ===== verification/Run_Record.thy ===== *)
theory Run_Record
  imports Binding_Manifest
begin

section \<open>The cross-run record contract\<close>

text \<open>
  \<open>vectors-mcp-record-contract/check_run_record.py\<close>: whether a record of a cross-run carries
  the four inputs a third party needs to redo it, whether its figure agrees with its counting
  rule, and whether its independence is declared.  A message is a constructor with the number
  of the side it is about.  The sum of the unscored counts is an argument when a float is among
  them, since \<open>sum\<close> compensates its rounding; the sums of integers are exact.
\<close>

subsection \<open>One side\<close>

definition hex_run :: "nat \<Rightarrow> ustr \<Rightarrow> bool" where
  "hex_run n s \<longleftrightarrow> length s = n \<and> list_all is_hex_lower s"

text \<open>\<open>IMMUTABLE\<close>; stripped text does not end in a line feed, so \<open>$\<close> is the end of the string.\<close>

definition immutable_text :: "ustr \<Rightarrow> bool" where
  "immutable_text s \<longleftrightarrow>
     hex_run 40 s \<or> hex_run 64 s \<or> (starts_with (lit ''sha256:'') s \<and> hex_run 64 (drop 7 s))"

definition immutable_ref :: "json \<Rightarrow> bool" where
  "immutable_ref v \<longleftrightarrow> (case v of JStr s \<Rightarrow> immutable_text (str_strip s) | _ \<Rightarrow> False)"

datatype lack =
    No_Side
  | Inputs_Unpinned nat
  | Runner_Unpinned nat
  | No_Invocation nat
  | Output_Without_Digest nat
  | Output_Unpublished nat

definition blank_invocation :: "json \<Rightarrow> bool" where
  "blank_invocation v \<longleftrightarrow> (case v of JStr s \<Rightarrow> str_strip s = [] | _ \<Rightarrow> True)"

definition side_lacks :: "nat \<Rightarrow> dict \<Rightarrow> dict \<Rightarrow> json \<Rightarrow> dict \<Rightarrow> lack list" where
  "side_lacks i inputs runner invocation output =
     (if \<not> immutable_ref (rget inputs ''ref'') then [Inputs_Unpinned i] else []) @
     (if \<not> immutable_ref (rget runner ''ref'') \<and> \<not> immutable_ref (rget runner ''digest'') then [Runner_Unpinned i] else []) @
     (if blank_invocation invocation then [No_Invocation i] else []) @
     (if \<not> immutable_ref (rget output ''digest'') then [Output_Without_Digest i]
      else if \<not> truthy (rget output ''published'') then [Output_Unpublished i] else [])"

definition check_side :: "nat \<times> json \<Rightarrow> lack list res" where
  "check_side m =
     (case m of (i, v) \<Rightarrow>
        (case v of
           JObj side \<Rightarrow>
             rbind (dict_or_empty (rget side ''inputs'')) (\<lambda>inputs.
             rbind (dict_or_empty (rget side ''runner'')) (\<lambda>runner.
             rbind (dict_or_empty (rget side ''output'')) (\<lambda>output.
               Inr (side_lacks i inputs runner (rget side ''invocation'') output))))
         | _ \<Rightarrow> Inl AttributeError))"

subsection \<open>The figure\<close>

datatype remark =
    No_Counting_Rule
  | Figure_Unbalanced
  | Headline_Overstates
  | Independence_Undeclared
  | Self_Report_Stated
  | No_Environment nat

text \<open>The value of what \<open>isinstance(v, int)\<close> accepts; a boolean is zero or one.\<close>

fun int_of :: "json \<Rightarrow> int option" where
  "int_of (JInt i) = Some i"
| "int_of (JBool b) = Some (if b then 1 else 0)"
| "int_of _ = None"

text \<open>\<open>str\<close> of such a value.\<close>

fun int_format :: "json \<Rightarrow> ustr res" where
  "int_format (JInt i) = int_text i"
| "int_format (JBool b) = Inr (if b then lit ''True'' else lit ''False'')"
| "int_format _ = Inr []"

text \<open>The counts of the unscored entries, in the order \<open>sum\<close> takes them.\<close>

definition entry_count :: "json list \<Rightarrow> json \<Rightarrow> json list res" where
  "entry_count counts entry =
     (case entry of
        JObj e \<Rightarrow>
          let c = (if rhas e ''count'' then rget e ''count'' else JInt 0) in
          if num_of c = None then Inl TypeError else Inr (counts @ [c])
      | _ \<Rightarrow> Inl AttributeError)"

definition withheld_counts :: "dict \<Rightarrow> json list res" where
  "withheld_counts figure = rbind (iter_or_empty (rget figure ''notScored'')) (rfold entry_count [])"

definition exact_sum :: "json list \<Rightarrow> int" where
  "exact_sum counts = sum_list (map (\<lambda>c. case int_of c of None \<Rightarrow> 0 | Some n \<Rightarrow> n) counts)"

text \<open>\<open>scored + withheld != total\<close>; the message formats the three numbers.\<close>

definition check_balance :: "(int \<Rightarrow> json list \<Rightarrow> int \<Rightarrow> bool) \<Rightarrow> json \<Rightarrow> json list \<Rightarrow> json \<Rightarrow> remark list res" where
  "check_balance adds_up scored counts held =
     (case (int_of scored, int_of held) of
        (Some s, Some t) \<Rightarrow>
          if list_ex (\<lambda>c. int_of c = None) counts
          then Inr (if adds_up s counts t then [] else [Figure_Unbalanced])
          else if s + exact_sum counts = t then Inr []
          else rbind (int_format scored) (\<lambda>_. rbind (int_format held) (\<lambda>_. rbind (int_text (exact_sum counts)) (\<lambda>_.
                 Inr [Figure_Unbalanced])))
      | _ \<Rightarrow> Inr [])"

definition check_headline :: "json \<Rightarrow> json \<Rightarrow> json \<Rightarrow> remark list res" where
  "check_headline scored held headline =
     (case (int_of scored, int_of held) of
        (Some s, Some t) \<Rightarrow>
          if s = t then Inr []
          else rbind (int_format held) (\<lambda>n.
            if headline \<noteq> JStr (n @ lit '' of '' @ n) then Inr []
            else rbind (int_format scored) (\<lambda>_. Inr [Headline_Overstates]))
      | _ \<Rightarrow> Inr [])"

text \<open>Whether the figure is honest, and the notes; it is honest when there is none.\<close>

definition check_figure :: "(int \<Rightarrow> json list \<Rightarrow> int \<Rightarrow> bool) \<Rightarrow> dict \<Rightarrow> (bool \<times> remark list) res" where
  "check_figure adds_up figure =
     (if figure \<noteq> [] \<and> \<not> truthy (rget figure ''countingRule'') then Inr (False, [No_Counting_Rule])
      else if figure = [] then Inr (True, [])
      else rbind (withheld_counts figure) (\<lambda>counts.
           rbind (check_balance adds_up (rget figure ''scored'') counts (rget figure ''total'')) (\<lambda>n1.
           rbind (check_headline (rget figure ''scored'') (rget figure ''total'') (rget figure ''headline'')) (\<lambda>n2.
             Inr (n1 @ n2 = [], n1 @ n2)))))"

subsection \<open>Independence and the record\<close>

datatype stance = Undeclared | Self_Report | Independent

definition check_independence :: "dict \<Rightarrow> stance \<times> remark list" where
  "check_independence independence =
     (if \<not> truthy (rget independence ''declared'') then (Undeclared, [Independence_Undeclared])
      else if truthy (rget independence ''runnerAuthoredInputs'') then (Self_Report, [Self_Report_Stated])
      else (Independent, []))"

record record_verdict =
  rv_recheckable :: bool
  rv_figure_honest :: bool
  rv_stance :: stance
  rv_missing :: "lack list"
  rv_notes :: "remark list"

definition environment_notes :: "nat \<times> json \<Rightarrow> remark list" where
  "environment_notes m = (if truthy (rget (the_obj (snd m)) ''environment'') then [] else [No_Environment (fst m)])"

definition check_record :: "(int \<Rightarrow> json list \<Rightarrow> int \<Rightarrow> bool) \<Rightarrow> json \<Rightarrow> record_verdict res" where
  "check_record adds_up record =
     (case record of
        JObj r \<Rightarrow>
          rbind (iter_or_empty (rget r ''sides'')) (\<lambda>sides.
          rbind (rmap check_side (enumerate 1 sides)) (\<lambda>lacks.
          let missing = (if sides = [] then [No_Side] else []) @ concat lacks in
          rbind (dict_or_empty (rget r ''figure'')) (\<lambda>figure.
          rbind (check_figure adds_up figure) (\<lambda>(honest, n1).
          rbind (dict_or_empty (rget r ''independence'')) (\<lambda>independence.
          let stance = check_independence independence in
            Inr \<lparr>rv_recheckable = (missing = []), rv_figure_honest = honest, rv_stance = fst stance, rv_missing = missing,
                 rv_notes = n1 @ snd stance @ concat (map environment_notes (enumerate 1 sides))\<rparr>)))))
      | _ \<Rightarrow> Inl AttributeError)"

subsection \<open>The run\<close>

definition acceptable :: "record_verdict \<Rightarrow> bool" where
  "acceptable v \<longleftrightarrow> rv_recheckable v \<and> rv_figure_honest v \<and> rv_stance v \<noteq> Undeclared"

text \<open>\<open>main\<close> over the paths of the command line; the two ways of printing end with one status.\<close>

definition check_run_records :: "(int \<Rightarrow> json list \<Rightarrow> int \<Rightarrow> bool) \<Rightarrow> files \<Rightarrow> ustr list \<Rightarrow> nat res" where
  "check_run_records adds_up fs paths =
     rbind (rmap (\<lambda>p. rbind (load_json fs p) (check_record adds_up)) paths) (\<lambda>vs.
       Inr (if list_all acceptable vs then 0 else 1))"

subsection \<open>The contract\<close>

text \<open>What the document behind the checker asks of a record, side by side.\<close>

definition part :: "json \<Rightarrow> string \<Rightarrow> string \<Rightarrow> json" where
  "part v a b = rget (the_obj (rget (the_obj v) a)) b"

definition side_rechecks :: "json \<Rightarrow> bool" where
  "side_rechecks v \<longleftrightarrow>
     immutable_ref (part v ''inputs'' ''ref'') \<and>
     (immutable_ref (part v ''runner'' ''ref'') \<or> immutable_ref (part v ''runner'' ''digest'')) \<and>
     (\<exists>s. rget (the_obj v) ''invocation'' = JStr s \<and> \<not> list_all is_space s) \<and>
     immutable_ref (part v ''output'' ''digest'') \<and> truthy (part v ''output'' ''published'')"

definition figure_counts :: "dict \<Rightarrow> json list" where
  "figure_counts figure =
     map (\<lambda>e. if rhas (the_obj e) ''count'' then rget (the_obj e) ''count'' else JInt 0) (the_arr (rget figure ''notScored''))"

definition figure_rule :: "(int \<Rightarrow> json list \<Rightarrow> int \<Rightarrow> bool) \<Rightarrow> dict \<Rightarrow> bool" where
  "figure_rule adds_up figure \<longleftrightarrow>
     figure = [] \<or>
     truthy (rget figure ''countingRule'') \<and>
     (\<forall>s t. int_of (rget figure ''scored'') = Some s \<longrightarrow> int_of (rget figure ''total'') = Some t \<longrightarrow>
        (if list_ex (\<lambda>c. int_of c = None) (figure_counts figure) then adds_up s (figure_counts figure) t
         else s + exact_sum (figure_counts figure) = t) \<and>
        (s \<noteq> t \<longrightarrow> (\<forall>n. int_format (rget figure ''total'') = Inr n \<longrightarrow> rget figure ''headline'' \<noteq> JStr (n @ lit '' of '' @ n))))"

definition record_contract :: "(int \<Rightarrow> json list \<Rightarrow> int \<Rightarrow> bool) \<Rightarrow> json \<Rightarrow> bool" where
  "record_contract adds_up v \<longleftrightarrow>
     the_arr (rget (the_obj v) ''sides'') \<noteq> [] \<and> list_all side_rechecks (the_arr (rget (the_obj v) ''sides'')) \<and>
     figure_rule adds_up (the_obj (rget (the_obj v) ''figure'')) \<and> truthy (part v ''independence'' ''declared'')"

end
