(* ===== verification/Run_Record_Properties.thy ===== *)
theory Run_Record_Properties
  imports Run_Record Binding_Properties
begin

section \<open>Properties of the cross-run record contract\<close>

text \<open>
  The checker ends with status zero exactly on records that meet the contract its document
  states; and what the check of a figure does not look at.
\<close>

subsection \<open>Falsy values\<close>




subsection \<open>Sides and figures\<close>









subsection \<open>The contract\<close>

definition pinned_hex :: string where
  "pinned_hex = ''0123456789abcdef0123456789abcdef01234567''"

definition run_record :: "string \<Rightarrow> string" where
  "run_record figure =
     ''{\"sides\":[{\"inputs\":{\"ref\":\"'' @ pinned_hex @ ''\"},\"runner\":{\"ref\":\"'' @ pinned_hex @
     ''\"},\"invocation\":\"run\",\"output\":{\"digest\":\"'' @ pinned_hex @ ''\",\"published\":true}}],\"figure\":'' @ figure @
     '',\"independence\":{\"declared\":true}}''"



definition record_disk :: "string \<Rightarrow> files" where
  "record_disk figure = disk [(''r'', run_record figure)]"



subsection \<open>What the figure check does not see\<close>

text \<open>
  A figure that states a counting rule and gives no integer as its scored or total number is
  honest whatever its headline; so is one whose negative count makes a larger score add up.
\<close>

lemma headline_unseen:
  assumes "truthy (rget figure ''countingRule'')" "int_of (rget figure ''scored'') = None" "withheld_counts figure = Inr counts"
  shows "check_figure adds_up figure = Inr (True, [])"
  using assms by (simp add: check_figure_def check_balance_def check_headline_def)

lemma unscored_headline:
  "check_run_records (\<lambda>_ _ _. False) (record_disk ''{\"countingRule\":\"c\",\"headline\":\"24 of 24\"}'') [lit ''r''] = Inr 0"
  "check_run_records (\<lambda>_ _ _. False)
     (record_disk ''{\"countingRule\":\"c\",\"scored\":24,\"total\":18,\"notScored\":[{\"count\":-6}],\"headline\":\"24 of 24\"}'') [lit ''r''] = Inr 0"
  by code_simp+

end
