(* ===== verification/Spec2Isabelle.thy ===== *)
theory Spec2Isabelle
  imports Codec_Properties Verdict_Properties Suite_Properties Inclusion_Properties Binding_Properties Mutation_Properties Anchor_Properties
    Run_Record_Properties
begin

text \<open>
  Verification of the conformance suite for adversarial-execution evidence: the reference
  verifier and its harness (\<open>packaging/run_vectors.py\<close>), the inclusion proofs of
  \<open>vectors-scitt-cose\<close>, the artifact-binding tool (\<open>tools/artifact-binding\<close>), the
  one-mutation relation between a refused vector and its accepted parent
  (\<open>scripts/mutationdiff.py\<close>), the gate that holds the corpus to it
  (\<open>scripts/accept-anchor-gate.py\<close>) and the checker of cross-run records
  (\<open>vectors-mcp-record-contract/check_run_record.py\<close>).

  \<^bold>\<open>The program.\<close> A statement is a JSON document that claims how an artifact behaved under
  attack.  The verifier decodes it, runs a fixed sequence of checks that add failure codes to
  an outcome, and, when there is none, grades every row with an evidence tier.  The statement
  may carry signed observation records; a row of substrate basis must rest on records that
  bind to the statement's run.  The harness loads the vectors a manifest declares, obtains an
  observation of each from the verifier or from an external command, scores it against the
  declared answer and turns the totals into an exit status.  Separately, the binding tool
  builds, signs, verifies and regrades a record of the files of one trial, and the one-mutation
  relation measures by how many edits two statements differ; the accept-anchor gate refuses a
  corpus in which a refused vector is not one edit from the accepted vector it names.  The
  checker of cross-run records says whether a third party could redo a published run.

  \<^bold>\<open>Values.\<close> \<open>Py_Prelude\<close> holds what all of it shares.  A Python string is the list of its code
  points, bytes the list of byte values, a dict the association list of its items in insertion
  order, and what \<open>json.loads\<close> returns a value of type \<open>json\<close>.  A function that may raise
  returns \<open>exn + 'a\<close>, and \<open>Inl\<close> is an exception no handler takes.  Python's integers are
  unbounded and so are the model's; the words of the two hashes are words.  A finite float is
  the rational it denotes, rounded as the interpreter rounds; the sign of a zero float is not
  represented.

  \<^bold>\<open>Theories and code.\<close>
  \<^item> \<open>Py_Text\<close>, \<open>Py_Codec\<close>, \<open>Py_Lines\<close>, \<open>Json_Text\<close>: UTF-8 and UTF-16, hexadecimal and base64,
    \<open>str.splitlines\<close>, and the decoder \<open>json.loads\<close> with its hooks.
  \<^item> \<open>Jcs\<close>, \<open>String_Scalars\<close>, \<open>Ijson\<close>, \<open>Ijson_Laws\<close>: \<open>jcs_dumps\<close>, \<open>check_string_scalars\<close>,
    \<open>strict_payload_parse\<close> and \<open>_statement_strict_fault\<close>; which bytes are accepted, with which value.
  \<^item> \<open>Sha2\<close>, \<open>Merkle\<close>, \<open>Ed25519\<close>, \<open>Timestamps\<close>: \<open>pae\<close>, \<open>merkle_root_hex\<close>, the signature scheme over
    an argument that \<open>Sha2\<close> provides, and the timestamp grammar.  What the proofs need of a
    hash is the locale \<open>hash_function\<close>, interpreted on SHA-256.
  \<^item> \<open>Records\<close>, \<open>Gate0\<close>, \<open>Gate1\<close>, \<open>Commitments\<close>: \<open>RecordView\<close> and \<open>ReferenceVerifier.verify\<close> with each
    method it calls.  \<open>vstate\<close> is \<open>_VerifyState\<close>, \<open>outcome\<close> is \<open>Outcome\<close>, and a check maps a pair of
    both to a pair of both.
  \<^item> \<open>Growth\<close>, \<open>Gate0_Laws\<close>, \<open>Coverage_Laws\<close>, \<open>Gate1_Laws\<close>, \<open>Commitment_Laws\<close>, \<open>Verifier_Laws\<close>, \<open>Verdict_Laws\<close>:
    checks only add codes (locale \<open>check\<close>), so an empty list of codes reads back as the
    conjunction \<open>valid_run\<close> of every rule, from which the properties of a valid verdict follow.
  \<^item> \<open>Registry\<close>, \<open>Evaluation\<close>, \<open>External_Rail\<close>, \<open>Closure\<close>, \<open>Suite\<close> with \<open>Harness_Laws\<close> and \<open>Closure_Laws\<close>: code
    families and the second-fault check, \<open>evaluate_vector_detailed\<close>, the external command, the
    manifest closure, and \<open>run_suite\<close>.
  \<^item> \<open>Inclusion_Proof\<close>: \<open>mth\<close> and \<open>inclusion_path\<close> of the generator, \<open>apply_inclusion_proof\<close> of the checker.
  \<^item> \<open>Binding_Codec\<close>, \<open>Binding_Manifest\<close>, \<open>Binding_Verify\<close>: \<open>jcs.py\<close>, \<open>manifest.py\<close>, and \<open>verify.py\<close> with
    \<open>sign.py\<close>, \<open>regrade.py\<close> and the commands of \<open>aee_bind.py\<close>.  \<open>Binding_Numbers\<close> shows that whole floats
    are written as integers, \<open>Binding_Laws\<close> and \<open>Lineage_Laws\<close> take verification and lineage apart into
    stages, \<open>Binding_Round_Trip\<close> follows a record from \<open>cmd_build\<close> to \<open>verify_record\<close>.
  \<^item> \<open>Json_Dumps\<close>, \<open>Sequence_Matcher\<close>, \<open>Mutation_Marks\<close>, \<open>Mutation_Paths\<close>: \<open>json.dumps\<close> and \<open>json.loads\<close> of
    bytes, \<open>difflib.SequenceMatcher\<close> (locale \<open>alignment\<close>), and the two halves of \<open>mutationdiff.py\<close>.
    \<open>Mutation_Walk\<close> relates the walk to canonical text, \<open>Mutation_Laws\<close> the restated derivations to
    the verifier's, \<open>Mutation_Preimage\<close> lifts both to whole statements.
  \<^item> \<open>Anchor_Inputs\<close>, \<open>Anchor_Gate\<close>: what \<open>accept-anchor-gate.py\<close> reads, with its regular expressions as
    the matching they do, and its checks with \<open>main\<close> (\<open>anchor_gate\<close>).  \<open>Anchor_Laws\<close> reads a run without
    a fault back as what each check established.
  \<^item> \<open>Run_Record\<close>: \<open>check_record\<close> and \<open>main\<close> of \<open>check_run_record.py\<close>, with the contract of its document.
  \<^item> \<open>Examples\<close> holds the statements the witnesses run on; the theories named \<open>Properties\<close> and this one
    hold the properties, each under its number.

  \<^bold>\<open>What is proved.\<close> What a valid verdict establishes (result, row evidence, tiers, roots,
  coverage, claims of \<open>pass\<close>) and that keys reach one column only; the exact language of the
  strict parser and the canonical form with its round trip; injectivity of the encodings up to
  a hash collision that is exhibited among the strings hashed; the scoring rules and what an
  exit status of zero means; that audit paths verify and bind; that a built record verifies,
  what a verified record and a lineage establish; that the one-mutation relation misses no
  difference, invents none and derives what the verifier derives; that status zero of the
  gate pairs every refused vector with a shipped accepted one; that a run record passes exactly
  when it meets its contract.  Where the code does not do
  what it means to, the divergence is a theorem when it can be stated over the model, and is
  listed with the line it is on in the manifest of the development.

  \<^bold>\<open>Bounds and fuel.\<close> The JSON decoder runs on twice the length of the text plus one, which
  \<open>parse_fuel\<close> shows to be enough; the search for the shortest decimal tries 17 digits, the
  known bound for doubles; everything else recurs on a measure.  The code's own bounds
  (depth 128, 20 and 64 MiB, 4300 digits) are constants of the model.

  \<^bold>\<open>Arguments of the model.\<close> The hash, the signature check and \<open>repr\<close> (\<open>runtime\<close>), \<open>float\<close> of a
  string (\<open>tool\<close>), the public key of a seed, the directory tree and the files of a trial, the
  clock, what a spawned process returns, and the test whether a figure adds up when a
  float is among its counts.  The theories say where each enters; a property
  that needs a law of one states it as a hypothesis and has a witness.

  \<^bold>\<open>Not modelled.\<close> The interpreter's recursion limit; the text of messages beside the codes;
  symbolic links beyond what the builder resolves; argument parsing, printing and the report
  file of the command lines; the self-test; the COSE envelopes, which go through third-party
  libraries; the generators of the vectors and the other gates over the repository's documents,
  which decide nothing about a statement; the Go implementation.
\<close>

section \<open>What a valid verdict establishes\<close>



text \<open>The recompute, a minimum over three candidates in the code, is a decision list: any
  row that is unregistered, caught or of an unknown basis, method or attribution forces
  \<open>fail\<close>; else anything out of scope or routed elsewhere gives \<open>degraded\<close>; else any row that
  is not an intercepted substrate row gives \<open>pass_indirect\<close>; else \<open>pass\<close>.\<close>

theorem recompute_decision_list:
  "recompute rs ls ca cov =
     (if list_ex (row_forces_fail ls ca) rs then ''fail''
      else if truthy (rget (the_obj cov) ''outOfScope'') \<or> truthy (rget (the_obj cov) ''routedElsewhere'') then ''degraded''
      else if list_ex (row_indirect ls ca) rs then ''pass_indirect'' else ''pass'')"
  by (rule recompute_eq)

text \<open>C3: in a valid statement that carries records, every record decodes, carries a signature
  and has its own encoding, no two encodings are equal, and the batch root is the Merkle root
  of the encodings in order.\<close>

theorem valid_batch_root:
  assumes "verify R pubs stmt b = Inr out" "codes out = []" "stmt_records stmt \<noteq> []"
  shows "list_all (\<lambda>rec. record_pae rec \<noteq> None \<and> the_arr (member rec ''signatures'') \<noteq> []) (stmt_records stmt) \<and>
    distinct (batch_paes stmt) \<and>
    (\<exists>h. merkle_root_hex (rt_sha R) (batch_paes stmt) = Inr h \<and> rget (stmt_pred stmt) ''batchRoot'' = JStr h)"
  by (rule valid_out [OF assms(1,2)]) (rule valid_batch [OF _ assms(3)])

lemma substrate_records: "stmt_records (substrate_on recs) = recs"
  by (simp add: stmt_records_def stmt_pred_def substrate_on_def example_stmt_def obj_def rget_def)

theorem valid_batch_root_witness: "distinct (batch_paes substrate_stmt)"
proof -
  have "stmt_records substrate_stmt \<noteq> []"
    by (simp add: substrate_stmt_def substrate_records example_records_def example_payloads_def)
  from valid_batch_root [OF substrate_run outcome_of_simps(1) this] show ?thesis by blast
qed






text \<open>C12: the keys never decide the verdict: under any other set of keys the same statement gets
  the same codes, the same result and the same key-free tier column.\<close>

theorem verdict_independent_of_keys:
  assumes "verify R pubs stmt b = Inr out"
  shows "\<exists>out'. verify R pubs' stmt b = Inr out' \<and> codes out' = codes out \<and> out_result out' = out_result out \<and>
    tiers_without_key out' = tiers_without_key out"
  using verify_unkeyed [OF assms, of pubs'] by (auto simp: unkeyed_eq)

theorem verdict_independent_of_keys_witness:
  "\<exists>out'. verify toy [] artifact_stmt None = Inr out' \<and> codes out' = []"
  using verdict_independent_of_keys [OF artifact_run, of "[]"] by auto

end
